theory Spec2Isabelle
  imports Complex_Main "HOL-Library.Word"
begin

section \<open>The request executor of s3fuse (base/request.cc)\<close>

text \<open>
  A shallow embedding of \<^verbatim>\<open>s3::base::request\<close>: the object is a record, every member
  function takes the object (and, where it touches them, the process-wide variables) and
  returns the new one, a thrown \<^verbatim>\<open>runtime_error\<close> is the left summand of the result and
  the object as the throw leaves it is returned beside it.

  What lies outside the file is a parameter: libcurl's transfer is a script of the
  callbacks it makes and of what it reports, the hook object is a record of functions,
  the configuration is a record, and the clock is read from the script.
  \<^verbatim>\<open>curl_easy_setopt\<close> and \<^verbatim>\<open>curl_easy_getinfo\<close> on the live handle are taken to return
  \<^verbatim>\<open>CURLE_OK\<close>, so \<^verbatim>\<open>TEST_OK\<close> never throws.
  The type \<open>'t\<close> stands for \<^verbatim>\<open>double\<close>: only its zero and its addition are used, and no
  law of either.
\<close>

subsection \<open>Types\<close>

type_synonym size_t = "64 word"
type_synonym uint64_t = "64 word"
type_synonym time_t = int

definition NUL :: char where
  "NUL = CHR 0x00"

definition LF :: char where
  "LF = CHR 0x0A"

definition CR :: char where
  "CR = CHR 0x0D"

text \<open>The enumerators of \<^verbatim>\<open>http_method\<close> that \<^verbatim>\<open>init\<close> tests, and any other value
  of the enumeration's integer type.\<close>

datatype http_method =
  HTTP_DELETE | HTTP_GET | HTTP_HEAD | HTTP_POST | HTTP_PUT | HTTP_OTHER int

text \<open>The codes of \<^verbatim>\<open>CURLcode\<close> that \<^verbatim>\<open>run\<close> names, and any other code.\<close>

datatype curl_code =
  CURLE_OK
  | CURLE_COULDNT_RESOLVE_PROXY
  | CURLE_COULDNT_RESOLVE_HOST
  | CURLE_COULDNT_CONNECT
  | CURLE_PARTIAL_FILE
  | CURLE_UPLOAD_FAILED
  | CURLE_OPERATION_TIMEDOUT
  | CURLE_SSL_CONNECT_ERROR
  | CURLE_GOT_NOTHING
  | CURLE_SEND_ERROR
  | CURLE_RECV_ERROR
  | CURLE_BAD_CONTENT_ENCODING
  | CURLE_OTHER nat

datatype runtime_error = Runtime_error string

text \<open>The options of the libcurl handle that this file sets after construction.\<close>

record curl_handle =
  opt_customrequest :: "string option"
  opt_upload :: bool
  opt_nobody :: bool
  opt_post :: bool
  opt_url :: string
  opt_infilesize_large :: int
  opt_postfieldsize_large :: int
  opt_httpheader :: "string list"
  opt_fresh_connect :: bool

text \<open>
  The members of \<^verbatim>\<open>request\<close>. \<open>hook\<close> is the pointer \<^verbatim>\<open>_hook\<close> (\<open>None\<close> is
  \<^verbatim>\<open>NULL\<close>); \<open>input_buffer\<close> is the memory \<^verbatim>\<open>_input_buffer\<close> points at, from the
  pointer on (\<open>[]\<close> for \<^verbatim>\<open>NULL\<close>); \<open>headers\<close> lists the request headers in the order
  \<^verbatim>\<open>run\<close> iterates over them.
\<close>

record 't request =
  curl :: curl_handle
  curl_error :: string
  hook :: "nat option"
  request_method :: string
  url :: string
  headers :: "(string \<times> string) list"
  response_headers :: "string \<rightharpoonup> string"
  output_buffer :: "char list"
  input_buffer :: "char list"
  input_size :: size_t
  response_code :: int
  last_modified :: int
  current_run_time :: 't
  total_run_time :: 't
  run_count :: uint64_t
  total_bytes_transferred :: uint64_t
  canceled :: bool
  timeout :: time_t

text \<open>Modelled from the spec: \<^verbatim>\<open>request_hook.h\<close> is not among the sources. The spec
  gives the hook three methods: \<^verbatim>\<open>adjust_url\<close> rewrites the base URL, \<^verbatim>\<open>pre_run\<close>
  signs the request (it may change the executor), \<^verbatim>\<open>should_retry\<close> inspects the response
  and answers whether another attempt is wanted.\<close>

record 't request_hook =
  adjust_url :: "string \<Rightarrow> string"
  pre_run :: "'t request \<Rightarrow> int \<Rightarrow> 't request"
  should_retry :: "'t request \<Rightarrow> int \<Rightarrow> bool"

text \<open>The values \<^verbatim>\<open>config::get_max_transfer_retries()\<close> and
  \<^verbatim>\<open>config::get_request_timeout_in_s()\<close> return, and the constant
  \<^verbatim>\<open>request::DEFAULT_REQUEST_TIMEOUT\<close> of the class declaration.\<close>

record config =
  max_transfer_retries :: int
  request_timeout_in_s :: int
  DEFAULT_REQUEST_TIMEOUT :: int

text \<open>Modelled from the spec: the status codes \<^verbatim>\<open>HTTP_SC_MULTIPLE_CHOICES\<close> and
  \<^verbatim>\<open>HTTP_SC_NOT_FOUND\<close> are declared in \<^verbatim>\<open>request.h\<close>, which is not among the
  sources; the spec has 300 and 404.\<close>

definition HTTP_SC_MULTIPLE_CHOICES :: int where
  "HTTP_SC_MULTIPLE_CHOICES = 300"

definition HTTP_SC_NOT_FOUND :: int where
  "HTTP_SC_NOT_FOUND = 404"

text \<open>Modelled from the spec: \<^verbatim>\<open>header_map\<close> is declared in \<^verbatim>\<open>request.h\<close>, which is
  not among the sources; the spec has its names compared case-insensitively. A name is
  looked up and stored under its lower-case form.\<close>

definition to_lower :: "char \<Rightarrow> char" where
  "to_lower c =
     (let n = (of_char c :: nat) in if 65 \<le> n \<and> n \<le> 90 then char_of (n + 32) else c)"

definition header_key :: "string \<Rightarrow> string" where
  "header_key name = map to_lower name"

definition get_response_header :: "'t request \<Rightarrow> string \<Rightarrow> string option" where
  "get_response_header req name = response_headers req (header_key name)"

subsection \<open>The process-wide variables\<close>

text \<open>What the file logs, all of it at \<^verbatim>\<open>LOG_WARNING\<close>.\<close>

datatype log_entry =
  Timed_out_on string string
  | Got_error_retrying string
  | Request_failed string string int "char list"

text \<open>The calls \<^verbatim>\<open>run\<close> makes to the hook and to libcurl, in the order made:
  \<^verbatim>\<open>pre_run\<close> with its attempt index, \<^verbatim>\<open>curl_easy_perform\<close> with the attempt index and
  the code it returned, \<^verbatim>\<open>should_retry\<close> with its attempt index and its answer.\<close>

datatype call = Pre_run int | Perform int curl_code | Should_retry int bool

text \<open>What happens to \<^verbatim>\<open>s_stats_mutex\<close> and to the three totals it guards.\<close>

datatype sync_event = Acquire | Release | Write_run_count | Write_run_time | Write_total_bytes

record 't world =
  s_run_count :: uint64_t
  s_total_bytes :: uint64_t
  s_run_time :: 't
  s_curl_failures :: int
  s_request_failures :: int
  s_timeouts :: int
  s_aborts :: int
  s_hook_retries :: int
  sync :: "sync_event list"
  calls :: "call list"
  logged :: "log_entry list"

subsection \<open>Construction and destruction\<close>

text \<open>The constructor initialises the members of its initialiser list; strings, maps
  and vectors start empty; \<^verbatim>\<open>_curl_error\<close>, \<^verbatim>\<open>_response_code\<close>,
  \<^verbatim>\<open>_last_modified\<close>, \<^verbatim>\<open>_input_buffer\<close> and \<^verbatim>\<open>_input_size\<close> are left as they are found,
  which the five arguments after the first give.
  \<open>None\<close> is the throw when \<^verbatim>\<open>curl_easy_init\<close> returns no handle.\<close>

definition request_ctor ::
  "bool \<Rightarrow> char list \<Rightarrow> int \<Rightarrow> int \<Rightarrow> char list \<Rightarrow> size_t \<Rightarrow>
     ('t::zero) request option" where
  "request_ctor curl_ok ce rc lm ib isz =
     (if \<not> curl_ok then None
      else Some \<lparr>
        curl = \<lparr> opt_customrequest = None, opt_upload = False, opt_nobody = False,
                 opt_post = False, opt_url = [], opt_infilesize_large = 0,
                 opt_postfieldsize_large = 0, opt_httpheader = [],
                 opt_fresh_connect = False \<rparr>,
        curl_error = ce, hook = None, request_method = [], url = [], headers = [],
        response_headers = Map.empty, output_buffer = [], input_buffer = ib,
        input_size = isz, response_code = rc, last_modified = lm,
        current_run_time = 0, total_run_time = 0, run_count = 0,
        total_bytes_transferred = 0, canceled = False, timeout = 0 \<rparr>)"


subsection \<open>Preparing a transaction\<close>

definition set_input_buffer ::
  "char list \<Rightarrow> size_t \<Rightarrow> 't request \<Rightarrow> (runtime_error + unit) \<times> 't request" where
  "set_input_buffer buffer sz req =
     (let req = req\<lparr>input_buffer := buffer, input_size := sz\<rparr> in
      if request_method req = ''PUT'' then
        (Inr (), req\<lparr>curl := (curl req)\<lparr>opt_infilesize_large := sint sz\<rparr>\<rparr>)
      else if request_method req = ''POST'' then
        (Inr (), req\<lparr>curl := (curl req)\<lparr>opt_postfieldsize_large := sint sz\<rparr>\<rparr>)
      else if sz \<noteq> 0 then
        (Inl (Runtime_error ''can't set input data for non-POST/non-PUT request.''), req)
      else (Inr (), req))"

definition init :: "http_method \<Rightarrow> 't request \<Rightarrow> (runtime_error + unit) \<times> 't request" where
  "init m req =
     (if canceled req then (Inl (Runtime_error ''cannot reuse a canceled request.''), req)
      else
        let req = req\<lparr>curl_error := [], url := [], output_buffer := [],
                      response_headers := Map.empty, response_code := 0,
                      last_modified := 0, headers := []\<rparr>;
            req = req\<lparr>curl := (curl req)\<lparr>opt_customrequest := None, opt_upload := False,
                               opt_nobody := False, opt_post := False\<rparr>\<rparr>
        in
          if m = HTTP_DELETE then
            set_input_buffer [] 0
              (req\<lparr>request_method := ''DELETE'',
                   curl := (curl req)\<lparr>opt_customrequest := Some ''DELETE'',
                                      opt_nobody := True\<rparr>\<rparr>)
          else if m = HTTP_GET then
            set_input_buffer [] 0 (req\<lparr>request_method := ''GET''\<rparr>)
          else if m = HTTP_HEAD then
            set_input_buffer [] 0
              (req\<lparr>request_method := ''HEAD'', curl := (curl req)\<lparr>opt_nobody := True\<rparr>\<rparr>)
          else if m = HTTP_POST then
            set_input_buffer [] 0
              (req\<lparr>request_method := ''POST'', curl := (curl req)\<lparr>opt_post := True\<rparr>\<rparr>)
          else if m = HTTP_PUT then
            set_input_buffer [] 0
              (req\<lparr>request_method := ''PUT'', curl := (curl req)\<lparr>opt_upload := True\<rparr>\<rparr>)
          else (Inl (Runtime_error ''unsupported HTTP method.''), req))"

definition set_url ::
  "(nat \<Rightarrow> 't request_hook) \<Rightarrow> string \<Rightarrow> string \<Rightarrow> 't request \<Rightarrow> 't request" where
  "set_url hooks u query_string req =
     (let curl_url = (case hook req of Some h \<Rightarrow> adjust_url (hooks h) u | None \<Rightarrow> u);
          curl_url =
            (if query_string \<noteq> [] then
               curl_url @ (if CHR ''?'' \<notin> set curl_url then ''?'' else ''&'') @ query_string
             else curl_url)
      in req\<lparr>url := u, curl := (curl req)\<lparr>opt_url := curl_url\<rparr>\<rparr>)"

definition use_fresh_connection :: "'t request \<Rightarrow> 't request" where
  "use_fresh_connection req = req\<lparr>curl := (curl req)\<lparr>opt_fresh_connect := True\<rparr>\<rparr>"

text \<open>\<open>now\<close> is what \<^verbatim>\<open>time(NULL)\<close> returns to the call.\<close>

definition check_timeout ::
  "time_t \<Rightarrow> 't request \<Rightarrow> 't world \<Rightarrow> bool \<times> 't request \<times> 't world" where
  "check_timeout now req w =
     (if timeout req \<noteq> 0 \<and> now > timeout req then
        (True, req\<lparr>canceled := True\<rparr>,
         w\<lparr>logged := logged w @ [Timed_out_on (request_method req) (url req)]\<rparr>)
      else (False, req, w))"

subsection \<open>The callbacks given to libcurl\<close>

text \<open>\<^verbatim>\<open>strchr\<close> on the memory \<open>s\<close>: the offset of the first \<open>c\<close>, looked for up to
  and including the first NUL.\<close>

fun strchr :: "char list \<Rightarrow> char \<Rightarrow> nat option" where
  "strchr [] c = None"
| "strchr (x # xs) c =
     (if x = c then Some 0 else if x = NUL then None else map_option Suc (strchr xs c))"

text \<open>The \<^verbatim>\<open>std::string\<close> made from a \<^verbatim>\<open>char *\<close>: the bytes before the first NUL.\<close>

definition c_string :: "char list \<Rightarrow> string" where
  "c_string s = takeWhile (\<lambda>c. c \<noteq> NUL) s"

text \<open>The statement pair \<^verbatim>\<open>pos = strchr(data, c); if (pos) *pos = '\0';\<close>.\<close>

definition terminate_at :: "char \<Rightarrow> char list \<Rightarrow> char list" where
  "terminate_at c data = (case strchr data c of Some pos \<Rightarrow> data[pos := NUL] | None \<Rightarrow> data)"

text \<open>The statements from the search for the colon on: \<open>None\<close> when there is no
  colon, else the two C strings that become the key and the value of the map entry.\<close>

definition split_header :: "char list \<Rightarrow> (string \<times> string) option" where
  "split_header data =
     (case strchr data (CHR '':'') of
        None \<Rightarrow> None
      | Some pos \<Rightarrow>
          let data = data[pos := NUL];
              pos = pos + 1;
              pos = (if data ! pos = CHR '' '' then pos + 1 else pos)
          in Some (c_string data, c_string (drop pos data)))"

text \<open>\<open>line\<close> is \<^verbatim>\<open>data[0 .. size * items)\<close> and \<open>term\<close> is the byte
  \<^verbatim>\<open>data[size * items]\<close> behind it. Returns what the callback returns, and the object.\<close>

definition process_header :: "char list \<Rightarrow> char \<Rightarrow> 't request \<Rightarrow> size_t \<times> 't request" where
  "process_header line term req =
     (let sz = (of_nat (length line) :: size_t); data = line @ [term] in
      if canceled req then (0, req)
      else if term \<noteq> NUL then (sz, req)
      else
        let data = terminate_at LF data;
            data = terminate_at CR data
        in
          case split_header data of
            None \<Rightarrow> (sz, req)
          | Some (name, val) \<Rightarrow>
              (sz, req\<lparr>response_headers := (response_headers req)(header_key name \<mapsto> val)\<rparr>))"

text \<open>\<open>data\<close> is the \<^verbatim>\<open>size * items\<close> bytes handed over.\<close>

definition process_output :: "char list \<Rightarrow> 't request \<Rightarrow> size_t \<times> 't request" where
  "process_output data req =
     (let sz = (of_nat (length data) :: size_t) in
      if canceled req then (0, req)
      else (sz, req\<lparr>output_buffer := output_buffer req @ data\<rparr>))"

text \<open>Returns what the callback returns, the bytes it copies to \<^verbatim>\<open>data\<close>, and the
  object.\<close>

definition process_input ::
  "size_t \<Rightarrow> size_t \<Rightarrow> 't request \<Rightarrow> (size_t \<times> char list) \<times> 't request" where
  "process_input sz items req =
     (let sz = sz * items in
      if canceled req then ((0, []), req)
      else
        let remaining = (if sz > input_size req then input_size req else sz) in
          ((remaining, take (unat remaining) (input_buffer req)),
           req\<lparr>input_buffer := drop (unat remaining) (input_buffer req),
               input_size := input_size req - remaining\<rparr>))"

subsection \<open>One transfer, as libcurl carries it out\<close>

text \<open>
  What \<^verbatim>\<open>curl_easy_perform\<close> does is not in the file. A transfer is given by a
  script: the clock when the deadline is set, the callbacks made while the transfer
  runs, in their order (a header line with the byte behind it, a piece of the body, a
  request for \<^verbatim>\<open>size\<close> times \<^verbatim>\<open>items\<close> bytes of input, and a call of
  \<^verbatim>\<open>check_timeout\<close> that reads the clock \<open>now\<close>), the code returned, the text left in
  the error buffer, and what \<^verbatim>\<open>curl_easy_getinfo\<close> reports afterwards. No script is
  excluded: the properties below hold of whatever libcurl does.
\<close>

datatype callback =
  Header_cb "char list" char
  | Write_cb "char list"
  | Read_cb size_t size_t
  | Watchdog time_t

record 't transfer =
  start_time :: time_t
  callbacks :: "callback list"
  result :: curl_code
  error_text :: string
  info_response_code :: int
  info_total_time :: 't
  info_filetime :: int

fun deliver :: "callback \<Rightarrow> 't request \<times> 't world \<Rightarrow> 't request \<times> 't world" where
  "deliver (Header_cb line term) (req, w) = (snd (process_header line term req), w)"
| "deliver (Write_cb data) (req, w) = (snd (process_output data req), w)"
| "deliver (Read_cb sz items) (req, w) = (snd (process_input sz items req), w)"
| "deliver (Watchdog now) (req, w) = snd (check_timeout now req w)"

definition curl_easy_perform ::
  "'t transfer \<Rightarrow> 't request \<Rightarrow> 't world \<Rightarrow> curl_code \<times> 't request \<times> 't world" where
  "curl_easy_perform tr req w =
     (let (req, w) = fold deliver (callbacks tr) (req, w)
      in (result tr, req\<lparr>curl_error := error_text tr\<rparr>, w))"

subsection \<open>run\<close>

definition retryable :: "curl_code \<Rightarrow> bool" where
  "retryable r \<longleftrightarrow>
     r = CURLE_COULDNT_RESOLVE_PROXY \<or>
     r = CURLE_COULDNT_RESOLVE_HOST \<or>
     r = CURLE_COULDNT_CONNECT \<or>
     r = CURLE_PARTIAL_FILE \<or>
     r = CURLE_UPLOAD_FAILED \<or>
     r = CURLE_OPERATION_TIMEDOUT \<or>
     r = CURLE_SSL_CONNECT_ERROR \<or>
     r = CURLE_GOT_NOTHING \<or>
     r = CURLE_SEND_ERROR \<or>
     r = CURLE_RECV_ERROR \<or>
     r = CURLE_BAD_CONTENT_ENCODING"

text \<open>The local variables of \<^verbatim>\<open>run\<close> that outlive an iteration (\<^verbatim>\<open>r\<close>,
  \<^verbatim>\<open>elapsed_time\<close>, \<^verbatim>\<open>bytes_transferred\<close>), the object and the process-wide
  variables. \<^verbatim>\<open>iter\<close> is passed beside them.\<close>

record 't frame =
  r_code :: curl_code
  elapsed_time :: 't
  bytes_transferred :: uint64_t
  this :: "'t request"
  globals :: "'t world"

text \<open>How an iteration of the loop ends: by a throw, by \<^verbatim>\<open>continue\<close> or by
  \<^verbatim>\<open>break\<close>.\<close>

datatype 't flow = Throw runtime_error "'t frame" | Continue "'t frame" | Break "'t frame"

text \<open>The iteration up to the call of libcurl: the buffers are emptied, the hook signs,
  the header list is built. Returns \<^verbatim>\<open>request_size\<close> beside the object and the
  process-wide variables.\<close>

definition attempt_prepare ::
  "(nat \<Rightarrow> 't request_hook) \<Rightarrow> int \<Rightarrow> 't request \<Rightarrow> 't world \<Rightarrow>
     uint64_t \<times> 't request \<times> 't world" where
  "attempt_prepare hooks iter req w =
     (let req = req\<lparr>output_buffer := [], response_headers := Map.empty\<rparr>;
          (req, w) =
            (case hook req of
               Some h \<Rightarrow> (pre_run (hooks h) req iter, w\<lparr>calls := calls w @ [Pre_run iter]\<rparr>)
             | None \<Rightarrow> (req, w));
          hs = map (\<lambda>(k, v). k @ '': '' @ v) (headers req);
          request_size = fold (\<lambda>h n. n + of_nat (length h)) hs (0 :: uint64_t);
          req = req\<lparr>curl := (curl req)\<lparr>opt_httpheader := hs\<rparr>\<rparr>;
          request_size = request_size + input_size req
      in (request_size, req, w))"

text \<open>The deadline is set, libcurl runs the transfer, the deadline is reset.\<close>

definition attempt_perform ::
  "config \<Rightarrow> 't transfer \<Rightarrow> int \<Rightarrow> int \<Rightarrow> 't request \<Rightarrow> 't world \<Rightarrow>
     curl_code \<times> 't request \<times> 't world" where
  "attempt_perform cfg tr timeout_in_s iter req w =
     (let req = req\<lparr>timeout := start_time tr +
                   (if timeout_in_s = DEFAULT_REQUEST_TIMEOUT cfg
                    then request_timeout_in_s cfg else timeout_in_s)\<rparr>;
          (r, req, w) = curl_easy_perform tr req w;
          w = w\<lparr>calls := calls w @ [Perform iter r]\<rparr>;
          req = req\<lparr>timeout := 0\<rparr>
      in (r, req, w))"

text \<open>The rest of the iteration, from the test of \<^verbatim>\<open>_canceled\<close> on.\<close>

definition attempt_conclude ::
  "(nat \<Rightarrow> ('t::plus) request_hook) \<Rightarrow> 't transfer \<Rightarrow> int \<Rightarrow> uint64_t \<Rightarrow> curl_code \<Rightarrow>
     't request \<Rightarrow> 't world \<Rightarrow> 't frame \<Rightarrow> 't flow" where
  "attempt_conclude hooks tr iter request_size r req w fr =
     (if canceled req then
        Throw (Runtime_error ''request timed out.'')
          (fr\<lparr>r_code := r, this := req, globals := w\<lparr>s_timeouts := s_timeouts w + 1\<rparr>\<rparr>)
      else if retryable r then
        Continue
          (fr\<lparr>r_code := r, this := req,
              globals := w\<lparr>s_curl_failures := s_curl_failures w + 1,
                           logged := logged w @ [Got_error_retrying (curl_error req)]\<rparr>\<rparr>)
      else if r = CURLE_OK then
        (let req = req\<lparr>response_code := info_response_code tr,
                       last_modified := info_filetime tr\<rparr>;
             fr = fr\<lparr>r_code := r,
                     elapsed_time := elapsed_time fr + info_total_time tr,
                     bytes_transferred :=
                       bytes_transferred fr +
                         (request_size + of_nat (length (output_buffer req))),
                     this := req, globals := w\<rparr>
         in
           case hook req of
             Some h \<Rightarrow>
               (let b = should_retry (hooks h) req iter;
                    w = w\<lparr>calls := calls w @ [Should_retry iter b]\<rparr>
                in
                  if b then
                    Continue (fr\<lparr>globals := w\<lparr>s_hook_retries := s_hook_retries w + 1\<rparr>\<rparr>)
                  else Break (fr\<lparr>globals := w\<rparr>))
           | None \<Rightarrow> Break fr)
      else Break (fr\<lparr>r_code := r, this := req, globals := w\<rparr>))"

definition run_attempt ::
  "config \<Rightarrow> (nat \<Rightarrow> ('t::plus) request_hook) \<Rightarrow> (int \<Rightarrow> 't transfer) \<Rightarrow> int \<Rightarrow> int \<Rightarrow>
     't frame \<Rightarrow> 't flow" where
  "run_attempt cfg hooks env timeout_in_s iter fr =
     (let (request_size, req, w) = attempt_prepare hooks iter (this fr) (globals fr);
          (r, req, w) = attempt_perform cfg (env iter) timeout_in_s iter req w
      in attempt_conclude hooks (env iter) iter request_size r req w fr)"

text \<open>How the loop ends: by a throw out of an iteration, or by leaving the loop with
  the value \<^verbatim>\<open>iter\<close> then has.\<close>

datatype 't loop_end = Loop_threw runtime_error "'t frame" | Loop_exit int "'t frame"

function run_loop ::
  "config \<Rightarrow> (nat \<Rightarrow> ('t::plus) request_hook) \<Rightarrow> (int \<Rightarrow> 't transfer) \<Rightarrow> int \<Rightarrow> int \<Rightarrow>
     't frame \<Rightarrow> 't loop_end" where
  "run_loop cfg hooks env timeout_in_s iter fr =
     (if iter < max_transfer_retries cfg then
        (case run_attempt cfg hooks env timeout_in_s iter fr of
           Throw e fr' \<Rightarrow> Loop_threw e fr'
         | Continue fr' \<Rightarrow> run_loop cfg hooks env timeout_in_s (iter + 1) fr'
         | Break fr' \<Rightarrow> Loop_exit iter fr')
      else Loop_exit iter fr)"
  by pat_completeness auto
termination
  by (relation "measure (\<lambda>(cfg, hooks, env, timeout_in_s, iter, fr).
        nat (max_transfer_retries cfg - iter))") auto

text \<open>The statements after the loop.\<close>

definition run_finish ::
  "int \<Rightarrow> ('t::plus) frame \<Rightarrow> (runtime_error + unit) \<times> 't request \<times> 't world" where
  "run_finish iter fr =
     (let req = this fr; w = globals fr in
      if r_code fr \<noteq> CURLE_OK then
        (Inl (Runtime_error (curl_error req)), req, w\<lparr>s_aborts := s_aborts w + 1\<rparr>)
      else
        let req =
              (if run_count req > 0 then
                 req\<lparr>total_run_time := total_run_time req + elapsed_time fr,
                     total_bytes_transferred :=
                       total_bytes_transferred req + bytes_transferred fr\<rparr>
               else req);
            req = req\<lparr>current_run_time := current_run_time req + elapsed_time fr\<rparr>;
            req = req\<lparr>run_count := run_count req + of_int (iter + 1)\<rparr>
        in
          if response_code req \<ge> HTTP_SC_MULTIPLE_CHOICES \<and>
             response_code req \<noteq> HTTP_SC_NOT_FOUND
          then
            (Inr (), req,
             w\<lparr>s_request_failures := s_request_failures w + 1,
               logged := logged w @
                 [Request_failed (request_method req) (url req) (response_code req)
                    (output_buffer req)]\<rparr>)
          else (Inr (), req, w))"

definition run ::
  "config \<Rightarrow> (nat \<Rightarrow> ('t::{zero,plus}) request_hook) \<Rightarrow> (int \<Rightarrow> 't transfer) \<Rightarrow> int \<Rightarrow>
     't request \<Rightarrow> 't world \<Rightarrow> (runtime_error + unit) \<times> 't request \<times> 't world" where
  "run cfg hooks env timeout_in_s req w =
     (if url req = [] then (Inl (Runtime_error ''call set_url() first!''), req, w)
      else if request_method req = [] then (Inl (Runtime_error ''call set_method() first!''), req, w)
      else if canceled req then
        (Inl (Runtime_error ''cannot reuse a canceled request.''), req, w)
      else
        case run_loop cfg hooks env timeout_in_s 0
               \<lparr>r_code = CURLE_OK, elapsed_time = 0, bytes_transferred = 0,
                this = req, globals = w\<rparr> of
          Loop_threw e fr \<Rightarrow> (Inl e, this fr, globals fr)
        | Loop_exit iter fr \<Rightarrow> run_finish iter fr)"

subsection \<open>Notions used in the statements\<close>

text \<open>The number of bytes the read callback hands to libcurl over a sequence of
  callbacks: the sum of what \<^verbatim>\<open>process_input\<close> returns.\<close>

fun supplied :: "callback list \<Rightarrow> 't request \<times> 't world \<Rightarrow> nat" where
  "supplied [] s = 0"
| "supplied (Read_cb sz items # cs) s =
     unat (fst (fst (process_input sz items (fst s)))) +
       supplied cs (deliver (Read_cb sz items) s)"
| "supplied (Header_cb line term # cs) s = supplied cs (deliver (Header_cb line term) s)"
| "supplied (Write_cb data # cs) s = supplied cs (deliver (Write_cb data) s)"
| "supplied (Watchdog now # cs) s = supplied cs (deliver (Watchdog now) s)"

text \<open>The memory \<open>data\<close> holds the C string \<open>s\<close>: the bytes of \<open>s\<close>, none of
  them NUL, and a NUL behind them.\<close>

definition holds :: "char list \<Rightarrow> string \<Rightarrow> bool" where
  "holds data s \<longleftrightarrow> (\<exists>rest. data = s @ NUL # rest) \<and> NUL \<notin> set s"

text \<open>Header parsing in the words of the specification. The text of a line is the
  line up to its first NUL, LF or CR; with a colon in it, the name is what stands
  before the first colon and the value what stands after it, less one leading space.\<close>

definition cut_line :: "char list \<Rightarrow> string" where
  "cut_line line = takeWhile (\<lambda>c. c \<noteq> NUL \<and> c \<noteq> LF \<and> c \<noteq> CR) line"

definition parse_text :: "string \<Rightarrow> (string \<times> string) option" where
  "parse_text s =
     (if CHR '':'' \<notin> set s then None
      else
        let name = takeWhile (\<lambda>c. c \<noteq> CHR '':'') s;
            rest = tl (dropWhile (\<lambda>c. c \<noteq> CHR '':'') s)
        in Some (name, if rest \<noteq> [] \<and> hd rest = CHR '' '' then tl rest else rest))"

definition parse_header_line :: "char list \<Rightarrow> (string \<times> string) option" where
  "parse_header_line line = parse_text (cut_line line)"

text \<open>What a header line followed by the byte \<open>t\<close> does to the map of an executor
  that is not canceled.\<close>

definition store_header ::
  "char list \<Rightarrow> char \<Rightarrow> (string \<rightharpoonup> string) \<Rightarrow> (string \<rightharpoonup> string)" where
  "store_header line t m =
     (if t \<noteq> NUL then m
      else case parse_header_line line of
             None \<Rightarrow> m
           | Some (name, v) \<Rightarrow> m(header_key name \<mapsto> v))"

text \<open>The header callback run over the header lines of a response in their order
  (each with the byte behind it), and the list of the entries these lines parse to.\<close>

definition process_headers :: "(char list \<times> char) list \<Rightarrow> 't request \<Rightarrow> 't request" where
  "process_headers ls req = fold (\<lambda>(line, t) r. snd (process_header line t r)) ls req"

definition parsed_headers :: "(char list \<times> char) list \<Rightarrow> (string \<times> string) list" where
  "parsed_headers ls =
     concat (map (\<lambda>(line, t).
       if t = NUL then
         (case parse_header_line line of
            Some (name, v) \<Rightarrow> [(header_key name, v)]
          | None \<Rightarrow> [])
       else []) ls)"

text \<open>What a transfer's script delivers: the body, as the concatenation of the pieces
  handed to the write callback, and the header lines with the byte behind each.\<close>

definition body_of :: "callback list \<Rightarrow> char list" where
  "body_of cbs = concat (map (\<lambda>c. case c of Write_cb d \<Rightarrow> d | _ \<Rightarrow> []) cbs)"

definition header_lines :: "callback list \<Rightarrow> (char list \<times> char) list" where
  "header_lines cbs =
     concat (map (\<lambda>c. case c of Header_cb l t \<Rightarrow> [(l, t)] | _ \<Rightarrow> []) cbs)"

text \<open>The hook leaves the member \<open>f\<close> of the executor as it finds it.\<close>

definition hook_keeps :: "('t request \<Rightarrow> 'a) \<Rightarrow> (nat \<Rightarrow> 't request_hook) \<Rightarrow> bool" where
  "hook_keeps f hooks \<longleftrightarrow> (\<forall>h r i. f (pre_run (hooks h) r i) = f r)"

text \<open>The calls of one attempt that come before the transfer.\<close>

definition pre_calls :: "bool \<Rightarrow> int \<Rightarrow> call list" where
  "pre_calls hk i = (if hk then [Pre_run i] else [])"

text \<open>The frame an iteration, and the loop, ends with.\<close>

fun frame_of :: "'t flow \<Rightarrow> 't frame" where
  "frame_of (Throw e fr) = fr"
| "frame_of (Continue fr) = fr"
| "frame_of (Break fr) = fr"

fun end_frame :: "'t loop_end \<Rightarrow> 't frame" where
  "end_frame (Loop_threw e fr) = fr"
| "end_frame (Loop_exit iter fr) = fr"

text \<open>
  The retry policy, as a grammar of the calls one \<^verbatim>\<open>run\<close> makes. \<open>hk\<close> says whether
  a hook is installed, \<open>mx\<close> is \<^verbatim>\<open>max_transfer_retries\<close>, \<open>res i\<close> is the code the
  transfer of attempt \<open>i\<close> returns, and \<open>i\<close> is the index of the next attempt. An attempt
  is made only while \<open>i < mx\<close>; it is \<^verbatim>\<open>pre_run\<close> with the index \<open>i\<close> when a hook is
  installed, then the transfer; the hook's \<^verbatim>\<open>should_retry\<close> is asked only after a
  transfer that returned \<^verbatim>\<open>CURLE_OK\<close>; and another attempt follows only a transfer
  that failed with a transport-class code, or a \<^verbatim>\<open>should_retry\<close> that answered true.
\<close>

inductive retry_protocol ::
  "bool \<Rightarrow> int \<Rightarrow> (int \<Rightarrow> curl_code) \<Rightarrow> int \<Rightarrow> call list \<Rightarrow> bool"
  for hk mx res where
  finished: "retry_protocol hk mx res i []"
| stopped: "i < mx \<Longrightarrow> retry_protocol hk mx res i (pre_calls hk i @ [Perform i (res i)])"
| declined:
    "i < mx \<Longrightarrow> hk \<Longrightarrow> res i = CURLE_OK \<Longrightarrow>
       retry_protocol hk mx res i (pre_calls hk i @ [Perform i (res i), Should_retry i False])"
| transport_retry:
    "i < mx \<Longrightarrow> retryable (res i) \<Longrightarrow> retry_protocol hk mx res (i + 1) cs \<Longrightarrow>
       retry_protocol hk mx res i (pre_calls hk i @ Perform i (res i) # cs)"
| hook_retry:
    "i < mx \<Longrightarrow> hk \<Longrightarrow> res i = CURLE_OK \<Longrightarrow> retry_protocol hk mx res (i + 1) cs \<Longrightarrow>
       retry_protocol hk mx res i
         (pre_calls hk i @ Perform i (res i) # Should_retry i True # cs)"

code_pred retry_protocol .

text \<open>The number of HTTP attempts among a list of calls.\<close>

fun is_perform :: "call \<Rightarrow> bool" where
  "is_perform (Perform i r) = True"
| "is_perform (Pre_run i) = False"
| "is_perform (Should_retry i b) = False"

definition attempts_made :: "call list \<Rightarrow> nat" where
  "attempts_made cs = length (filter is_perform cs)"

text \<open>The index of the last attempt among a list of calls.\<close>

fun last_attempt :: "call list \<Rightarrow> int option" where
  "last_attempt [] = None"
| "last_attempt (c # cs) =
     (case last_attempt cs of
        Some j \<Rightarrow> Some j
      | None \<Rightarrow> (case c of Perform i r \<Rightarrow> Some i | _ \<Rightarrow> None))"

text \<open>How the loop ends when the iteration it runs last ends as \<open>out\<close>.\<close>

fun loop_end_of :: "int \<Rightarrow> 't flow \<Rightarrow> 't loop_end" where
  "loop_end_of j (Throw e fr) = Loop_threw e fr"
| "loop_end_of j (Continue fr) = Loop_exit (j + 1) fr"
| "loop_end_of j (Break fr) = Loop_exit j fr"

text \<open>The calls made between two states of the process-wide variables, the error
  \<^verbatim>\<open>run\<close> throws for a timeout, and the frame the loop of \<^verbatim>\<open>run\<close> starts with.\<close>

definition new_calls :: "'t world \<Rightarrow> 't world \<Rightarrow> call list" where
  "new_calls w w' = drop (length (calls w)) (calls w')"

definition timed_out :: runtime_error where
  "timed_out = Runtime_error ''request timed out.''"

definition start :: "('t::zero) request \<Rightarrow> 't world \<Rightarrow> 't frame" where
  "start req w =
     \<lparr>r_code = CURLE_OK, elapsed_time = 0, bytes_transferred = 0, this = req, globals = w\<rparr>"

text \<open>The deadline \<^verbatim>\<open>run\<close> stores in \<^verbatim>\<open>_timeout\<close> for a transfer, the times at
  which the transfer calls \<^verbatim>\<open>check_timeout\<close>, and whether one of them is past the
  deadline.\<close>

definition deadline :: "config \<Rightarrow> int \<Rightarrow> 't transfer \<Rightarrow> time_t" where
  "deadline cfg timeout_in_s tr =
     start_time tr +
       (if timeout_in_s = DEFAULT_REQUEST_TIMEOUT cfg then request_timeout_in_s cfg
        else timeout_in_s)"

definition watchdog_times :: "callback list \<Rightarrow> time_t list" where
  "watchdog_times cbs = concat (map (\<lambda>c. case c of Watchdog now \<Rightarrow> [now] | _ \<Rightarrow> []) cbs)"

definition expired :: "config \<Rightarrow> int \<Rightarrow> 't transfer \<Rightarrow> bool" where
  "expired cfg timeout_in_s tr \<longleftrightarrow>
     deadline cfg timeout_in_s tr \<noteq> 0 \<and>
     (\<exists>now \<in> set (watchdog_times (callbacks tr)). deadline cfg timeout_in_s tr < now)"

text \<open>The public operations on an object, and a sequence of them applied in order;
  an exception leaves the object as the operation left it.\<close>

datatype 't operation =
  Init http_method
  | Set_url string string
  | Set_input_buffer "char list" size_t
  | Use_fresh_connection
  | Check_timeout time_t
  | Deliver callback
  | Run int "int \<Rightarrow> 't transfer"

fun operate ::
  "config \<Rightarrow> (nat \<Rightarrow> ('t::{zero,plus}) request_hook) \<Rightarrow> 't operation \<Rightarrow>
     't request \<times> 't world \<Rightarrow> 't request \<times> 't world" where
  "operate cfg hooks (Init m) (req, w) = (snd (init m req), w)"
| "operate cfg hooks (Set_url u q) (req, w) = (set_url hooks u q req, w)"
| "operate cfg hooks (Set_input_buffer buffer sz) (req, w) =
     (snd (set_input_buffer buffer sz req), w)"
| "operate cfg hooks Use_fresh_connection (req, w) = (use_fresh_connection req, w)"
| "operate cfg hooks (Check_timeout now) (req, w) = snd (check_timeout now req w)"
| "operate cfg hooks (Deliver c) (req, w) = deliver c (req, w)"
| "operate cfg hooks (Run timeout_in_s env) (req, w) = snd (run cfg hooks env timeout_in_s req w)"



text \<open>The process-wide variables after the critical section of the destructor.\<close>

definition folded :: "('t::plus) request \<Rightarrow> 't world \<Rightarrow> 't world" where
  "folded req w =
     w\<lparr>s_run_count := s_run_count w + run_count req,
       s_run_time := s_run_time w + total_run_time req,
       s_total_bytes := s_total_bytes w + total_bytes_transferred req,
       sync := sync w @ [Acquire, Write_run_count, Write_run_time, Write_total_bytes, Release]\<rparr>"


text \<open>The iterations the loop of \<^verbatim>\<open>run\<close> goes through from \<^verbatim>\<open>iter\<close> and the frame \<open>fr\<close>
  on: each with its index and the frame it starts from, the next one starting from the
  frame its predecessor left with \<^verbatim>\<open>continue\<close>. And the calls one iteration makes.\<close>

function iterations ::
  "config \<Rightarrow> (nat \<Rightarrow> ('t::plus) request_hook) \<Rightarrow> (int \<Rightarrow> 't transfer) \<Rightarrow> int \<Rightarrow> int \<Rightarrow>
     't frame \<Rightarrow> (int \<times> 't frame) list" where
  "iterations cfg hooks env timeout_in_s iter fr =
     (if iter < max_transfer_retries cfg then
        (iter, fr) #
          (case run_attempt cfg hooks env timeout_in_s iter fr of
             Throw e fr' \<Rightarrow> []
           | Continue fr' \<Rightarrow> iterations cfg hooks env timeout_in_s (iter + 1) fr'
           | Break fr' \<Rightarrow> [])
      else [])"
  by pat_completeness auto
termination
  by (relation "measure (\<lambda>(cfg, hooks, env, timeout_in_s, iter, fr).
        nat (max_transfer_retries cfg - iter))") auto

definition attempt_calls ::
  "config \<Rightarrow> (nat \<Rightarrow> ('t::plus) request_hook) \<Rightarrow> (int \<Rightarrow> 't transfer) \<Rightarrow> int \<Rightarrow>
     int \<times> 't frame \<Rightarrow> call list" where
  "attempt_calls cfg hooks env timeout_in_s it =
     new_calls (globals (snd it))
       (globals (frame_of (run_attempt cfg hooks env timeout_in_s (fst it) (snd it))))"

text \<open>The string \<^verbatim>\<open>init\<close> stores in \<^verbatim>\<open>_method\<close> for a supported method.\<close>

fun method_string :: "http_method \<Rightarrow> string" where
  "method_string HTTP_DELETE = ''DELETE''"
| "method_string HTTP_GET = ''GET''"
| "method_string HTTP_HEAD = ''HEAD''"
| "method_string HTTP_POST = ''POST''"
| "method_string HTTP_PUT = ''PUT''"
| "method_string (HTTP_OTHER n) = []"

subsection \<open>Sample objects\<close>

text \<open>A newly constructed executor whose uninitialised members happen to be zero, the
  process-wide variables at program start, and executors prepared from it.\<close>

definition fresh :: "real request" where
  "fresh =
     \<lparr> curl = \<lparr> opt_customrequest = None, opt_upload = False, opt_nobody = False,
                opt_post = False, opt_url = [], opt_infilesize_large = 0,
                opt_postfieldsize_large = 0, opt_httpheader = [],
                opt_fresh_connect = False \<rparr>,
       curl_error = [], hook = None, request_method = [], url = [], headers = [],
       response_headers = Map.empty, output_buffer = [], input_buffer = [],
       input_size = 0, response_code = 0, last_modified = 0,
       current_run_time = 0, total_run_time = 0, run_count = 0,
       total_bytes_transferred = 0, canceled = False, timeout = 0 \<rparr>"

definition quiet :: "real world" where
  "quiet =
     \<lparr> s_run_count = 0, s_total_bytes = 0, s_run_time = 0, s_curl_failures = 0,
       s_request_failures = 0, s_timeouts = 0, s_aborts = 0, s_hook_retries = 0,
       sync = [], calls = [], logged = [] \<rparr>"

definition getter :: "real request" where
  "getter = snd (init HTTP_GET fresh)"

definition uploader :: "real request" where
  "uploader = snd (set_input_buffer ''abcdef'' 4 (snd (init HTTP_PUT fresh)))"

text \<open>Header lines as libcurl hands them over: a header, the status line, and a header
  whose value has a bare CR in it.\<close>

definition etag_line :: "char list" where
  "etag_line = ''ETag: abc'' @ [CR, LF]"

definition etag_again :: "char list" where
  "etag_again = ''etag: xyz'' @ [CR, LF]"

definition status_line :: "char list" where
  "status_line = ''HTTP/1.1 200 OK'' @ [CR, LF]"

definition broken_line :: "char list" where
  "broken_line = ''X: a'' @ [CR] @ ''b'' @ [CR, LF]"

text \<open>A configuration with three attempts; a hook that adds a date header before
  each attempt and asks for another attempt on a 5xx response; an executor prepared for
  a GET with that hook installed, and one without a hook; a transfer that is answered
  with a status code and a body, and one that ends with an empty reply.\<close>

definition cfg3 :: config where
  "cfg3 = \<lparr> max_transfer_retries = 3, request_timeout_in_s = 30,
            DEFAULT_REQUEST_TIMEOUT = - 1 \<rparr>"

definition signer :: "real request_hook" where
  "signer =
     \<lparr> adjust_url = (\<lambda>u. u),
       pre_run = (\<lambda>r i. r\<lparr>headers := [(''Date'', ''today'')]\<rparr>),
       should_retry = (\<lambda>r i. 500 \<le> response_code r) \<rparr>"

definition signers :: "nat \<Rightarrow> real request_hook" where
  "signers = (\<lambda>h. signer)"

definition ready :: "real request" where
  "ready = set_url signers ''http://host/key'' [] (getter\<lparr>hook := Some 0\<rparr>)"

definition plain :: "real request" where
  "plain = set_url signers ''http://host/key'' [] getter"

definition answer :: "int \<Rightarrow> char list \<Rightarrow> real transfer" where
  "answer code body =
     \<lparr> start_time = 1000,
       callbacks = [Header_cb status_line NUL, Header_cb etag_line NUL, Write_cb body],
       result = CURLE_OK, error_text = [], info_response_code = code,
       info_total_time = 1 / 4, info_filetime = 0 \<rparr>"

definition dropped :: "real transfer" where
  "dropped =
     \<lparr> start_time = 1000, callbacks = [Write_cb ''par''], result = CURLE_GOT_NOTHING,
       error_text = ''empty reply'', info_response_code = 0, info_total_time = 0,
       info_filetime = 0 \<rparr>"

definition flaky :: "int \<Rightarrow> real transfer" where
  "flaky i = (if i = 0 then dropped else if i = 1 then answer 503 ''busy''
              else answer 200 ''hello'')"

text \<open>Three runs from program start: with the hook, a dropped transfer, a 503 and a
  200; without a hook, a 403; and without a hook, three dropped transfers.\<close>

definition flaky_run :: "(runtime_error + unit) \<times> real request \<times> real world" where
  "flaky_run = run cfg3 signers flaky (- 1) ready quiet"

definition refused_run :: "(runtime_error + unit) \<times> real request \<times> real world" where
  "refused_run = run cfg3 signers (\<lambda>i. answer 403 ''denied'') (- 1) plain quiet"

definition dropped_run :: "(runtime_error + unit) \<times> real request \<times> real world" where
  "dropped_run = run cfg3 signers (\<lambda>i. dropped) (- 1) plain quiet"

text \<open>A transfer that stalls: the watchdog looks at the clock one second after the
  deadline of thirty seconds, between two pieces of the body; and an object in the
  middle of an attempt whose deadline is 1030.\<close>

definition stalled :: "real transfer" where
  "stalled =
     \<lparr> start_time = 1000,
       callbacks = [Write_cb ''he'', Watchdog 1031, Write_cb ''llo''],
       result = CURLE_OTHER 23, error_text = ''Failed writing body'',
       info_response_code = 0, info_total_time = 0, info_filetime = 0 \<rparr>"

definition stalled_run :: "(runtime_error + unit) \<times> real request \<times> real world" where
  "stalled_run = run cfg3 signers (\<lambda>i. stalled) (- 1) plain quiet"

definition waiting :: "real request" where
  "waiting = plain\<lparr>timeout := 1030\<rparr>"



text \<open>A hook that writes the index of the attempt into a header and asks for the
  attempts 0 and 1 to be repeated, and a run with it in which every transfer is
  answered with a 200.\<close>

definition numberer :: "real request_hook" where
  "numberer =
     \<lparr> adjust_url = (\<lambda>u. u),
       pre_run = (\<lambda>r i. r\<lparr>headers := [(''Attempt'', replicate (nat i) CHR ''I'')]\<rparr>),
       should_retry = (\<lambda>r i. i < 2) \<rparr>"

definition numberers :: "nat \<Rightarrow> real request_hook" where
  "numberers = (\<lambda>h. numberer)"

definition steady :: "int \<Rightarrow> real transfer" where
  "steady i = answer 200 ''hello''"

definition numbered_run :: "(runtime_error + unit) \<times> real request \<times> real world" where
  "numbered_run = run cfg3 numberers steady (- 1) ready quiet"

section \<open>Properties\<close>

subsection \<open>Facts about the callbacks\<close>

lemma process_input_canceled:
  "canceled req \<Longrightarrow> process_input sz items req = ((0, []), req)"
  by (simp add: process_input_def)

lemma process_input_live:
  assumes "\<not> canceled req"
  shows "process_input sz items req =
           ((min (sz * items) (input_size req),
             take (unat (min (sz * items) (input_size req))) (input_buffer req)),
            req\<lparr>input_buffer :=
                  drop (unat (min (sz * items) (input_size req))) (input_buffer req),
                input_size := input_size req - min (sz * items) (input_size req)\<rparr>)"
  using assms by (auto simp add: process_input_def Let_def min_def not_less)

lemma unat_sub_min:
  fixes a n :: size_t
  shows "unat (a - min n a) = unat a - unat (min n a)"
  by (rule unat_sub) simp

lemma unat_min_le:
  fixes a n :: size_t
  shows "unat (min n a) \<le> unat a"
  by (simp add: word_le_nat_alt [symmetric])

lemma input_size_deliver:
  "unat (input_size (fst (deliver c s))) \<le> unat (input_size (fst s))"
proof (cases s)
  case (Pair req w)
  show ?thesis
  proof (cases c)
    case (Read_cb sz items)
    show ?thesis
    proof (cases "canceled req")
      case True
      with Pair Read_cb show ?thesis by (simp add: process_input_canceled)
    next
      case False
      with Pair Read_cb show ?thesis
        by (simp add: process_input_live unat_sub_min)
    qed
  qed (simp_all add: Pair process_header_def process_output_def check_timeout_def Let_def
        split: option.splits)
qed

lemma supplied_step:
  "unat (fst (fst (process_input sz items req))) +
     unat (input_size (snd (process_input sz items req))) = unat (input_size req)"
proof (cases "canceled req")
  case True
  then show ?thesis by (simp add: process_input_canceled)
next
  case False
  with unat_min_le [of "sz * items" "input_size req"] show ?thesis
    by (simp add: process_input_live unat_sub_min)
qed

lemma supplied_le: "supplied cs s \<le> unat (input_size (fst s))"
proof (induction cs s rule: supplied.induct)
  case (1 s)
  then show ?case by simp
next
  case (2 sz items cs s)
  obtain req w where s: "s = (req, w)" by (cases s)
  from 2 have "supplied cs (deliver (Read_cb sz items) s)
      \<le> unat (input_size (snd (process_input sz items req)))"
    by (simp add: s)
  with supplied_step [of sz items req] show ?case by (simp add: s)
next
  case (3 line t cs s)
  then show ?case using input_size_deliver [of "Header_cb line t" s] by simp
next
  case (4 data cs s)
  then show ?case using input_size_deliver [of "Write_cb data" s] by simp
next
  case (5 now cs s)
  then show ?case using input_size_deliver [of "Watchdog now" s] by simp
qed

lemma input_size_set_input_buffer:
  "input_size (snd (set_input_buffer buffer n req)) = n"
  by (simp add: set_input_buffer_def Let_def)

subsection \<open>The read callback\<close>

text \<open>
  C10, as amended. An invocation of the read callback on an executor that is not
  canceled returns \<open>n\<close>, the smaller of the requested size (\<^verbatim>\<open>size * items\<close>) and the
  remaining input size, copies the first \<open>n\<close> bytes of the input buffer, advances the
  buffer by \<open>n\<close> and lowers the remaining size by \<open>n\<close>, which does not wrap around; when
  the buffer holds at least the remaining size, exactly \<open>n\<close> bytes are copied and it
  still holds the new remaining size. On a canceled executor the callback copies
  nothing, returns zero and leaves the object as it is. Over any sequence of callbacks
  of a transfer, the bytes supplied never exceed the remaining size at its start, hence
  never the size given to \<^verbatim>\<open>set_input_buffer\<close>.
\<close>

theorem process_input_supplies:
  "(canceled req \<longrightarrow> process_input sz items req = ((0, []), req)) \<and>
   (\<not> canceled req \<longrightarrow>
      (let n = min (sz * items) (input_size req) in
         process_input sz items req =
           ((n, take (unat n) (input_buffer req)),
            req\<lparr>input_buffer := drop (unat n) (input_buffer req),
                input_size := input_size req - n\<rparr>) \<and>
         unat n \<le> unat (input_size req) \<and>
         unat (input_size req - n) = unat (input_size req) - unat n \<and>
         (unat (input_size req) \<le> length (input_buffer req) \<longrightarrow>
            length (take (unat n) (input_buffer req)) = unat n \<and>
            unat (input_size req - n) \<le> length (drop (unat n) (input_buffer req))))) \<and>
   supplied cs (req, w) \<le> unat (input_size req) \<and>
   supplied cs (snd (set_input_buffer buffer n0 req), w) \<le> unat n0"
proof (intro conjI impI)
  show "process_input sz items req = ((0, []), req)" if "canceled req"
    using that by (rule process_input_canceled)
  show "let n = min (sz * items) (input_size req) in
         process_input sz items req =
           ((n, take (unat n) (input_buffer req)),
            req\<lparr>input_buffer := drop (unat n) (input_buffer req),
                input_size := input_size req - n\<rparr>) \<and>
         unat n \<le> unat (input_size req) \<and>
         unat (input_size req - n) = unat (input_size req) - unat n \<and>
         (unat (input_size req) \<le> length (input_buffer req) \<longrightarrow>
            length (take (unat n) (input_buffer req)) = unat n \<and>
            unat (input_size req - n) \<le> length (drop (unat n) (input_buffer req)))"
    if "\<not> canceled req"
    using that unat_min_le [of "sz * items" "input_size req"]
    by (auto simp add: Let_def process_input_live unat_sub_min)
  show "supplied cs (req, w) \<le> unat (input_size req)"
    using supplied_le [of cs "(req, w)"] by simp
  show "supplied cs (snd (set_input_buffer buffer n0 req), w) \<le> unat n0"
    using supplied_le [of cs "(snd (set_input_buffer buffer n0 req), w)"]
    by (simp add: input_size_set_input_buffer)
qed

theorem process_input_supplies_witness:
  "\<not> canceled uploader \<and>
   unat (input_size uploader) \<le> length (input_buffer uploader) \<and>
   process_input 1 3 uploader =
     ((3, ''abc''), uploader\<lparr>input_buffer := ''def'', input_size := 1\<rparr>) \<and>
   process_input 1 3 (uploader\<lparr>canceled := True\<rparr>) = ((0, []), uploader\<lparr>canceled := True\<rparr>) \<and>
   supplied [Read_cb 1 3, Write_cb ''x'', Read_cb 2 8] (uploader, quiet) \<le> 4"
  using process_input_supplies
          [of uploader 1 3 "[Read_cb 1 3, Write_cb ''x'', Read_cb 2 8]" quiet "[]" 0]
        process_input_supplies [of "uploader\<lparr>canceled := True\<rparr>" 1 3 "[]" quiet "[]" 0]
  by (simp add: uploader_def fresh_def init_def set_input_buffer_def process_input_def
        process_output_def Let_def)

text \<open>The claim as it stands fails on a canceled executor: four bytes remain and three
  are requested, yet the callback returns zero and copies nothing.\<close>

theorem process_input_counterexample:
  "input_size (uploader\<lparr>canceled := True\<rparr>) = 4 \<and>
   fst (process_input 1 3 (uploader\<lparr>canceled := True\<rparr>)) = (0, []) \<and>
   min (1 * 3) (input_size (uploader\<lparr>canceled := True\<rparr>)) = 3"
  by (simp add: uploader_def fresh_def init_def set_input_buffer_def process_input_def Let_def)

subsection \<open>set\_input\_buffer\<close>

text \<open>
  C7, as amended. A call of \<^verbatim>\<open>set_input_buffer\<close> with a nonzero size while the method is
  neither PUT nor POST fails with the error for a body on such a request; the buffer and
  the size have by then been stored in the executor, and nothing of the HTTP session is
  changed. With the method PUT or POST, or with size zero, the call succeeds and the
  buffer and its size are recorded as the request body; for PUT and POST the size is also
  given to the session.
\<close>

theorem set_input_buffer_outcome:
  "(sz \<noteq> 0 \<and> request_method req \<noteq> ''PUT'' \<and> request_method req \<noteq> ''POST'' \<longrightarrow>
      set_input_buffer buffer sz req =
        (Inl (Runtime_error ''can't set input data for non-POST/non-PUT request.''),
         req\<lparr>input_buffer := buffer, input_size := sz\<rparr>)) \<and>
   (request_method req = ''PUT'' \<or> request_method req = ''POST'' \<or> sz = 0 \<longrightarrow>
      fst (set_input_buffer buffer sz req) = Inr () \<and>
      input_buffer (snd (set_input_buffer buffer sz req)) = buffer \<and>
      input_size (snd (set_input_buffer buffer sz req)) = sz) \<and>
   (request_method req = ''PUT'' \<longrightarrow>
      curl (snd (set_input_buffer buffer sz req)) =
        (curl req)\<lparr>opt_infilesize_large := sint sz\<rparr>) \<and>
   (request_method req = ''POST'' \<longrightarrow>
      curl (snd (set_input_buffer buffer sz req)) =
        (curl req)\<lparr>opt_postfieldsize_large := sint sz\<rparr>)"
  by (simp add: set_input_buffer_def Let_def)

theorem set_input_buffer_outcome_witness:
  "request_method getter = ''GET'' \<and> request_method uploader = ''PUT'' \<and>
   set_input_buffer ''abc'' 3 getter =
     (Inl (Runtime_error ''can't set input data for non-POST/non-PUT request.''),
      getter\<lparr>input_buffer := ''abc'', input_size := 3\<rparr>) \<and>
   fst (set_input_buffer ''abc'' 3 uploader) = Inr () \<and>
   input_buffer (snd (set_input_buffer ''abc'' 3 uploader)) = ''abc'' \<and>
   input_size (snd (set_input_buffer ''abc'' 3 uploader)) = 3 \<and>
   opt_infilesize_large (curl (snd (set_input_buffer ''abc'' 3 uploader))) = 3 \<and>
   fst (set_input_buffer [] 0 getter) = Inr ()"
proof -
  have g: "request_method getter = ''GET''"
    by (simp add: getter_def fresh_def init_def set_input_buffer_def Let_def)
  have u: "request_method uploader = ''PUT''"
    by (simp add: uploader_def fresh_def init_def set_input_buffer_def Let_def)
  from set_input_buffer_outcome [of 3 getter "''abc''"] g
  have 1: "set_input_buffer ''abc'' 3 getter =
     (Inl (Runtime_error ''can't set input data for non-POST/non-PUT request.''),
      getter\<lparr>input_buffer := ''abc'', input_size := 3\<rparr>)"
    by simp
  from set_input_buffer_outcome [of 3 uploader "''abc''"] u
  have 2: "fst (set_input_buffer ''abc'' 3 uploader) = Inr ()"
    "input_buffer (snd (set_input_buffer ''abc'' 3 uploader)) = ''abc''"
    "input_size (snd (set_input_buffer ''abc'' 3 uploader)) = 3"
    "opt_infilesize_large (curl (snd (set_input_buffer ''abc'' 3 uploader))) = 3"
    by simp_all
  from set_input_buffer_outcome [of 0 getter "[]"]
  have 3: "fst (set_input_buffer [] 0 getter) = Inr ()"
    by simp
  from g u 1 2 3 show ?thesis by simp
qed

text \<open>The claim as it stands fails where it has the rejected body not installed: on
  an executor prepared for GET, whose input buffer is empty, the failing call leaves the
  three bytes and their size in the executor.\<close>

theorem set_input_buffer_counterexample:
  "input_buffer getter = [] \<and> input_size getter = 0 \<and>
   fst (set_input_buffer ''abc'' 3 getter) =
     Inl (Runtime_error ''can't set input data for non-POST/non-PUT request.'') \<and>
   input_buffer (snd (set_input_buffer ''abc'' 3 getter)) = ''abc'' \<and>
   input_size (snd (set_input_buffer ''abc'' 3 getter)) = 3"
  by (simp add: getter_def fresh_def init_def set_input_buffer_def Let_def)

subsection \<open>init\<close>

lemma init_canceled:
  "canceled req \<Longrightarrow>
     init m req = (Inl (Runtime_error ''cannot reuse a canceled request.''), req)"
  by (simp add: init_def)

text \<open>
  C6, as amended. On an executor that is not canceled, \<^verbatim>\<open>init\<close> with one of GET, HEAD,
  PUT, POST and DELETE succeeds; it clears the URL, the output buffer, the response
  headers, the response code, the last-modified time, the request headers and the input
  buffer with its size, and besides these it empties the error text, stores the name of
  the method and sets the session's transfer options that depend on the method (custom
  request, upload, no-body, post, and the body size for PUT and POST); every other
  member is unchanged, among them the hook, the cancellation flag, the deadline, the
  statistics counters and the session's URL, header list and fresh-connection option.
  With any other method \<^verbatim>\<open>init\<close> fails, and on a canceled executor it fails and changes
  nothing.
\<close>

theorem init_resets:
  "(\<not> canceled req \<and> m \<in> {HTTP_DELETE, HTTP_GET, HTTP_HEAD, HTTP_POST, HTTP_PUT} \<longrightarrow>
      init m req =
        (Inr (),
         req\<lparr>url := [], output_buffer := [], response_headers := Map.empty,
             response_code := 0, last_modified := 0, headers := [],
             input_buffer := [], input_size := 0,
             curl_error := [], request_method := method_string m,
             curl := (curl req)
               \<lparr>opt_customrequest := (if m = HTTP_DELETE then Some ''DELETE'' else None),
                opt_upload := (m = HTTP_PUT),
                opt_nobody := (m = HTTP_DELETE \<or> m = HTTP_HEAD),
                opt_post := (m = HTTP_POST),
                opt_infilesize_large :=
                  (if m = HTTP_PUT then 0 else opt_infilesize_large (curl req)),
                opt_postfieldsize_large :=
                  (if m = HTTP_POST then 0 else opt_postfieldsize_large (curl req))\<rparr>\<rparr>) \<and>
      hook (snd (init m req)) = hook req \<and>
      canceled (snd (init m req)) = canceled req \<and>
      timeout (snd (init m req)) = timeout req \<and>
      run_count (snd (init m req)) = run_count req \<and>
      total_run_time (snd (init m req)) = total_run_time req \<and>
      current_run_time (snd (init m req)) = current_run_time req \<and>
      total_bytes_transferred (snd (init m req)) = total_bytes_transferred req \<and>
      opt_url (curl (snd (init m req))) = opt_url (curl req) \<and>
      opt_httpheader (curl (snd (init m req))) = opt_httpheader (curl req) \<and>
      opt_fresh_connect (curl (snd (init m req))) = opt_fresh_connect (curl req)) \<and>
   (\<not> canceled req \<longrightarrow>
      fst (init (HTTP_OTHER n) req) = Inl (Runtime_error ''unsupported HTTP method.'')) \<and>
   (canceled req \<longrightarrow>
      init m req = (Inl (Runtime_error ''cannot reuse a canceled request.''), req))"
proof (intro conjI impI)
  assume a: "\<not> canceled req \<and> m \<in> {HTTP_DELETE, HTTP_GET, HTTP_HEAD, HTTP_POST, HTTP_PUT}"
  then consider "m = HTTP_DELETE" | "m = HTTP_GET" | "m = HTTP_HEAD" | "m = HTTP_POST"
    | "m = HTTP_PUT"
    by auto
  then show eq: "init m req =
        (Inr (),
         req\<lparr>url := [], output_buffer := [], response_headers := Map.empty,
             response_code := 0, last_modified := 0, headers := [],
             input_buffer := [], input_size := 0,
             curl_error := [], request_method := method_string m,
             curl := (curl req)
               \<lparr>opt_customrequest := (if m = HTTP_DELETE then Some ''DELETE'' else None),
                opt_upload := (m = HTTP_PUT),
                opt_nobody := (m = HTTP_DELETE \<or> m = HTTP_HEAD),
                opt_post := (m = HTTP_POST),
                opt_infilesize_large :=
                  (if m = HTTP_PUT then 0 else opt_infilesize_large (curl req)),
                opt_postfieldsize_large :=
                  (if m = HTTP_POST then 0 else opt_postfieldsize_large (curl req))\<rparr>\<rparr>)"
    using a by cases (simp_all add: init_def set_input_buffer_def Let_def)
  show "hook (snd (init m req)) = hook req"
    and "canceled (snd (init m req)) = canceled req"
    and "timeout (snd (init m req)) = timeout req"
    and "run_count (snd (init m req)) = run_count req"
    and "total_run_time (snd (init m req)) = total_run_time req"
    and "current_run_time (snd (init m req)) = current_run_time req"
    and "total_bytes_transferred (snd (init m req)) = total_bytes_transferred req"
    and "opt_url (curl (snd (init m req))) = opt_url (curl req)"
    and "opt_httpheader (curl (snd (init m req))) = opt_httpheader (curl req)"
    and "opt_fresh_connect (curl (snd (init m req))) = opt_fresh_connect (curl req)"
    by (simp_all add: eq)
next
  show "fst (init (HTTP_OTHER n) req) = Inl (Runtime_error ''unsupported HTTP method.'')"
    if "\<not> canceled req"
    using that by (simp add: init_def Let_def)
  show "init m req = (Inl (Runtime_error ''cannot reuse a canceled request.''), req)"
    if "canceled req"
    using that by (rule init_canceled)
qed

theorem init_resets_witness:
  "\<not> canceled uploader \<and> canceled (uploader\<lparr>canceled := True\<rparr>) \<and>
   HTTP_GET \<in> {HTTP_DELETE, HTTP_GET, HTTP_HEAD, HTTP_POST, HTTP_PUT} \<and>
   init HTTP_GET (uploader\<lparr>url := ''http://host/key'', output_buffer := ''old''\<rparr>) =
     (Inr (),
      fresh\<lparr>request_method := ''GET'',
            curl := (curl fresh)\<lparr>opt_infilesize_large := 4\<rparr>\<rparr>) \<and>
   fst (init (HTTP_OTHER 7) uploader) = Inl (Runtime_error ''unsupported HTTP method.'') \<and>
   init HTTP_GET (uploader\<lparr>canceled := True\<rparr>) =
     (Inl (Runtime_error ''cannot reuse a canceled request.''), uploader\<lparr>canceled := True\<rparr>)"
  using init_resets [of "uploader\<lparr>url := ''http://host/key'', output_buffer := ''old''\<rparr>"
          HTTP_GET 7]
        init_resets [of uploader HTTP_GET 7]
        init_resets [of "uploader\<lparr>canceled := True\<rparr>" HTTP_GET 7]
  by (simp add: uploader_def fresh_def init_def set_input_buffer_def Let_def)

text \<open>The claim as it stands fails where it has \<^verbatim>\<open>init\<close> clear the listed members
  only and leave the session as it is: on an executor prepared for PUT whose last
  transfer left an error text, \<^verbatim>\<open>init\<close> for GET also empties the error text, replaces
  the method and switches the session's upload option off.\<close>

theorem init_counterexample:
  "\<not> canceled (uploader\<lparr>curl_error := ''boom''\<rparr>) \<and>
   fst (init HTTP_GET (uploader\<lparr>curl_error := ''boom''\<rparr>)) = Inr () \<and>
   curl_error (snd (init HTTP_GET (uploader\<lparr>curl_error := ''boom''\<rparr>))) = [] \<and>
   request_method (uploader\<lparr>curl_error := ''boom''\<rparr>) = ''PUT'' \<and>
   request_method (snd (init HTTP_GET (uploader\<lparr>curl_error := ''boom''\<rparr>))) = ''GET'' \<and>
   opt_upload (curl (uploader\<lparr>curl_error := ''boom''\<rparr>)) \<and>
   \<not> opt_upload (curl (snd (init HTTP_GET (uploader\<lparr>curl_error := ''boom''\<rparr>))))"
  by (simp add: uploader_def fresh_def init_def set_input_buffer_def Let_def)

subsection \<open>Facts about header parsing\<close>

lemma holds_line: "holds (line @ [NUL]) (takeWhile (\<lambda>c. c \<noteq> NUL) line)"
proof -
  have "line @ [NUL] =
      takeWhile (\<lambda>c. c \<noteq> NUL) line @ dropWhile (\<lambda>c. c \<noteq> NUL) (line @ [NUL])"
    by (induction line) auto
  moreover have "\<exists>rest. dropWhile (\<lambda>c. c \<noteq> NUL) (line @ [NUL]) = NUL # rest"
    by (induction line) auto
  moreover have "NUL \<notin> set (takeWhile (\<lambda>c. c \<noteq> NUL) line)"
    by (auto dest: set_takeWhileD)
  ultimately show ?thesis unfolding holds_def by metis
qed

lemma holds_c_string: "holds data s \<Longrightarrow> c_string data = s"
  by (auto simp: holds_def c_string_def takeWhile_append2 takeWhile_tail)

lemma strchr_append:
  "c \<noteq> NUL \<Longrightarrow> NUL \<notin> set s \<Longrightarrow>
     strchr (s @ NUL # rest) c =
       (if c \<in> set s then Some (length (takeWhile (\<lambda>x. x \<noteq> c) s)) else None)"
  by (induction s) auto

lemma holds_strchr:
  "holds data s \<Longrightarrow> c \<noteq> NUL \<Longrightarrow>
     strchr data c = (if c \<in> set s then Some (length (takeWhile (\<lambda>x. x \<noteq> c) s)) else None)"
  by (auto simp: holds_def strchr_append)

lemma holds_cut:
  assumes "holds data s" and "p \<le> length s"
  shows "holds (data[p := NUL]) (take p s)"
proof -
  from assms obtain rest where d: "data = s @ NUL # rest" and n: "NUL \<notin> set s"
    by (auto simp: holds_def)
  show ?thesis
  proof (cases "p = length s")
    case True
    with d n show ?thesis by (auto simp: holds_def)
  next
    case False
    with assms have p: "p < length s" by simp
    have "data[p := NUL] = take p s @ NUL # (drop (Suc p) s @ NUL # rest)"
      using p by (simp add: d list_update_append upd_conv_take_nth_drop)
    moreover have "NUL \<notin> set (take p s)"
      using n by (auto dest: in_set_takeD)
    ultimately show ?thesis unfolding holds_def by blast
  qed
qed

lemma holds_drop:
  assumes "holds data s" and "k \<le> length s"
  shows "holds (drop k data) (drop k s)"
  using assms by (auto simp: holds_def dest: in_set_dropD)

lemma holds_nth:
  "holds data s \<Longrightarrow> k < length s \<Longrightarrow> data ! k = s ! k"
  by (auto simp: holds_def nth_append)

lemma holds_nth_end:
  "holds data s \<Longrightarrow> data ! length s = NUL"
  by (auto simp: holds_def)

lemma length_takeWhile_less:
  "c \<in> set s \<Longrightarrow> length (takeWhile (\<lambda>x. x \<noteq> c) s) < length s"
  by (induction s) auto

lemma terminate_at_holds:
  assumes "holds data s" and "c \<noteq> NUL"
  shows "holds (terminate_at c data) (takeWhile (\<lambda>x. x \<noteq> c) s)"
proof (cases "c \<in> set s")
  case True
  with assms have "strchr data c = Some (length (takeWhile (\<lambda>x. x \<noteq> c) s))"
    by (simp add: holds_strchr)
  moreover have "holds (data[length (takeWhile (\<lambda>x. x \<noteq> c) s) := NUL])
      (take (length (takeWhile (\<lambda>x. x \<noteq> c) s)) s)"
    using assms(1) by (rule holds_cut) (rule length_takeWhile_le)
  ultimately show ?thesis by (simp add: terminate_at_def takeWhile_eq_take [symmetric])
next
  case False
  with assms have sn: "strchr data c = None" by (simp add: holds_strchr)
  from False have tw: "takeWhile (\<lambda>x. x \<noteq> c) s = s"
    by (auto intro: takeWhile_eq_all_conv [THEN iffD2])
  show ?thesis unfolding terminate_at_def sn tw using assms(1) by simp
qed

lemma holds_cut_line:
  "holds (terminate_at CR (terminate_at LF (line @ [NUL]))) (cut_line line)"
proof -
  have "cut_line line =
      takeWhile (\<lambda>x. x \<noteq> CR) (takeWhile (\<lambda>x. x \<noteq> LF) (takeWhile (\<lambda>c. c \<noteq> NUL) line))"
    by (simp add: cut_line_def takeWhile_takeWhile conj_ac)
  moreover have "LF \<noteq> NUL" "CR \<noteq> NUL" by (simp_all add: LF_def CR_def NUL_def)
  ultimately show ?thesis
    by (simp add: terminate_at_holds holds_line)
qed

lemma split_header_holds:
  assumes h: "holds data s"
  shows "split_header data = parse_text s"
proof (cases "CHR '':'' \<in> set s")
  case False
  with h show ?thesis by (simp add: split_header_def parse_text_def holds_strchr NUL_def)
next
  case True
  define p where "p = length (takeWhile (\<lambda>c. c \<noteq> CHR '':'') s)"
  have p: "p < length s"
    unfolding p_def using True by (rule length_takeWhile_less)
  have st: "strchr data (CHR '':'') = Some p"
    using h True by (simp add: holds_strchr NUL_def p_def)
  have name: "c_string (data[p := NUL]) = takeWhile (\<lambda>c. c \<noteq> CHR '':'') s"
    using holds_cut [OF h, of p] p
    by (simp add: holds_c_string p_def takeWhile_eq_take [symmetric])
  have rest: "tl (dropWhile (\<lambda>c. c \<noteq> CHR '':'') s) = drop (Suc p) s"
    by (simp add: dropWhile_eq_drop p_def drop_Suc tl_drop)
  have val: "c_string (drop k (data[p := NUL])) = drop k s" if "p < k" "k \<le> length s" for k
    using that holds_drop [OF h, of k] by (simp add: holds_c_string drop_update_cancel)
  have nth: "(data[p := NUL]) ! Suc p = (if Suc p < length s then s ! Suc p else NUL)"
  proof (cases "Suc p < length s")
    case True
    then show ?thesis using holds_nth [OF h, of "Suc p"] by simp
  next
    case False
    with p have "Suc p = length s" by linarith
    with False show ?thesis using holds_nth_end [OF h] by simp
  qed
  show ?thesis
  proof (cases "Suc p < length s \<and> s ! Suc p = CHR '' ''")
    case sp: True
    then have "hd (drop (Suc p) s) = CHR '' ''" "drop (Suc p) s \<noteq> []"
      by (simp_all add: hd_drop_conv_nth)
    moreover have "tl (drop (Suc p) s) = drop (Suc (Suc p)) s"
      by (simp add: tl_drop drop_Suc)
    ultimately show ?thesis
      using True st name rest nth sp val [of "Suc (Suc p)"]
      by (simp add: split_header_def parse_text_def Let_def)
  next
    case nsp: False
    have "\<not> (drop (Suc p) s \<noteq> [] \<and> hd (drop (Suc p) s) = CHR '' '')"
      using nsp by (auto simp: hd_drop_conv_nth)
    moreover have "(data[p := NUL]) ! Suc p \<noteq> CHR '' ''"
      using nsp nth by (auto simp: NUL_def)
    ultimately show ?thesis
      using True st name rest val [of "Suc p"] p
      by (auto simp add: split_header_def parse_text_def Let_def)
  qed
qed

lemma process_header_canceled:
  "canceled req \<Longrightarrow> process_header line t req = (0, req)"
  by (simp add: process_header_def)

lemma process_header_parse:
  assumes "\<not> canceled req"
  shows "process_header line t req =
           (of_nat (length line),
            req\<lparr>response_headers := store_header line t (response_headers req)\<rparr>)"
proof (cases "t = NUL")
  case False
  with assms show ?thesis by (simp add: process_header_def store_header_def)
next
  case True
  have "split_header (terminate_at CR (terminate_at LF (line @ [NUL]))) =
      parse_header_line line"
    unfolding parse_header_line_def using holds_cut_line by (rule split_header_holds)
  with assms True show ?thesis
    by (simp add: process_header_def store_header_def Let_def split: option.split)
qed

lemma takeWhile_neq_append:
  "c \<notin> set xs \<Longrightarrow> takeWhile (\<lambda>x. x \<noteq> c) (xs @ c # ys) = xs"
  by (induction xs) auto

lemma dropWhile_neq_append:
  "c \<notin> set xs \<Longrightarrow> dropWhile (\<lambda>x. x \<noteq> c) (xs @ c # ys) = c # ys"
  by (induction xs) auto

lemma process_header_keeps_canceled:
  "canceled (snd (process_header line t req)) = canceled req"
  by (cases "canceled req") (simp_all add: process_header_canceled process_header_parse)

lemma process_headers_map:
  "\<not> canceled req \<Longrightarrow>
     response_headers (process_headers ls req) =
       response_headers req ++ map_of (rev (parsed_headers ls))"
proof (induction ls arbitrary: req)
  case Nil
  then show ?case by (simp add: process_headers_def parsed_headers_def)
next
  case (Cons a ls)
  obtain line t where a: "a = (line, t)" by (cases a)
  let ?req = "snd (process_header line t req)"
  have live: "\<not> canceled ?req"
    using Cons.prems by (simp add: process_header_keeps_canceled)
  have step: "process_headers (a # ls) req = process_headers ls ?req"
    by (simp add: process_headers_def a)
  have one: "response_headers ?req = store_header line t (response_headers req)"
    using Cons.prems by (simp add: process_header_parse)
  have "store_header line t (response_headers req) ++ map_of (rev (parsed_headers ls)) =
      response_headers req ++ map_of (rev (parsed_headers (a # ls)))"
    by (simp add: store_header_def parsed_headers_def a map_add_upd_left
        split: option.split)
  with Cons.IH [OF live] step one show ?case by simp
qed

subsection \<open>The header callback\<close>

text \<open>
  C4, as amended. A header line delivered to the header callback of a canceled executor
  is not parsed: the callback returns zero and the mapping is unchanged. A line that is
  not followed by a NUL byte is not parsed either: the callback returns the line's size
  and the mapping is unchanged. Every other line is cut at its first NUL, LF or CR,
  which for a line that has none of them before its closing CR LF strips just these;
  the first colon is located; if there is one, the text before it is the name and the
  text after it, less one leading space, is the value, and the pair is stored in the
  response-header mapping, where names are compared without regard to case; a line
  without a colon leaves the mapping unchanged.
\<close>

theorem process_header_parses:
  "(canceled req \<longrightarrow> process_header line t req = (0, req)) \<and>
   (\<not> canceled req \<and> t \<noteq> NUL \<longrightarrow> process_header line t req = (of_nat (length line), req)) \<and>
   (\<not> canceled req \<and> t = NUL \<longrightarrow>
      process_header line t req =
        (of_nat (length line),
         case parse_header_line line of
           None \<Rightarrow> req
         | Some (name, v) \<Rightarrow>
             req\<lparr>response_headers := (response_headers req)(header_key name \<mapsto> v)\<rparr>)) \<and>
   (\<not> canceled req \<and> parse_header_line line = Some (name, v) \<and>
    map to_lower name' = map to_lower name \<longrightarrow>
      get_response_header (snd (process_header line NUL req)) name' = Some v) \<and>
   ((\<forall>c \<in> set body. c \<noteq> NUL \<and> c \<noteq> LF \<and> c \<noteq> CR) \<longrightarrow>
      cut_line (body @ [CR, LF]) = body \<and> cut_line body = body) \<and>
   (CHR '':'' \<notin> set (cut_line line) \<longrightarrow> parse_header_line line = None) \<and>
   (cut_line line = name @ CHR '':'' # CHR '' '' # v \<and> CHR '':'' \<notin> set name \<longrightarrow>
      parse_header_line line = Some (name, v)) \<and>
   (cut_line line = name @ CHR '':'' # v \<and> CHR '':'' \<notin> set name \<and>
    (v = [] \<or> hd v \<noteq> CHR '' '') \<longrightarrow>
      parse_header_line line = Some (name, v))"
proof (intro conjI impI)
  show "process_header line t req = (0, req)" if "canceled req"
    using that by (rule process_header_canceled)
  show "process_header line t req = (of_nat (length line), req)"
    if "\<not> canceled req \<and> t \<noteq> NUL"
    using that by (simp add: process_header_parse store_header_def)
  show "process_header line t req =
        (of_nat (length line),
         case parse_header_line line of
           None \<Rightarrow> req
         | Some (name, v) \<Rightarrow>
             req\<lparr>response_headers := (response_headers req)(header_key name \<mapsto> v)\<rparr>)"
    if "\<not> canceled req \<and> t = NUL"
    using that by (simp add: process_header_parse store_header_def split: option.split)
  show "get_response_header (snd (process_header line NUL req)) name' = Some v"
    if "\<not> canceled req \<and> parse_header_line line = Some (name, v) \<and>
        map to_lower name' = map to_lower name"
    using that
    by (simp add: process_header_parse store_header_def get_response_header_def
        header_key_def)
  show "cut_line (body @ [CR, LF]) = body" and "cut_line body = body"
    if "\<forall>c \<in> set body. c \<noteq> NUL \<and> c \<noteq> LF \<and> c \<noteq> CR"
    using that by (simp_all add: cut_line_def)
  show "parse_header_line line = None" if "CHR '':'' \<notin> set (cut_line line)"
    using that by (simp add: parse_header_line_def parse_text_def)
  show "parse_header_line line = Some (name, v)"
    if "cut_line line = name @ CHR '':'' # CHR '' '' # v \<and> CHR '':'' \<notin> set name"
    using that
    by (simp add: parse_header_line_def parse_text_def Let_def takeWhile_neq_append
        dropWhile_neq_append)
  show "parse_header_line line = Some (name, v)"
    if "cut_line line = name @ CHR '':'' # v \<and> CHR '':'' \<notin> set name \<and>
        (v = [] \<or> hd v \<noteq> CHR '' '')"
    using that
    by (auto simp add: parse_header_line_def parse_text_def Let_def takeWhile_neq_append
        dropWhile_neq_append)
qed

theorem process_header_parses_witness:
  "\<not> canceled getter \<and>
   parse_header_line etag_line = Some (''ETag'', ''abc'') \<and>
   map to_lower ''ETAG'' = map to_lower ''ETag'' \<and>
   process_header etag_line NUL getter =
     (11, getter\<lparr>response_headers := [''etag'' \<mapsto> ''abc'']\<rparr>) \<and>
   get_response_header (snd (process_header etag_line NUL getter)) ''ETAG'' = Some ''abc'' \<and>
   process_header status_line NUL getter = (17, getter) \<and>
   process_header etag_line (CHR ''H'') getter = (11, getter) \<and>
   process_header etag_line NUL (getter\<lparr>canceled := True\<rparr>) =
     (0, getter\<lparr>canceled := True\<rparr>)"
proof -
  have live: "\<not> canceled getter" and empty: "response_headers getter = Map.empty"
    by (simp_all add: getter_def fresh_def init_def set_input_buffer_def Let_def)
  have p1: "parse_header_line etag_line = Some (''ETag'', ''abc'')"
    by (simp add: etag_line_def parse_header_line_def parse_text_def cut_line_def
        NUL_def LF_def CR_def Let_def)
  have p2: "parse_header_line status_line = None"
    by (simp add: status_line_def parse_header_line_def parse_text_def cut_line_def
        NUL_def LF_def CR_def Let_def)
  have k1: "header_key ''ETag'' = ''etag''" by code_simp
  have k2: "map to_lower ''ETAG'' = map to_lower ''ETag''" by code_simp
  have h: "CHR ''H'' \<noteq> NUL" by (simp add: NUL_def)
  have l1: "length etag_line = 11" and l2: "length status_line = 17"
    by (simp_all add: etag_line_def status_line_def)
  note t = process_header_parses [of _ _ _ "''ETag''" "''abc''" "''ETAG''" "''ETag''"]
  from t [of getter etag_line NUL] live
  have "process_header etag_line NUL getter =
        (of_nat (length etag_line),
         case parse_header_line etag_line of
           None \<Rightarrow> getter
         | Some (name, v) \<Rightarrow>
             getter\<lparr>response_headers := (response_headers getter)(header_key name \<mapsto> v)\<rparr>)"
    by blast
  then have 1: "process_header etag_line NUL getter =
      (11, getter\<lparr>response_headers := [''etag'' \<mapsto> ''abc'']\<rparr>)"
    by (simp add: p1 k1 l1 empty)
  from t [of getter etag_line NUL] live p1 k2
  have 2: "get_response_header (snd (process_header etag_line NUL getter)) ''ETAG'' =
      Some ''abc''"
    by blast
  from t [of getter status_line NUL] live
  have "process_header status_line NUL getter =
        (of_nat (length status_line),
         case parse_header_line status_line of
           None \<Rightarrow> getter
         | Some (name, v) \<Rightarrow>
             getter\<lparr>response_headers := (response_headers getter)(header_key name \<mapsto> v)\<rparr>)"
    by blast
  then have 3: "process_header status_line NUL getter = (17, getter)"
    by (simp add: p2 l2)
  from t [of getter etag_line "CHR ''H''"] live h
  have "process_header etag_line (CHR ''H'') getter = (of_nat (length etag_line), getter)"
    by blast
  then have 4: "process_header etag_line (CHR ''H'') getter = (11, getter)"
    by (simp add: l1)
  from t [of "getter\<lparr>canceled := True\<rparr>" etag_line NUL]
  have 5: "process_header etag_line NUL (getter\<lparr>canceled := True\<rparr>) =
     (0, getter\<lparr>canceled := True\<rparr>)"
    by simp
  from live p1 k2 1 2 3 4 5 show ?thesis by blast
qed

text \<open>The claim as it stands fails on three inputs. A header line with a colon that is
  not followed by a NUL byte is ignored; on a canceled executor the line is ignored and
  the callback returns zero; and a value with a bare CR in it is stored up to that CR,
  not up to the closing CR LF.\<close>

theorem process_header_counterexample:
  "\<not> canceled getter \<and>
   CHR '':'' \<in> set etag_line \<and>
   process_header etag_line (CHR ''H'') getter = (11, getter) \<and>
   process_header etag_line NUL (getter\<lparr>canceled := True\<rparr>) =
     (0, getter\<lparr>canceled := True\<rparr>) \<and>
   response_headers (snd (process_header broken_line NUL getter)) (header_key ''X'') =
     Some ''a''"
proof -
  have live: "\<not> canceled getter"
    by (simp add: getter_def fresh_def init_def set_input_buffer_def Let_def)
  have "process_header etag_line (CHR ''H'') getter = (11, getter)"
    using live by (simp add: etag_line_def process_header_def NUL_def)
  moreover have "process_header etag_line NUL (getter\<lparr>canceled := True\<rparr>) =
     (0, getter\<lparr>canceled := True\<rparr>)"
    by (simp add: process_header_def)
  moreover have "response_headers (snd (process_header broken_line NUL getter))
      (header_key ''X'') = Some ''a''"
    using live
    by (simp add: broken_line_def process_header_def terminate_at_def split_header_def
        c_string_def NUL_def LF_def CR_def Let_def)
  moreover have "CHR '':'' \<in> set etag_line"
    by (simp add: etag_line_def)
  ultimately show ?thesis using live by simp
qed

subsection \<open>Repeated header names\<close>

lemma parsed_last:
  assumes "parsed_headers ls = ps @ (k, v) # qs" and "k \<notin> fst ` set qs"
  shows "(m ++ map_of (rev (parsed_headers ls))) k = Some v"
proof -
  from assms(2) have "map_of (rev qs) k = None"
    by (simp add: map_of_eq_None_iff)
  with assms(1) show ?thesis by (simp add: map_add_def)
qed

text \<open>
  C9. On an executor that is not canceled, every header line that parses to a name and a
  value is stored by assignment under the name's key, whatever was stored there before.
  After the header lines of a response, the mapping is the one before them overridden by
  the parsed entries, a later entry overriding an earlier one: a name that occurs in
  several lines has the value of its last occurrence.
\<close>

theorem response_headers_keep_last:
  "(\<not> canceled req \<and> parse_header_line line = Some (name, v) \<longrightarrow>
      response_headers (snd (process_header line NUL req)) =
        (response_headers req)(header_key name \<mapsto> v)) \<and>
   (\<not> canceled req \<longrightarrow>
      response_headers (process_headers ls req) =
        response_headers req ++ map_of (rev (parsed_headers ls))) \<and>
   (\<not> canceled req \<and> parsed_headers ls = ps @ (k, w) # qs \<and> k \<notin> fst ` set qs \<longrightarrow>
      response_headers (process_headers ls req) k = Some w)"
proof (intro conjI impI)
  show "response_headers (snd (process_header line NUL req)) =
        (response_headers req)(header_key name \<mapsto> v)"
    if "\<not> canceled req \<and> parse_header_line line = Some (name, v)"
    using that by (simp add: process_header_parse store_header_def)
  show "response_headers (process_headers ls req) =
        response_headers req ++ map_of (rev (parsed_headers ls))"
    if "\<not> canceled req"
    using that by (rule process_headers_map)
  show "response_headers (process_headers ls req) k = Some w"
    if "\<not> canceled req \<and> parsed_headers ls = ps @ (k, w) # qs \<and> k \<notin> fst ` set qs"
  proof -
    from that have "response_headers (process_headers ls req) =
        response_headers req ++ map_of (rev (parsed_headers ls))"
      by (simp add: process_headers_map)
    moreover from that
    have "(response_headers req ++ map_of (rev (parsed_headers ls))) k = Some w"
      by (intro parsed_last [of ls ps k w qs]) simp_all
    ultimately show ?thesis by simp
  qed
qed

theorem response_headers_keep_last_witness:
  "\<not> canceled getter \<and>
   parse_header_line etag_again = Some (''etag'', ''xyz'') \<and>
   parsed_headers [(etag_line, NUL), (status_line, NUL), (etag_again, NUL)] =
     [(''etag'', ''abc'')] @ (''etag'', ''xyz'') # [] \<and>
   ''etag'' \<notin> fst ` set ([] :: (string \<times> string) list) \<and>
   response_headers
     (process_headers [(etag_line, NUL), (status_line, NUL), (etag_again, NUL)] getter)
     ''etag'' = Some ''xyz'' \<and>
   response_headers (snd (process_header etag_again NUL getter)) =
     (response_headers getter)(header_key ''etag'' \<mapsto> ''xyz'')"
proof -
  have live: "\<not> canceled getter"
    by (simp add: getter_def fresh_def init_def set_input_buffer_def Let_def)
  have p1: "parse_header_line etag_line = Some (''ETag'', ''abc'')"
    by (simp add: etag_line_def parse_header_line_def parse_text_def cut_line_def
        NUL_def LF_def CR_def Let_def)
  have p2: "parse_header_line status_line = None"
    by (simp add: status_line_def parse_header_line_def parse_text_def cut_line_def
        NUL_def LF_def CR_def Let_def)
  have p3: "parse_header_line etag_again = Some (''etag'', ''xyz'')"
    by (simp add: etag_again_def parse_header_line_def parse_text_def cut_line_def
        NUL_def LF_def CR_def Let_def)
  have k1: "header_key ''ETag'' = ''etag''" and k3: "header_key ''etag'' = ''etag''"
    by code_simp+
  have ps: "parsed_headers [(etag_line, NUL), (status_line, NUL), (etag_again, NUL)] =
     [(''etag'', ''abc'')] @ (''etag'', ''xyz'') # []"
    by (simp add: parsed_headers_def p1 p2 p3 k1 k3)
  have e: "''etag'' \<notin> fst ` set ([] :: (string \<times> string) list)"
    by simp
  note t = response_headers_keep_last
    [of getter etag_again "''etag''" "''xyz''"
      "[(etag_line, NUL), (status_line, NUL), (etag_again, NUL)]"
      "[(''etag'', ''abc'')]" "''etag''" "''xyz''" "[]"]
  from t live ps e
  have 1: "response_headers
     (process_headers [(etag_line, NUL), (status_line, NUL), (etag_again, NUL)] getter)
     ''etag'' = Some ''xyz''"
    by blast
  from t live p3
  have 2: "response_headers (snd (process_header etag_again NUL getter)) =
     (response_headers getter)(header_key ''etag'' \<mapsto> ''xyz'')"
    by blast
  from live p3 ps e 1 2 show ?thesis by blast
qed

subsection \<open>Facts about a transfer\<close>

lemma deliver_keeps:
  "hook (fst (deliver c s)) = hook (fst s) \<and>
   request_method (fst (deliver c s)) = request_method (fst s) \<and>
   url (fst (deliver c s)) = url (fst s) \<and>
   headers (fst (deliver c s)) = headers (fst s) \<and>
   curl (fst (deliver c s)) = curl (fst s) \<and>
   curl_error (fst (deliver c s)) = curl_error (fst s) \<and>
   response_code (fst (deliver c s)) = response_code (fst s) \<and>
   last_modified (fst (deliver c s)) = last_modified (fst s) \<and>
   run_count (fst (deliver c s)) = run_count (fst s) \<and>
   total_run_time (fst (deliver c s)) = total_run_time (fst s) \<and>
   current_run_time (fst (deliver c s)) = current_run_time (fst s) \<and>
   total_bytes_transferred (fst (deliver c s)) = total_bytes_transferred (fst s) \<and>
   timeout (fst (deliver c s)) = timeout (fst s) \<and>
   (canceled (fst s) \<longrightarrow> canceled (fst (deliver c s)))"
  by (cases c; cases s)
    (simp_all add: process_header_def process_output_def process_input_def
      check_timeout_def Let_def split: option.split prod.split)

lemma deliver_world:
  "s_run_count (snd (deliver c s)) = s_run_count (snd s) \<and>
   s_total_bytes (snd (deliver c s)) = s_total_bytes (snd s) \<and>
   s_run_time (snd (deliver c s)) = s_run_time (snd s) \<and>
   s_curl_failures (snd (deliver c s)) = s_curl_failures (snd s) \<and>
   s_request_failures (snd (deliver c s)) = s_request_failures (snd s) \<and>
   s_timeouts (snd (deliver c s)) = s_timeouts (snd s) \<and>
   s_aborts (snd (deliver c s)) = s_aborts (snd s) \<and>
   s_hook_retries (snd (deliver c s)) = s_hook_retries (snd s) \<and>
   sync (snd (deliver c s)) = sync (snd s) \<and>
   calls (snd (deliver c s)) = calls (snd s)"
  by (cases c; cases s) (simp_all add: check_timeout_def)

lemma fold_deliver_keeps:
  "hook (fst (fold deliver cbs s)) = hook (fst s) \<and>
   request_method (fst (fold deliver cbs s)) = request_method (fst s) \<and>
   url (fst (fold deliver cbs s)) = url (fst s) \<and>
   headers (fst (fold deliver cbs s)) = headers (fst s) \<and>
   curl (fst (fold deliver cbs s)) = curl (fst s) \<and>
   curl_error (fst (fold deliver cbs s)) = curl_error (fst s) \<and>
   response_code (fst (fold deliver cbs s)) = response_code (fst s) \<and>
   last_modified (fst (fold deliver cbs s)) = last_modified (fst s) \<and>
   run_count (fst (fold deliver cbs s)) = run_count (fst s) \<and>
   total_run_time (fst (fold deliver cbs s)) = total_run_time (fst s) \<and>
   current_run_time (fst (fold deliver cbs s)) = current_run_time (fst s) \<and>
   total_bytes_transferred (fst (fold deliver cbs s)) = total_bytes_transferred (fst s) \<and>
   timeout (fst (fold deliver cbs s)) = timeout (fst s) \<and>
   (canceled (fst s) \<longrightarrow> canceled (fst (fold deliver cbs s)))"
proof (induction cbs arbitrary: s)
  case Nil
  then show ?case by simp
next
  case (Cons c cbs)
  from Cons [of "deliver c s"] deliver_keeps [of c s] show ?case
    by (simp del: deliver.simps)
qed

lemma fold_deliver_world:
  "s_run_count (snd (fold deliver cbs s)) = s_run_count (snd s) \<and>
   s_total_bytes (snd (fold deliver cbs s)) = s_total_bytes (snd s) \<and>
   s_run_time (snd (fold deliver cbs s)) = s_run_time (snd s) \<and>
   s_curl_failures (snd (fold deliver cbs s)) = s_curl_failures (snd s) \<and>
   s_request_failures (snd (fold deliver cbs s)) = s_request_failures (snd s) \<and>
   s_timeouts (snd (fold deliver cbs s)) = s_timeouts (snd s) \<and>
   s_aborts (snd (fold deliver cbs s)) = s_aborts (snd s) \<and>
   s_hook_retries (snd (fold deliver cbs s)) = s_hook_retries (snd s) \<and>
   sync (snd (fold deliver cbs s)) = sync (snd s) \<and>
   calls (snd (fold deliver cbs s)) = calls (snd s)"
proof (induction cbs arbitrary: s)
  case Nil
  then show ?case by simp
next
  case (Cons c cbs)
  from Cons [of "deliver c s"] deliver_world [of c s] show ?case
    by (simp del: deliver.simps)
qed


lemma deliver_live:
  assumes "\<not> canceled (fst (deliver c (req, w)))"
  shows "\<not> canceled req \<and>
     output_buffer (fst (deliver c (req, w))) = output_buffer req @ body_of [c] \<and>
     response_headers (fst (deliver c (req, w))) =
       response_headers req ++ map_of (rev (parsed_headers (header_lines [c])))"
proof -
  from assms deliver_keeps [of c "(req, w)"] have live: "\<not> canceled req" by auto
  then show ?thesis
    by (cases c)
      (auto simp add: body_of_def header_lines_def parsed_headers_def process_header_parse
        store_header_def process_output_def process_input_def check_timeout_def Let_def
        split: option.split if_splits)
qed

lemma fold_deliver_live:
  "\<not> canceled (fst (fold deliver cbs (req, w))) \<Longrightarrow>
     \<not> canceled req \<and>
     output_buffer (fst (fold deliver cbs (req, w))) = output_buffer req @ body_of cbs \<and>
     response_headers (fst (fold deliver cbs (req, w))) =
       response_headers req ++ map_of (rev (parsed_headers (header_lines cbs)))"
proof (induction cbs arbitrary: req w)
  case Nil
  then show ?case by (simp add: body_of_def header_lines_def parsed_headers_def)
next
  case (Cons c cbs)
  obtain req1 w1 where d: "deliver c (req, w) = (req1, w1)" by (cases "deliver c (req, w)")
  from Cons.prems have "\<not> canceled (fst (fold deliver cbs (req1, w1)))"
    by (simp add: d)
  from Cons.IH [OF this] have live1: "\<not> canceled req1"
    and o: "output_buffer (fst (fold deliver cbs (req1, w1))) =
        output_buffer req1 @ body_of cbs"
    and h: "response_headers (fst (fold deliver cbs (req1, w1))) =
        response_headers req1 ++ map_of (rev (parsed_headers (header_lines cbs)))"
    by simp_all
  from live1 d deliver_live [of c req w] have live: "\<not> canceled req"
    and o1: "output_buffer req1 = output_buffer req @ body_of [c]"
    and h1: "response_headers req1 =
        response_headers req ++ map_of (rev (parsed_headers (header_lines [c])))"
    by simp_all
  have b: "body_of (c # cbs) = body_of [c] @ body_of cbs"
    by (simp add: body_of_def)
  have p: "parsed_headers (header_lines (c # cbs)) =
      parsed_headers (header_lines [c]) @ parsed_headers (header_lines cbs)"
    by (simp add: header_lines_def parsed_headers_def)
  from live o h o1 h1 show ?case
    by (simp add: d b p)
qed

lemma watchdog_cancels:
  "Watchdog now \<in> set cbs \<Longrightarrow> timeout req \<noteq> 0 \<Longrightarrow> timeout req < now \<Longrightarrow>
     canceled (fst (fold deliver cbs (req, w)))"
proof (induction cbs arbitrary: req w)
  case Nil
  then show ?case by simp
next
  case (Cons c cbs)
  obtain req1 w1 where d: "deliver c (req, w) = (req1, w1)" by (cases "deliver c (req, w)")
  show ?case
  proof (cases "c = Watchdog now")
    case True
    with Cons.prems d have "canceled req1" by (auto simp: check_timeout_def)
    with fold_deliver_keeps [of cbs "(req1, w1)"] show ?thesis by (simp add: d)
  next
    case False
    with Cons.prems have "Watchdog now \<in> set cbs" by simp
    moreover from deliver_keeps [of c "(req, w)"] d have "timeout req1 = timeout req" by simp
    ultimately show ?thesis using Cons.IH [of req1 w1] Cons.prems by (simp add: d)
  qed
qed

subsection \<open>Facts about one attempt\<close>

lemma prepare_world:
  "snd (snd (attempt_prepare hooks i req w)) =
     w\<lparr>calls := calls w @ pre_calls (hook req \<noteq> None) i\<rparr>"
  by (simp add: attempt_prepare_def pre_calls_def Let_def split: option.split)

lemma prepare_keeps:
  assumes "hook_keeps f hooks" and "\<And>r x. f (r\<lparr>curl := x\<rparr>) = f r"
  shows "f (fst (snd (attempt_prepare hooks i req w))) =
     f (req\<lparr>output_buffer := [], response_headers := Map.empty\<rparr>)"
  using assms by (simp add: attempt_prepare_def hook_keeps_def Let_def split: option.split)

lemma perform_result:
  "fst (attempt_perform cfg tr t i req w) = result tr"
  by (simp add: attempt_perform_def curl_easy_perform_def Let_def split_beta)

lemma perform_world:
  "s_run_count (snd (snd (attempt_perform cfg tr t i req w))) = s_run_count w \<and>
   s_total_bytes (snd (snd (attempt_perform cfg tr t i req w))) = s_total_bytes w \<and>
   s_run_time (snd (snd (attempt_perform cfg tr t i req w))) = s_run_time w \<and>
   s_curl_failures (snd (snd (attempt_perform cfg tr t i req w))) = s_curl_failures w \<and>
   s_request_failures (snd (snd (attempt_perform cfg tr t i req w))) = s_request_failures w \<and>
   s_timeouts (snd (snd (attempt_perform cfg tr t i req w))) = s_timeouts w \<and>
   s_aborts (snd (snd (attempt_perform cfg tr t i req w))) = s_aborts w \<and>
   s_hook_retries (snd (snd (attempt_perform cfg tr t i req w))) = s_hook_retries w \<and>
   sync (snd (snd (attempt_perform cfg tr t i req w))) = sync w \<and>
   calls (snd (snd (attempt_perform cfg tr t i req w))) = calls w @ [Perform i (result tr)]"
  using fold_deliver_world [of "callbacks tr" "(req\<lparr>timeout := start_time tr +
       (if t = DEFAULT_REQUEST_TIMEOUT cfg then request_timeout_in_s cfg else t)\<rparr>, w)"]
  by (simp add: attempt_perform_def curl_easy_perform_def Let_def split_beta)

lemma perform_keeps:
  "hook (fst (snd (attempt_perform cfg tr t i req w))) = hook req \<and>
   request_method (fst (snd (attempt_perform cfg tr t i req w))) = request_method req \<and>
   url (fst (snd (attempt_perform cfg tr t i req w))) = url req \<and>
   headers (fst (snd (attempt_perform cfg tr t i req w))) = headers req \<and>
   curl (fst (snd (attempt_perform cfg tr t i req w))) = curl req \<and>
   response_code (fst (snd (attempt_perform cfg tr t i req w))) = response_code req \<and>
   last_modified (fst (snd (attempt_perform cfg tr t i req w))) = last_modified req \<and>
   run_count (fst (snd (attempt_perform cfg tr t i req w))) = run_count req \<and>
   total_run_time (fst (snd (attempt_perform cfg tr t i req w))) = total_run_time req \<and>
   current_run_time (fst (snd (attempt_perform cfg tr t i req w))) = current_run_time req \<and>
   total_bytes_transferred (fst (snd (attempt_perform cfg tr t i req w))) =
     total_bytes_transferred req \<and>
   curl_error (fst (snd (attempt_perform cfg tr t i req w))) = error_text tr \<and>
   timeout (fst (snd (attempt_perform cfg tr t i req w))) = 0 \<and>
   (canceled req \<longrightarrow> canceled (fst (snd (attempt_perform cfg tr t i req w))))"
  using fold_deliver_keeps [of "callbacks tr" "(req\<lparr>timeout := start_time tr +
       (if t = DEFAULT_REQUEST_TIMEOUT cfg then request_timeout_in_s cfg else t)\<rparr>, w)"]
  by (simp add: attempt_perform_def curl_easy_perform_def Let_def split_beta)

lemma perform_live:
  assumes "\<not> canceled (fst (snd (attempt_perform cfg tr t i req w)))"
  shows "\<not> canceled req \<and>
     output_buffer (fst (snd (attempt_perform cfg tr t i req w))) =
       output_buffer req @ body_of (callbacks tr) \<and>
     response_headers (fst (snd (attempt_perform cfg tr t i req w))) =
       response_headers req ++ map_of (rev (parsed_headers (header_lines (callbacks tr))))"
  using assms fold_deliver_live [of "callbacks tr" "req\<lparr>timeout := start_time tr +
       (if t = DEFAULT_REQUEST_TIMEOUT cfg then request_timeout_in_s cfg else t)\<rparr>" w]
  by (simp add: attempt_perform_def curl_easy_perform_def Let_def split_beta)

lemma perform_watchdog:
  assumes "Watchdog now \<in> set (callbacks tr)"
    and "start_time tr + (if t = DEFAULT_REQUEST_TIMEOUT cfg then request_timeout_in_s cfg else t) \<noteq> 0"
    and "start_time tr + (if t = DEFAULT_REQUEST_TIMEOUT cfg then request_timeout_in_s cfg else t) < now"
  shows "canceled (fst (snd (attempt_perform cfg tr t i req w)))"
  using assms watchdog_cancels [of now "callbacks tr" "req\<lparr>timeout := start_time tr +
       (if t = DEFAULT_REQUEST_TIMEOUT cfg then request_timeout_in_s cfg else t)\<rparr>" w]
  by (simp add: attempt_perform_def curl_easy_perform_def Let_def split_beta)

lemma conclude_frame:
  "r_code (frame_of (attempt_conclude hooks tr i n r req w fr)) = r \<and>
   this (frame_of (attempt_conclude hooks tr i n r req w fr)) =
     (if \<not> canceled req \<and> r = CURLE_OK
      then req\<lparr>response_code := info_response_code tr, last_modified := info_filetime tr\<rparr>
      else req) \<and>
   elapsed_time (frame_of (attempt_conclude hooks tr i n r req w fr)) =
     (if \<not> canceled req \<and> r = CURLE_OK then elapsed_time fr + info_total_time tr
      else elapsed_time fr) \<and>
   bytes_transferred (frame_of (attempt_conclude hooks tr i n r req w fr)) =
     (if \<not> canceled req \<and> r = CURLE_OK
      then bytes_transferred fr + (n + of_nat (length (output_buffer req)))
      else bytes_transferred fr)"
  by (simp add: attempt_conclude_def retryable_def Let_def split: option.split)

lemma conclude_world:
  "s_run_count (globals (frame_of (attempt_conclude hooks tr i n r req w fr))) = s_run_count w \<and>
   s_total_bytes (globals (frame_of (attempt_conclude hooks tr i n r req w fr))) = s_total_bytes w \<and>
   s_run_time (globals (frame_of (attempt_conclude hooks tr i n r req w fr))) = s_run_time w \<and>
   s_request_failures (globals (frame_of (attempt_conclude hooks tr i n r req w fr))) =
     s_request_failures w \<and>
   s_aborts (globals (frame_of (attempt_conclude hooks tr i n r req w fr))) = s_aborts w \<and>
   sync (globals (frame_of (attempt_conclude hooks tr i n r req w fr))) = sync w"
  by (simp add: attempt_conclude_def Let_def split: option.split)

lemma conclude_throw:
  "attempt_conclude hooks tr i n r req w fr = Throw e fr' \<longleftrightarrow>
     canceled req \<and> e = Runtime_error ''request timed out.'' \<and>
     fr' = fr\<lparr>r_code := r, this := req, globals := w\<lparr>s_timeouts := s_timeouts w + 1\<rparr>\<rparr>"
  by (auto simp add: attempt_conclude_def Let_def split: option.split)

lemma conclude_continue:
  "attempt_conclude hooks tr i n r req w fr = Continue fr' \<Longrightarrow>
     \<not> canceled req \<and>
     (retryable r \<and> calls (globals fr') = calls w \<or>
      r = CURLE_OK \<and> hook req \<noteq> None \<and> calls (globals fr') = calls w @ [Should_retry i True])"
  by (auto simp add: attempt_conclude_def Let_def split: option.splits if_splits)

lemma conclude_break:
  "attempt_conclude hooks tr i n r req w fr = Break fr' \<Longrightarrow>
     \<not> canceled req \<and> \<not> retryable r \<and>
     (calls (globals fr') = calls w \<and> \<not> (r = CURLE_OK \<and> hook req \<noteq> None) \<or>
      r = CURLE_OK \<and> hook req \<noteq> None \<and> calls (globals fr') = calls w @ [Should_retry i False])"
  by (auto simp add: attempt_conclude_def Let_def split: option.splits if_splits)

lemma run_attempt_eq:
  "run_attempt cfg hooks env t i fr =
     attempt_conclude hooks (env i) i
       (fst (attempt_prepare hooks i (this fr) (globals fr)))
       (result (env i))
       (fst (snd (attempt_perform cfg (env i) t i
          (fst (snd (attempt_prepare hooks i (this fr) (globals fr))))
          (snd (snd (attempt_prepare hooks i (this fr) (globals fr)))))))
       (snd (snd (attempt_perform cfg (env i) t i
          (fst (snd (attempt_prepare hooks i (this fr) (globals fr))))
          (snd (snd (attempt_prepare hooks i (this fr) (globals fr)))))))
       fr"
  by (simp add: run_attempt_def split_beta perform_result)

lemma run_attempt_calls:
  assumes "hook_keeps hook hooks"
  shows "\<exists>tl. calls (globals (frame_of (run_attempt cfg hooks env t i fr))) =
           calls (globals fr) @ pre_calls (hook (this fr) \<noteq> None) i @
             Perform i (result (env i)) # tl \<and>
         (case run_attempt cfg hooks env t i fr of
            Throw e fr' \<Rightarrow> tl = [] \<and> e = Runtime_error ''request timed out.'' \<and>
              canceled (this fr')
          | Continue fr' \<Rightarrow> \<not> canceled (this fr') \<and>
              (retryable (result (env i)) \<and> tl = [] \<or>
               result (env i) = CURLE_OK \<and> hook (this fr) \<noteq> None \<and>
                 tl = [Should_retry i True])
          | Break fr' \<Rightarrow> \<not> canceled (this fr') \<and> \<not> retryable (result (env i)) \<and>
              (tl = [] \<or>
               result (env i) = CURLE_OK \<and> hook (this fr) \<noteq> None \<and>
                 tl = [Should_retry i False])) \<and>
         hook (this (frame_of (run_attempt cfg hooks env t i fr))) = hook (this fr)"
proof -
  let ?p = "attempt_prepare hooks i (this fr) (globals fr)"
  let ?q = "attempt_perform cfg (env i) t i (fst (snd ?p)) (snd (snd ?p))"
  have hp: "hook (fst (snd ?p)) = hook (this fr)"
    using prepare_keeps [OF assms, of i "this fr" "globals fr"] by simp
  have hq: "hook (fst (snd ?q)) = hook (this fr)"
    using perform_keeps [of cfg "env i" t i "fst (snd ?p)" "snd (snd ?p)"] hp by simp
  have cq: "calls (snd (snd ?q)) =
      calls (globals fr) @ pre_calls (hook (this fr) \<noteq> None) i @ [Perform i (result (env i))]"
    using perform_world [of cfg "env i" t i "fst (snd ?p)" "snd (snd ?p)"]
    by (simp add: prepare_world)
  show ?thesis
  proof (cases "run_attempt cfg hooks env t i fr")
    case (Throw e fr')
    then have "attempt_conclude hooks (env i) i (fst ?p) (result (env i)) (fst (snd ?q))
        (snd (snd ?q)) fr = Throw e fr'"
      by (simp add: run_attempt_eq)
    then show ?thesis using Throw hq cq by (simp add: conclude_throw)
  next
    case (Continue fr')
    then have c: "attempt_conclude hooks (env i) i (fst ?p) (result (env i)) (fst (snd ?q))
        (snd (snd ?q)) fr = Continue fr'"
      by (simp add: run_attempt_eq)
    from conclude_continue [OF c] conclude_frame [of hooks "env i" i "fst ?p" "result (env i)"
        "fst (snd ?q)" "snd (snd ?q)" fr]
    show ?thesis using Continue hq cq c by (auto split: if_splits)
  next
    case (Break fr')
    then have c: "attempt_conclude hooks (env i) i (fst ?p) (result (env i)) (fst (snd ?q))
        (snd (snd ?q)) fr = Break fr'"
      by (simp add: run_attempt_eq)
    from conclude_break [OF c] conclude_frame [of hooks "env i" i "fst ?p" "result (env i)"
        "fst (snd ?q)" "snd (snd ?q)" fr]
    show ?thesis using Break hq cq c by (auto split: if_splits)
  qed
qed

subsection \<open>Facts about the loop\<close>

lemma attempts_pre: "attempts_made (pre_calls hk i @ cs) = attempts_made cs"
  by (simp add: attempts_made_def pre_calls_def)

lemma retry_protocol_bound:
  "retry_protocol hk mx res i cs \<Longrightarrow> int (attempts_made cs) \<le> max 0 (mx - i)"
  by (induction rule: retry_protocol.induct) (auto simp: attempts_made_def pre_calls_def)

declare run_loop.simps [simp del]

lemma run_loop_protocol:
  "hook_keeps hook hooks \<Longrightarrow> hk = (hook (this fr) \<noteq> None) \<Longrightarrow>
     \<exists>cs. calls (globals (end_frame (run_loop cfg hooks env t i fr))) = calls (globals fr) @ cs \<and>
       retry_protocol hk (max_transfer_retries cfg) (\<lambda>j. result (env j)) i cs"
proof (induction cfg hooks env t i fr rule: run_loop.induct)
  case (1 cfg hooks env t i fr)
  let ?mx = "max_transfer_retries cfg"
  let ?P = "retry_protocol hk ?mx (\<lambda>j. result (env j))"
  show ?case
  proof (cases "i < ?mx")
    case False
    then have "run_loop cfg hooks env t i fr = Loop_exit i fr"
      by (simp add: run_loop.simps)
    then show ?thesis by (simp add: retry_protocol.finished)
  next
    case True
    from run_attempt_calls [OF "1.prems"(1), of cfg env t i fr]
    obtain tl where
      c: "calls (globals (frame_of (run_attempt cfg hooks env t i fr))) =
           calls (globals fr) @ pre_calls hk i @ Perform i (result (env i)) # tl"
      and k: "case run_attempt cfg hooks env t i fr of
            Throw e fr' \<Rightarrow> tl = [] \<and> e = Runtime_error ''request timed out.'' \<and>
              canceled (this fr')
          | Continue fr' \<Rightarrow> \<not> canceled (this fr') \<and>
              (retryable (result (env i)) \<and> tl = [] \<or>
               result (env i) = CURLE_OK \<and> hk \<and> tl = [Should_retry i True])
          | Break fr' \<Rightarrow> \<not> canceled (this fr') \<and> \<not> retryable (result (env i)) \<and>
              (tl = [] \<or>
               result (env i) = CURLE_OK \<and> hk \<and> tl = [Should_retry i False])"
      and h: "hook (this (frame_of (run_attempt cfg hooks env t i fr))) = hook (this fr)"
      unfolding "1.prems"(2) by blast
    show ?thesis
    proof (cases "run_attempt cfg hooks env t i fr")
      case (Throw e fr')
      with True have "run_loop cfg hooks env t i fr = Loop_threw e fr'"
        by (simp add: run_loop.simps)
      moreover from k Throw have "tl = []" by simp
      moreover have "?P i (pre_calls hk i @ [Perform i (result (env i))])"
        using True by (rule retry_protocol.stopped)
      ultimately show ?thesis using c Throw by simp
    next
      case (Break fr')
      with True have e: "run_loop cfg hooks env t i fr = Loop_exit i fr'"
        by (simp add: run_loop.simps)
      from k Break consider "tl = []"
        | "result (env i) = CURLE_OK" "hk" "tl = [Should_retry i False]"
        by auto
      then have "?P i (pre_calls hk i @ Perform i (result (env i)) # tl)"
      proof cases
        case 1
        then show ?thesis using retry_protocol.stopped [OF True, of hk] by simp
      next
        case 2
        then show ?thesis
          using retry_protocol.declined [OF True, of hk "\<lambda>j. result (env j)"] by simp
      qed
      then show ?thesis using c Break e by simp
    next
      case (Continue fr')
      with True have e: "run_loop cfg hooks env t i fr = run_loop cfg hooks env t (i + 1) fr'"
        by (simp add: run_loop.simps)
      from h Continue "1.prems"(2) have "hk = (hook (this fr') \<noteq> None)" by simp
      from "1.IH" [OF True Continue "1.prems"(1) this]
      obtain cs where cs: "calls (globals (end_frame (run_loop cfg hooks env t (i + 1) fr'))) =
          calls (globals fr') @ cs" and p: "?P (i + 1) cs"
        by auto
      from k Continue consider "retryable (result (env i))" "tl = []"
        | "result (env i) = CURLE_OK" "hk" "tl = [Should_retry i True]"
        by auto
      then have "?P i (pre_calls hk i @ Perform i (result (env i)) # tl @ cs)"
      proof cases
        case 1
        then show ?thesis
          using retry_protocol.transport_retry [OF True _ p] by simp
      next
        case 2
        then show ?thesis
          using retry_protocol.hook_retry [OF True _ _ p] by simp
      qed
      then show ?thesis using c Continue e cs by simp
    qed
  qed
qed

lemma run_finish_calls:
  "calls (snd (snd (run_finish iter fr))) = calls (globals fr)"
  by (simp add: run_finish_def Let_def)

lemma run_calls:
  "calls (snd (snd (run cfg hooks env t req w))) = calls w \<or>
   calls (snd (snd (run cfg hooks env t req w))) =
     calls (globals (end_frame (run_loop cfg hooks env t 0
       \<lparr>r_code = CURLE_OK, elapsed_time = 0, bytes_transferred = 0,
        this = req, globals = w\<rparr>)))"
  by (simp add: run_def run_finish_calls split: loop_end.split)

lemma last_attempt_append:
  "last_attempt (xs @ ys) =
     (case last_attempt ys of Some j \<Rightarrow> Some j | None \<Rightarrow> last_attempt xs)"
  by (induction xs) (auto split: option.split)

lemma conclude_calls:
  "\<exists>tl. calls (globals (frame_of (attempt_conclude hooks tr i n r req w fr))) = calls w @ tl \<and>
     (tl = [] \<or> (\<exists>b. tl = [Should_retry i b]))"
  by (auto simp add: attempt_conclude_def Let_def split: option.split)

lemma run_attempt_last:
  "\<exists>cs. calls (globals (frame_of (run_attempt cfg hooks env t i fr))) =
          calls (globals fr) @ cs \<and> last_attempt cs = Some i"
proof -
  let ?p = "attempt_prepare hooks i (this fr) (globals fr)"
  let ?q = "attempt_perform cfg (env i) t i (fst (snd ?p)) (snd (snd ?p))"
  have cq: "calls (snd (snd ?q)) =
      calls (globals fr) @ pre_calls (hook (this fr) \<noteq> None) i @ [Perform i (result (env i))]"
    using perform_world [of cfg "env i" t i "fst (snd ?p)" "snd (snd ?p)"]
    by (simp add: prepare_world)
  have "\<exists>tl. calls (globals (frame_of (run_attempt cfg hooks env t i fr))) =
      calls (snd (snd ?q)) @ tl \<and> (tl = [] \<or> (\<exists>b. tl = [Should_retry i b]))"
    unfolding run_attempt_eq by (rule conclude_calls)
  then obtain tl where "calls (globals (frame_of (run_attempt cfg hooks env t i fr))) =
      calls (globals fr) @ (pre_calls (hook (this fr) \<noteq> None) i @
        Perform i (result (env i)) # tl)"
    and "tl = [] \<or> (\<exists>b. tl = [Should_retry i b])"
    using cq by auto
  moreover from this(2)
  have "last_attempt (pre_calls (hook (this fr) \<noteq> None) i @
        Perform i (result (env i)) # tl) = Some i"
    by (auto simp: last_attempt_append)
  ultimately show ?thesis by blast
qed

lemma run_loop_invariant:
  assumes "I fr" and "\<And>i fr. I fr \<Longrightarrow> I (frame_of (run_attempt cfg hooks env t i fr))"
  shows "I (end_frame (run_loop cfg hooks env t i fr))"
  using assms
proof (induction cfg hooks env t i fr rule: run_loop.induct)
  case (1 cfg hooks env t i fr)
  show ?case
  proof (cases "i < max_transfer_retries cfg")
    case False
    with "1.prems"(1) show ?thesis by (simp add: run_loop.simps)
  next
    case True
    have a: "I (frame_of (run_attempt cfg hooks env t i fr))"
      using "1.prems" by blast
    show ?thesis
    proof (cases "run_attempt cfg hooks env t i fr")
      case (Throw e fr')
      with True a show ?thesis by (simp add: run_loop.simps)
    next
      case (Break fr')
      with True a show ?thesis by (simp add: run_loop.simps)
    next
      case (Continue fr')
      with a have "I fr'" by simp
      from "1.IH" [OF True Continue this "1.prems"(2)] True Continue
      show ?thesis by (simp add: run_loop.simps)
    qed
  qed
qed

lemma run_loop_final:
  "(\<not> i < max_transfer_retries cfg \<and> run_loop cfg hooks env t i fr = Loop_exit i fr) \<or>
   (\<exists>j fr0 cs. i \<le> j \<and> j < max_transfer_retries cfg \<and>
      run_loop cfg hooks env t i fr = loop_end_of j (run_attempt cfg hooks env t j fr0) \<and>
      (\<forall>fr'. run_attempt cfg hooks env t j fr0 = Continue fr' \<longrightarrow>
         j + 1 = max_transfer_retries cfg) \<and>
      calls (globals (end_frame (run_loop cfg hooks env t i fr))) = calls (globals fr) @ cs \<and>
      last_attempt cs = Some j)"
proof (induction cfg hooks env t i fr rule: run_loop.induct)
  case (1 cfg hooks env t i fr)
  let ?mx = "max_transfer_retries cfg"
  show ?case
  proof (cases "i < ?mx")
    case False
    then show ?thesis by (simp add: run_loop.simps)
  next
    case True
    from run_attempt_last [of cfg hooks env t i fr]
    obtain cs where cs: "calls (globals (frame_of (run_attempt cfg hooks env t i fr))) =
          calls (globals fr) @ cs" and la: "last_attempt cs = Some i"
      by blast
    have here: ?thesis
      if "run_loop cfg hooks env t i fr = loop_end_of i (run_attempt cfg hooks env t i fr)"
        and "\<forall>fr'. run_attempt cfg hooks env t i fr = Continue fr' \<longrightarrow> i + 1 = ?mx"
    proof -
      have "end_frame (loop_end_of i (run_attempt cfg hooks env t i fr)) =
          frame_of (run_attempt cfg hooks env t i fr)"
        by (cases "run_attempt cfg hooks env t i fr") simp_all
      with that cs la True show ?thesis
        by (intro disjI2 exI [of _ i] exI [of _ fr] exI [of _ cs]) simp
    qed
    show ?thesis
    proof (cases "run_attempt cfg hooks env t i fr")
      case (Throw e fr')
      with True show ?thesis by (intro here) (simp_all add: run_loop.simps)
    next
      case (Break fr')
      with True show ?thesis by (intro here) (simp_all add: run_loop.simps)
    next
      case (Continue fr')
      with True have e: "run_loop cfg hooks env t i fr = run_loop cfg hooks env t (i + 1) fr'"
        by (simp add: run_loop.simps)
      from "1.IH" [OF True Continue]
      consider "\<not> i + 1 < ?mx" "run_loop cfg hooks env t (i + 1) fr' = Loop_exit (i + 1) fr'"
        | j fr0 ds where "i + 1 \<le> j" "j < ?mx"
          "run_loop cfg hooks env t (i + 1) fr' =
             loop_end_of j (run_attempt cfg hooks env t j fr0)"
          "\<forall>fr'. run_attempt cfg hooks env t j fr0 = Continue fr' \<longrightarrow> j + 1 = ?mx"
          "calls (globals (end_frame (run_loop cfg hooks env t (i + 1) fr'))) =
             calls (globals fr') @ ds"
          "last_attempt ds = Some j"
        by blast
      then show ?thesis
      proof cases
        case 1
        with True have "i + 1 = ?mx" by simp
        with 1 Continue e show ?thesis by (intro here) simp_all
      next
        case 2
        from cs Continue have "calls (globals fr') = calls (globals fr) @ cs" by simp
        with 2 have "calls (globals (end_frame (run_loop cfg hooks env t i fr))) =
            calls (globals fr) @ (cs @ ds)" and "last_attempt (cs @ ds) = Some j"
          by (simp_all add: e last_attempt_append)
        with 2 e show ?thesis
          by (intro disjI2 exI [of _ j] exI [of _ fr0] exI [of _ "cs @ ds"]) simp
      qed
    qed
  qed
qed

lemma run_attempt_this:
  "this (frame_of (run_attempt cfg hooks env t i fr)) =
     (let req = fst (snd (attempt_perform cfg (env i) t i
          (fst (snd (attempt_prepare hooks i (this fr) (globals fr))))
          (snd (snd (attempt_prepare hooks i (this fr) (globals fr))))))
      in if \<not> canceled req \<and> result (env i) = CURLE_OK
         then req\<lparr>response_code := info_response_code (env i),
                  last_modified := info_filetime (env i)\<rparr>
         else req)"
  unfolding run_attempt_eq Let_def using conclude_frame by blast

lemma run_attempt_facts:
  "r_code (frame_of (run_attempt cfg hooks env t i fr)) = result (env i) \<and>
   curl_error (this (frame_of (run_attempt cfg hooks env t i fr))) = error_text (env i) \<and>
   timeout (this (frame_of (run_attempt cfg hooks env t i fr))) = 0 \<and>
   (\<not> canceled (this (frame_of (run_attempt cfg hooks env t i fr))) \<and>
    result (env i) = CURLE_OK \<longrightarrow>
      response_code (this (frame_of (run_attempt cfg hooks env t i fr))) =
        info_response_code (env i) \<and>
      last_modified (this (frame_of (run_attempt cfg hooks env t i fr))) =
        info_filetime (env i))"
proof -
  let ?p = "attempt_prepare hooks i (this fr) (globals fr)"
  note k = perform_keeps [of cfg "env i" t i "fst (snd ?p)" "snd (snd ?p)"]
  have "r_code (frame_of (run_attempt cfg hooks env t i fr)) = result (env i)"
    unfolding run_attempt_eq using conclude_frame by blast
  then show ?thesis using k by (simp add: run_attempt_this Let_def)
qed

lemma run_attempt_response:
  assumes "hook_keeps output_buffer hooks" and "hook_keeps response_headers hooks"
    and "\<not> canceled (this (frame_of (run_attempt cfg hooks env t i fr)))"
  shows "output_buffer (this (frame_of (run_attempt cfg hooks env t i fr))) =
           body_of (callbacks (env i)) \<and>
         response_headers (this (frame_of (run_attempt cfg hooks env t i fr))) =
           map_of (rev (parsed_headers (header_lines (callbacks (env i)))))"
proof -
  let ?p = "attempt_prepare hooks i (this fr) (globals fr)"
  let ?q = "attempt_perform cfg (env i) t i (fst (snd ?p)) (snd (snd ?p))"
  have o: "output_buffer (fst (snd ?p)) = []"
    using prepare_keeps [OF assms(1), of i "this fr" "globals fr"] by simp
  have h: "response_headers (fst (snd ?p)) = Map.empty"
    using prepare_keeps [OF assms(2), of i "this fr" "globals fr"] by simp
  from assms(3) have live: "\<not> canceled (fst (snd ?q))"
    by (simp add: run_attempt_this Let_def split: if_splits)
  from perform_live [OF live] o h show ?thesis
    by (simp add: run_attempt_this Let_def)
qed

lemma run_attempt_flow:
  "(case run_attempt cfg hooks env t i fr of
      Throw e fr' \<Rightarrow> e = timed_out \<and> canceled (this fr')
    | Continue fr' \<Rightarrow> \<not> canceled (this fr')
    | Break fr' \<Rightarrow> \<not> canceled (this fr'))"
proof (cases "run_attempt cfg hooks env t i fr")
  case (Throw e fr')
  from Throw [unfolded run_attempt_eq conclude_throw] Throw
  show ?thesis by (simp add: timed_out_def)
next
  case (Continue fr')
  from Continue [unfolded run_attempt_eq, THEN conclude_continue]
    run_attempt_this [of cfg hooks env t i fr] Continue
  show ?thesis by (auto simp: Let_def)
next
  case (Break fr')
  from Break [unfolded run_attempt_eq, THEN conclude_break]
    run_attempt_this [of cfg hooks env t i fr] Break
  show ?thesis by (auto simp: Let_def)
qed


lemma run_attempt_world:
  "s_run_count (globals (frame_of (run_attempt cfg hooks env t i fr))) =
     s_run_count (globals fr) \<and>
   s_total_bytes (globals (frame_of (run_attempt cfg hooks env t i fr))) =
     s_total_bytes (globals fr) \<and>
   s_run_time (globals (frame_of (run_attempt cfg hooks env t i fr))) =
     s_run_time (globals fr) \<and>
   s_request_failures (globals (frame_of (run_attempt cfg hooks env t i fr))) =
     s_request_failures (globals fr) \<and>
   s_aborts (globals (frame_of (run_attempt cfg hooks env t i fr))) = s_aborts (globals fr) \<and>
   sync (globals (frame_of (run_attempt cfg hooks env t i fr))) = sync (globals fr)"
proof -
  let ?p = "attempt_prepare hooks i (this fr) (globals fr)"
  let ?q = "attempt_perform cfg (env i) t i (fst (snd ?p)) (snd (snd ?p))"
  from conclude_world [of hooks "env i" i "fst ?p" "result (env i)" "fst (snd ?q)"
      "snd (snd ?q)" fr]
    perform_world [of cfg "env i" t i "fst (snd ?p)" "snd (snd ?p)"]
  show ?thesis
    unfolding run_attempt_eq by (simp add: prepare_world)
qed

lemma run_unfold:
  "run cfg hooks env t req w =
     (if url req = [] \<or> request_method req = [] \<or> canceled req then
        (Inl (Runtime_error
           (if url req = [] then ''call set_url() first!''
            else if request_method req = [] then ''call set_method() first!''
            else ''cannot reuse a canceled request.'')), req, w)
      else
        case run_loop cfg hooks env t 0 (start req w) of
          Loop_threw e fr \<Rightarrow> (Inl e, this fr, globals fr)
        | Loop_exit iter fr \<Rightarrow> run_finish iter fr)"
  by (simp add: run_def start_def)

lemma run_loop_world:
  "s_run_count (globals (end_frame (run_loop cfg hooks env t i fr))) = s_run_count (globals fr) \<and>
   s_total_bytes (globals (end_frame (run_loop cfg hooks env t i fr))) =
     s_total_bytes (globals fr) \<and>
   s_run_time (globals (end_frame (run_loop cfg hooks env t i fr))) = s_run_time (globals fr) \<and>
   s_request_failures (globals (end_frame (run_loop cfg hooks env t i fr))) =
     s_request_failures (globals fr) \<and>
   s_aborts (globals (end_frame (run_loop cfg hooks env t i fr))) = s_aborts (globals fr) \<and>
   sync (globals (end_frame (run_loop cfg hooks env t i fr))) = sync (globals fr)"
  by (rule run_loop_invariant [where I = "\<lambda>f.
      s_run_count (globals f) = s_run_count (globals fr) \<and>
      s_total_bytes (globals f) = s_total_bytes (globals fr) \<and>
      s_run_time (globals f) = s_run_time (globals fr) \<and>
      s_request_failures (globals f) = s_request_failures (globals fr) \<and>
      s_aborts (globals f) = s_aborts (globals fr) \<and>
      sync (globals f) = sync (globals fr)"])
    (simp_all add: run_attempt_world)


lemma new_calls_append: "calls w' = calls w @ cs \<Longrightarrow> new_calls w w' = cs"
  by (simp add: new_calls_def)

lemma new_calls_same: "calls w' = calls w \<Longrightarrow> new_calls w w' = []"
  by (simp add: new_calls_def)

lemma run_summary:
  "(new_calls w (snd (snd (run cfg hooks env t req w))) = [] \<and>
    ((\<exists>e. run cfg hooks env t req w = (Inl e, req, w)) \<or>
     run cfg hooks env t req w = run_finish 0 (start req w))) \<or>
   (\<exists>j f. 0 \<le> j \<and> j < max_transfer_retries cfg \<and>
      f = end_frame (run_loop cfg hooks env t 0 (start req w)) \<and>
      last_attempt (new_calls w (globals f)) = Some j \<and>
      r_code f = result (env j) \<and> curl_error (this f) = error_text (env j) \<and>
      (\<not> canceled (this f) \<and> result (env j) = CURLE_OK \<longrightarrow>
         response_code (this f) = info_response_code (env j) \<and>
         last_modified (this f) = info_filetime (env j)) \<and>
      (hook_keeps output_buffer hooks \<and> hook_keeps response_headers hooks \<and>
       \<not> canceled (this f) \<longrightarrow>
         output_buffer (this f) = body_of (callbacks (env j)) \<and>
         response_headers (this f) =
           map_of (rev (parsed_headers (header_lines (callbacks (env j)))))) \<and>
      (canceled (this f) \<and> run cfg hooks env t req w = (Inl timed_out, this f, globals f) \<or>
       \<not> canceled (this f) \<and> (\<exists>it. run cfg hooks env t req w = run_finish it f)))"
proof (cases "url req = [] \<or> request_method req = [] \<or> canceled req")
  case True
  then have "\<exists>e. run cfg hooks env t req w = (Inl e, req, w)"
    by (simp add: run_unfold)
  then show ?thesis by (auto simp: new_calls_same)
next
  case sane: False
  let ?mx = "max_transfer_retries cfg"
  let ?end = "run_loop cfg hooks env t 0 (start req w)"
  from run_loop_final [of 0 cfg hooks env t "start req w"]
  consider "\<not> 0 < ?mx" "?end = Loop_exit 0 (start req w)"
    | j fr0 cs where "0 \<le> j" "j < ?mx"
      "?end = loop_end_of j (run_attempt cfg hooks env t j fr0)"
      "calls (globals (end_frame ?end)) = calls (globals (start req w)) @ cs"
      "last_attempt cs = Some j"
    by blast
  then show ?thesis
  proof cases
    case 1
    with sane have "run cfg hooks env t req w = run_finish 0 (start req w)"
      by (simp add: run_unfold)
    moreover have "calls (snd (snd (run_finish 0 (start req w)))) = calls w"
      by (simp add: run_finish_calls start_def)
    ultimately show ?thesis by (simp add: new_calls_same)
  next
    case 2
    let ?out = "run_attempt cfg hooks env t j fr0"
    let ?f = "frame_of ?out"
    have f: "end_frame ?end = ?f"
      using 2(3) by (cases ?out) simp_all
    have g: "globals (start req w) = w"
      by (simp add: start_def)
    from 2(4) have "calls (globals ?f) = calls w @ cs"
      unfolding f g .
    with 2(5) have la: "last_attempt (new_calls w (globals ?f)) = Some j"
      by (simp add: new_calls_append)
    have r: "canceled (this ?f) \<and> run cfg hooks env t req w = (Inl timed_out, this ?f, globals ?f) \<or>
       \<not> canceled (this ?f) \<and> (\<exists>it. run cfg hooks env t req w = run_finish it ?f)"
      using run_attempt_flow [of cfg hooks env t j fr0] 2(3) sane
      by (cases ?out) (auto simp: run_unfold)
    from run_attempt_facts [of cfg hooks env t j fr0]
      run_attempt_response [of hooks cfg env t j fr0] 2(1,2) f la r
    show ?thesis
      by (intro disjI2 exI [of _ j] exI [of _ ?f]) (simp only: f, blast)
  qed
qed

subsection \<open>Facts about the iterations\<close>

declare iterations.simps [simp del]

lemma prepare_object:
  "fst (snd (attempt_prepare hooks i req w)) =
     (let q0 = req\<lparr>output_buffer := [], response_headers := Map.empty\<rparr>;
          q = (case hook req of Some h \<Rightarrow> pre_run (hooks h) q0 i | None \<Rightarrow> q0)
      in q\<lparr>curl := (curl q)\<lparr>opt_httpheader :=
                                map (\<lambda>(k, v). k @ '': '' @ v) (headers q)\<rparr>\<rparr>)"
  by (simp add: attempt_prepare_def Let_def split: option.split)

lemma perform_object:
  "fst (snd (attempt_perform cfg tr t i req w)) =
     (fst (snd (curl_easy_perform tr (req\<lparr>timeout := deadline cfg t tr\<rparr>) w)))\<lparr>timeout := 0\<rparr>"
  by (simp add: attempt_perform_def curl_easy_perform_def deadline_def Let_def split_beta)

lemma retryable_ok: "\<not> retryable CURLE_OK"
  by (simp add: retryable_def)

lemma conclude_asks:
  "(let fr' = frame_of (attempt_conclude hooks tr i n r req w fr);
        ask = (case hook (this fr') of
                 Some h' \<Rightarrow> should_retry (hooks h') (this fr') i | None \<Rightarrow> False)
    in calls (globals fr') =
         calls w @
           (if \<not> canceled (this fr') \<and> r = CURLE_OK \<and> hook (this fr') \<noteq> None
            then [Should_retry i ask] else []) \<and>
       attempt_conclude hooks tr i n r req w fr =
         (if canceled (this fr') then Throw timed_out fr'
          else if retryable r \<or> r = CURLE_OK \<and> ask then Continue fr' else Break fr'))"
proof (cases "canceled req")
  case True
  then show ?thesis
    by (simp add: attempt_conclude_def Let_def timed_out_def)
next
  case live: False
  show ?thesis
  proof (cases "retryable r")
    case True
    with live retryable_ok have "r \<noteq> CURLE_OK" by auto
    with live True show ?thesis
      by (simp add: attempt_conclude_def Let_def)
  next
    case nr: False
    show ?thesis
    proof (cases "r = CURLE_OK")
      case False
      with live nr show ?thesis
        by (simp add: attempt_conclude_def Let_def)
    next
      case True
      show ?thesis
      proof (cases "hook req")
        case None
        with live nr True show ?thesis
          by (simp add: attempt_conclude_def Let_def)
      next
        case (Some h)
        with live nr True show ?thesis
          by (simp add: attempt_conclude_def Let_def)
      qed
    qed
  qed
qed

lemma run_attempt_invokes:
  "(let q0 = (this fr)\<lparr>output_buffer := [], response_headers := Map.empty\<rparr>;
        q = (case hook (this fr) of Some h \<Rightarrow> pre_run (hooks h) q0 i | None \<Rightarrow> q0);
        p = fst (snd (curl_easy_perform (env i)
              (q\<lparr>curl := (curl q)\<lparr>opt_httpheader :=
                                     map (\<lambda>(k, v). k @ '': '' @ v) (headers q)\<rparr>,
                 timeout := deadline cfg t (env i)\<rparr>)
              ((globals fr)\<lparr>calls := calls (globals fr) @
                                pre_calls (hook (this fr) \<noteq> None) i\<rparr>)));
        fr' = frame_of (run_attempt cfg hooks env t i fr);
        ask = (case hook (this fr') of
                 Some h' \<Rightarrow> should_retry (hooks h') (this fr') i | None \<Rightarrow> False)
    in this fr' =
         (if \<not> canceled p \<and> result (env i) = CURLE_OK
          then p\<lparr>timeout := 0, response_code := info_response_code (env i),
                 last_modified := info_filetime (env i)\<rparr>
          else p\<lparr>timeout := 0\<rparr>) \<and>
       attempt_calls cfg hooks env t (i, fr) =
         pre_calls (hook (this fr) \<noteq> None) i @ Perform i (result (env i)) #
           (if \<not> canceled (this fr') \<and> result (env i) = CURLE_OK \<and> hook (this fr') \<noteq> None
            then [Should_retry i ask] else []) \<and>
       run_attempt cfg hooks env t i fr =
         (if canceled (this fr') then Throw timed_out fr'
          else if retryable (result (env i)) \<or> result (env i) = CURLE_OK \<and> ask
          then Continue fr' else Break fr'))"
proof -
  let ?P = "attempt_prepare hooks i (this fr) (globals fr)"
  let ?Q = "attempt_perform cfg (env i) t i (fst (snd ?P)) (snd (snd ?P))"
  let ?q0 = "(this fr)\<lparr>output_buffer := [], response_headers := Map.empty\<rparr>"
  let ?q = "case hook (this fr) of Some h \<Rightarrow> pre_run (hooks h) ?q0 i | None \<Rightarrow> ?q0"
  let ?p = "fst (snd (curl_easy_perform (env i)
              (?q\<lparr>curl := (curl ?q)\<lparr>opt_httpheader :=
                                     map (\<lambda>(k, v). k @ '': '' @ v) (headers ?q)\<rparr>,
                 timeout := deadline cfg t (env i)\<rparr>)
              ((globals fr)\<lparr>calls := calls (globals fr) @
                                pre_calls (hook (this fr) \<noteq> None) i\<rparr>)))"
  let ?fr' = "frame_of (run_attempt cfg hooks env t i fr)"
  let ?ask = "case hook (this ?fr') of
                 Some h' \<Rightarrow> should_retry (hooks h') (this ?fr') i | None \<Rightarrow> False"
  have q: "fst (snd ?Q) = ?p\<lparr>timeout := 0\<rparr>"
    by (simp add: perform_object prepare_object prepare_world Let_def)
  have a: "this ?fr' =
         (if \<not> canceled ?p \<and> result (env i) = CURLE_OK
          then ?p\<lparr>timeout := 0, response_code := info_response_code (env i),
                 last_modified := info_filetime (env i)\<rparr>
          else ?p\<lparr>timeout := 0\<rparr>)"
    unfolding run_attempt_this Let_def q by simp
  have cq: "calls (snd (snd ?Q)) =
      calls (globals fr) @ pre_calls (hook (this fr) \<noteq> None) i @ [Perform i (result (env i))]"
    using perform_world [of cfg "env i" t i "fst (snd ?P)" "snd (snd ?P)"]
    by (simp add: prepare_world)
  note c = conclude_asks [of hooks "env i" i "fst ?P" "result (env i)" "fst (snd ?Q)"
      "snd (snd ?Q)" fr, unfolded Let_def, folded run_attempt_eq]
  from c cq have b: "attempt_calls cfg hooks env t (i, fr) =
         pre_calls (hook (this fr) \<noteq> None) i @ Perform i (result (env i)) #
           (if \<not> canceled (this ?fr') \<and> result (env i) = CURLE_OK \<and> hook (this ?fr') \<noteq> None
            then [Should_retry i ?ask] else [])"
    by (simp add: new_calls_def attempt_calls_def)
  from c have d: "run_attempt cfg hooks env t i fr =
         (if canceled (this ?fr') then Throw timed_out ?fr'
          else if retryable (result (env i)) \<or> result (env i) = CURLE_OK \<and> ?ask
          then Continue ?fr' else Break ?fr')"
    by blast
  from a b d show ?thesis
    unfolding Let_def by blast
qed

lemma run_attempt_grows:
  "calls (globals (frame_of (run_attempt cfg hooks env t i fr))) =
     calls (globals fr) @ attempt_calls cfg hooks env t (i, fr)"
proof -
  from run_attempt_last [of cfg hooks env t i fr]
  obtain cs where "calls (globals (frame_of (run_attempt cfg hooks env t i fr))) =
      calls (globals fr) @ cs"
    by blast
  then show ?thesis by (simp add: attempt_calls_def new_calls_def)
qed

lemma run_loop_iterations:
  "calls (globals (end_frame (run_loop cfg hooks env t i fr))) =
     calls (globals fr) @
       concat (map (attempt_calls cfg hooks env t) (iterations cfg hooks env t i fr)) \<and>
   map fst (iterations cfg hooks env t i fr) =
     map (\<lambda>k. i + int k) [0 ..< length (iterations cfg hooks env t i fr)] \<and>
   int (length (iterations cfg hooks env t i fr)) \<le> max 0 (max_transfer_retries cfg - i)"
proof (induction cfg hooks env t i fr rule: run_loop.induct)
  case (1 cfg hooks env t i fr)
  show ?case
  proof (cases "i < max_transfer_retries cfg")
    case False
    then show ?thesis by (simp add: run_loop.simps iterations.simps)
  next
    case True
    note g = run_attempt_grows [of cfg hooks env t i fr]
    show ?thesis
    proof (cases "run_attempt cfg hooks env t i fr")
      case (Throw e fr')
      with True g show ?thesis by (simp add: run_loop.simps iterations.simps)
    next
      case (Break fr')
      with True g show ?thesis by (simp add: run_loop.simps iterations.simps)
    next
      case (Continue fr')
      let ?its = "iterations cfg hooks env t (i + 1) fr'"
      from True Continue have e: "run_loop cfg hooks env t i fr = run_loop cfg hooks env t (i + 1) fr'"
        and it: "iterations cfg hooks env t i fr = (i, fr) # ?its"
        by (simp_all add: run_loop.simps iterations.simps)
      from "1.IH" [OF True Continue]
      have c: "calls (globals (end_frame (run_loop cfg hooks env t (i + 1) fr'))) =
          calls (globals fr') @ concat (map (attempt_calls cfg hooks env t) ?its)"
        and m: "map fst ?its = map (\<lambda>k. i + 1 + int k) [0 ..< length ?its]"
        and l: "int (length ?its) \<le> max 0 (max_transfer_retries cfg - (i + 1))"
        by simp_all
      from g Continue have "calls (globals fr') =
          calls (globals fr) @ attempt_calls cfg hooks env t (i, fr)"
        by simp
      with c have 1: "calls (globals (end_frame (run_loop cfg hooks env t i fr))) =
          calls (globals fr) @
            concat (map (attempt_calls cfg hooks env t) (iterations cfg hooks env t i fr))"
        by (simp add: e it)
      have "map (\<lambda>k. i + int k) [0 ..< Suc (length ?its)] =
          i # map (\<lambda>k. i + 1 + int k) [0 ..< length ?its]"
        by (simp add: map_upt_Suc del: upt_Suc)
      with m have 2: "map fst (iterations cfg hooks env t i fr) =
          map (\<lambda>k. i + int k) [0 ..< length (iterations cfg hooks env t i fr)]"
        by (simp add: it del: upt_Suc)
      from l True have 3: "int (length (iterations cfg hooks env t i fr)) \<le>
          max 0 (max_transfer_retries cfg - i)"
        by (simp add: it)
      from 1 2 3 show ?thesis by blast
    qed
  qed
qed

lemma run_iterations:
  assumes "url req \<noteq> [] \<and> request_method req \<noteq> [] \<and> \<not> canceled req"
  shows "new_calls w (snd (snd (run cfg hooks env t req w))) =
     concat (map (attempt_calls cfg hooks env t) (iterations cfg hooks env t 0 (start req w)))"
proof -
  let ?E = "run_loop cfg hooks env t 0 (start req w)"
  from assms have "calls (snd (snd (run cfg hooks env t req w))) = calls (globals (end_frame ?E))"
    by (cases ?E) (simp_all add: run_unfold run_finish_calls)
  with run_loop_iterations [of cfg hooks env t 0 "start req w"]
  show ?thesis by (simp add: new_calls_def start_def)
qed

subsection \<open>The retry policy\<close>

text \<open>
  C1. The calls a \<^verbatim>\<open>run\<close> adds to those made before follow the retry policy from
  attempt 0 on: no attempt is made beyond \<^verbatim>\<open>max_transfer_retries\<close>; each attempt
  starts with \<^verbatim>\<open>pre_run\<close> and the attempt's index when a hook is installed, then comes
  the transfer; and a further attempt is made only after a transfer that failed with one
  of the eleven transport-class codes, or after a completed transfer for which
  \<^verbatim>\<open>should_retry\<close> answered true. So the number of transfers is at most
  \<^verbatim>\<open>max_transfer_retries\<close>. For this the hook is taken not to install or remove a
  hook.

  What the calls stand for is said of every iteration of the loop, whatever the hook
  does. In iteration \<open>i\<close>, started from the frame \<open>fr\<close>, the object the transfer runs on
  is the one \<^verbatim>\<open>pre_run\<close> returns when applied to the object with its two buffers cleared
  and to the index \<open>i\<close> (the object itself without a hook), with the header list taken
  from the headers \<^verbatim>\<open>pre_run\<close> left and the deadline set; the object the iteration
  leaves is what the transfer made of it, with the deadline reset and, after a completed
  transfer, the response code and the file time. The calls of the iteration are
  \<^verbatim>\<open>pre_run\<close> with \<open>i\<close> when a hook is installed, the transfer, and after a completed
  transfer with a hook the answer of \<^verbatim>\<open>should_retry\<close> applied to the object as left and
  to \<open>i\<close>. The iteration throws when the object is canceled, continues after a
  transport-class code or when that answer is true, and leaves the loop otherwise.

  The calls of a \<^verbatim>\<open>run\<close> that passes its checks are those of the iterations of its
  loop, one after the other; the iterations have the indices 0, 1, 2 and so on, and
  there are at most \<^verbatim>\<open>max_transfer_retries\<close> of them.
\<close>

theorem run_retry_policy:
  "(hook_keeps hook hooks \<longrightarrow>
     (\<exists>cs. calls (snd (snd (run cfg hooks env t req w))) = calls w @ cs \<and>
        retry_protocol (hook req \<noteq> None) (max_transfer_retries cfg)
          (\<lambda>j. result (env j)) 0 cs \<and>
        int (attempts_made cs) \<le> max 0 (max_transfer_retries cfg))) \<and>
   (retryable r \<longleftrightarrow>
      r \<in> {CURLE_COULDNT_RESOLVE_PROXY, CURLE_COULDNT_RESOLVE_HOST, CURLE_COULDNT_CONNECT,
           CURLE_PARTIAL_FILE, CURLE_UPLOAD_FAILED, CURLE_OPERATION_TIMEDOUT,
           CURLE_SSL_CONNECT_ERROR, CURLE_GOT_NOTHING, CURLE_SEND_ERROR, CURLE_RECV_ERROR,
           CURLE_BAD_CONTENT_ENCODING}) \<and>
   (let q0 = (this fr)\<lparr>output_buffer := [], response_headers := Map.empty\<rparr>;
        q = (case hook (this fr) of Some h \<Rightarrow> pre_run (hooks h) q0 i | None \<Rightarrow> q0);
        p = fst (snd (curl_easy_perform (env i)
              (q\<lparr>curl := (curl q)\<lparr>opt_httpheader :=
                                     map (\<lambda>(k, v). k @ '': '' @ v) (headers q)\<rparr>,
                 timeout := deadline cfg t (env i)\<rparr>)
              ((globals fr)\<lparr>calls := calls (globals fr) @
                                pre_calls (hook (this fr) \<noteq> None) i\<rparr>)));
        fr' = frame_of (run_attempt cfg hooks env t i fr);
        ask = (case hook (this fr') of
                 Some h' \<Rightarrow> should_retry (hooks h') (this fr') i | None \<Rightarrow> False)
    in this fr' =
         (if \<not> canceled p \<and> result (env i) = CURLE_OK
          then p\<lparr>timeout := 0, response_code := info_response_code (env i),
                 last_modified := info_filetime (env i)\<rparr>
          else p\<lparr>timeout := 0\<rparr>) \<and>
       attempt_calls cfg hooks env t (i, fr) =
         pre_calls (hook (this fr) \<noteq> None) i @ Perform i (result (env i)) #
           (if \<not> canceled (this fr') \<and> result (env i) = CURLE_OK \<and> hook (this fr') \<noteq> None
            then [Should_retry i ask] else []) \<and>
       run_attempt cfg hooks env t i fr =
         (if canceled (this fr') then Throw timed_out fr'
          else if retryable (result (env i)) \<or> result (env i) = CURLE_OK \<and> ask
          then Continue fr' else Break fr')) \<and>
   (url req \<noteq> [] \<and> request_method req \<noteq> [] \<and> \<not> canceled req \<longrightarrow>
      new_calls w (snd (snd (run cfg hooks env t req w))) =
        concat (map (attempt_calls cfg hooks env t)
          (iterations cfg hooks env t 0 (start req w)))) \<and>
   map fst (iterations cfg hooks env t 0 (start req w)) =
     map int [0 ..< length (iterations cfg hooks env t 0 (start req w))] \<and>
   int (length (iterations cfg hooks env t 0 (start req w))) \<le>
     max 0 (max_transfer_retries cfg)"
proof -
  have a: "\<exists>cs. calls (snd (snd (run cfg hooks env t req w))) = calls w @ cs \<and>
        retry_protocol (hook req \<noteq> None) (max_transfer_retries cfg)
          (\<lambda>j. result (env j)) 0 cs \<and>
        int (attempts_made cs) \<le> max 0 (max_transfer_retries cfg)"
    if hk: "hook_keeps hook hooks"
  proof -
    let ?P = "retry_protocol (hook req \<noteq> None) (max_transfer_retries cfg)
          (\<lambda>j. result (env j)) 0"
    from run_loop_protocol [OF hk, of "hook req \<noteq> None" "start req w" cfg env t 0]
    obtain cs where cs: "calls (globals (end_frame (run_loop cfg hooks env t 0 (start req w)))) =
        calls w @ cs" and p: "?P cs"
      by (auto simp: start_def)
    from run_calls [of cfg hooks env t req w]
    have "\<exists>cs. calls (snd (snd (run cfg hooks env t req w))) = calls w @ cs \<and> ?P cs"
    proof
      assume "calls (snd (snd (run cfg hooks env t req w))) = calls w"
      then show ?thesis using retry_protocol.finished by fastforce
    next
      assume "calls (snd (snd (run cfg hooks env t req w))) =
        calls (globals (end_frame (run_loop cfg hooks env t 0
          \<lparr>r_code = CURLE_OK, elapsed_time = 0, bytes_transferred = 0,
           this = req, globals = w\<rparr>)))"
      with cs p show ?thesis by (auto simp: start_def)
    qed
    then obtain ds where d: "calls (snd (snd (run cfg hooks env t req w))) = calls w @ ds"
      and q: "?P ds"
      by blast
    from retry_protocol_bound [OF q] d q show ?thesis by auto
  qed
  have b: "retryable r \<longleftrightarrow>
      r \<in> {CURLE_COULDNT_RESOLVE_PROXY, CURLE_COULDNT_RESOLVE_HOST, CURLE_COULDNT_CONNECT,
           CURLE_PARTIAL_FILE, CURLE_UPLOAD_FAILED, CURLE_OPERATION_TIMEDOUT,
           CURLE_SSL_CONNECT_ERROR, CURLE_GOT_NOTHING, CURLE_SEND_ERROR, CURLE_RECV_ERROR,
           CURLE_BAD_CONTENT_ENCODING}"
    by (auto simp: retryable_def)
  note c = run_attempt_invokes [where fr = fr and hooks = hooks and i = i and env = env
      and cfg = cfg and t = t]
  note d = run_iterations [where req = req and cfg = cfg and hooks = hooks and env = env
      and t = t and w = w]
  from run_loop_iterations [of cfg hooks env t 0 "start req w"]
  have e: "map fst (iterations cfg hooks env t 0 (start req w)) =
     map int [0 ..< length (iterations cfg hooks env t 0 (start req w))]"
    and f: "int (length (iterations cfg hooks env t 0 (start req w))) \<le>
     max 0 (max_transfer_retries cfg)"
    by simp_all
  from a b c d e f show ?thesis by blast
qed

theorem run_retry_policy_witness:
  "hook_keeps hook signers \<and>
   calls (snd (snd (run cfg3 signers flaky (- 1) ready quiet))) =
     calls quiet @
       [Pre_run 0, Perform 0 CURLE_GOT_NOTHING,
        Pre_run 1, Perform 1 CURLE_OK, Should_retry 1 True,
        Pre_run 2, Perform 2 CURLE_OK, Should_retry 2 False] \<and>
   retry_protocol (hook ready \<noteq> None) (max_transfer_retries cfg3) (\<lambda>j. result (flaky j)) 0
     [Pre_run 0, Perform 0 CURLE_GOT_NOTHING,
      Pre_run 1, Perform 1 CURLE_OK, Should_retry 1 True,
      Pre_run 2, Perform 2 CURLE_OK, Should_retry 2 False] \<and>
   int (attempts_made
     [Pre_run 0, Perform 0 CURLE_GOT_NOTHING,
      Pre_run 1, Perform 1 CURLE_OK, Should_retry 1 True,
      Pre_run 2, Perform 2 CURLE_OK, Should_retry 2 False]) \<le> max 0 (max_transfer_retries cfg3) \<and>
   url ready \<noteq> [] \<and> request_method ready \<noteq> [] \<and> \<not> canceled ready \<and>
   new_calls quiet (snd (snd numbered_run)) =
     concat (map (attempt_calls cfg3 numberers steady (- 1))
       (iterations cfg3 numberers steady (- 1) 0 (start ready quiet))) \<and>
   new_calls quiet (snd (snd numbered_run)) =
     [Pre_run 0, Perform 0 CURLE_OK, Should_retry 0 True,
      Pre_run 1, Perform 1 CURLE_OK, Should_retry 1 True,
      Pre_run 2, Perform 2 CURLE_OK, Should_retry 2 False] \<and>
   map fst (iterations cfg3 numberers steady (- 1) 0 (start ready quiet)) = [0, 1, 2] \<and>
   headers (fst (snd numbered_run)) = [(''Attempt'', ''II'')] \<and>
   hook (this (start ready quiet)) = Some 0 \<and>
   headers (this (start ready quiet)) = [] \<and>
   headers (pre_run (numberers 0)
     ((this (start ready quiet))\<lparr>output_buffer := [], response_headers := Map.empty\<rparr>) 2) =
     [(''Attempt'', ''II'')] \<and>
   headers (this (frame_of (run_attempt cfg3 numberers steady (- 1) 2 (start ready quiet)))) =
     [(''Attempt'', ''II'')] \<and>
   opt_httpheader (curl (this (frame_of (run_attempt cfg3 numberers steady (- 1) 2 (start ready quiet))))) =
     [''Attempt: II''] \<and>
   attempt_calls cfg3 numberers steady (- 1) (2, (start ready quiet)) =
     [Pre_run 2, Perform 2 CURLE_OK,
      Should_retry 2 (should_retry (numberers 0)
        (this (frame_of (run_attempt cfg3 numberers steady (- 1) 2 (start ready quiet)))) 2)] \<and>
   \<not> should_retry (numberers 0)
        (this (frame_of (run_attempt cfg3 numberers steady (- 1) 2 (start ready quiet)))) 2 \<and>
   run_attempt cfg3 numberers steady (- 1) 2 (start ready quiet) =
     Break (frame_of (run_attempt cfg3 numberers steady (- 1) 2 (start ready quiet)))"
proof -
  have hk: "hook_keeps hook signers"
    by (simp add: hook_keeps_def signers_def signer_def)
  have c: "calls (snd (snd (run cfg3 signers flaky (- 1) ready quiet))) =
     calls quiet @
       [Pre_run 0, Perform 0 CURLE_GOT_NOTHING,
        Pre_run 1, Perform 1 CURLE_OK, Should_retry 1 True,
        Pre_run 2, Perform 2 CURLE_OK, Should_retry 2 False]"
    by code_simp
  from run_retry_policy [where hooks = signers and cfg = cfg3 and env = flaky and t = "- 1"
      and req = ready and w = quiet and r = CURLE_OK] hk
  obtain cs where "calls (snd (snd (run cfg3 signers flaky (- 1) ready quiet))) = calls quiet @ cs"
    and "retry_protocol (hook ready \<noteq> None) (max_transfer_retries cfg3)
      (\<lambda>j. result (flaky j)) 0 cs"
    and "int (attempts_made cs) \<le> max 0 (max_transfer_retries cfg3)"
    by blast
  with c have old: "retry_protocol (hook ready \<noteq> None) (max_transfer_retries cfg3)
      (\<lambda>j. result (flaky j)) 0
      [Pre_run 0, Perform 0 CURLE_GOT_NOTHING,
       Pre_run 1, Perform 1 CURLE_OK, Should_retry 1 True,
       Pre_run 2, Perform 2 CURLE_OK, Should_retry 2 False]"
    "int (attempts_made
      [Pre_run 0, Perform 0 CURLE_GOT_NOTHING,
       Pre_run 1, Perform 1 CURLE_OK, Should_retry 1 True,
       Pre_run 2, Perform 2 CURLE_OK, Should_retry 2 False]) \<le> max 0 (max_transfer_retries cfg3)"
    by simp_all
  let ?z = "(this (start ready quiet))\<lparr>output_buffer := [], response_headers := Map.empty\<rparr>"
  let ?y = "case hook (this (start ready quiet)) of Some h \<Rightarrow> pre_run (numberers h) ?z 2 | None \<Rightarrow> ?z"
  let ?p = "fst (snd (curl_easy_perform (steady 2)
              (?y\<lparr>curl := (curl ?y)\<lparr>opt_httpheader :=
                                     map (\<lambda>(k, v). k @ '': '' @ v) (headers ?y)\<rparr>,
                 timeout := deadline cfg3 (- 1) (steady 2)\<rparr>)
              ((globals (start ready quiet))\<lparr>calls := calls (globals (start ready quiet)) @
                                pre_calls (hook (this (start ready quiet)) \<noteq> None) 2\<rparr>)))"
  let ?fr' = "frame_of (run_attempt cfg3 numberers steady (- 1) 2 (start ready quiet))"
  let ?ask = "case hook (this ?fr') of
                 Some h' \<Rightarrow> should_retry (numberers h') (this ?fr') 2 | None \<Rightarrow> False"
  note t = run_retry_policy [where hooks = numberers and cfg = cfg3 and env = steady
      and t = "- 1" and req = ready and w = quiet and fr = "start ready quiet" and i = 2,
      unfolded Let_def]
  have sane: "url ready \<noteq> []" "request_method ready \<noteq> []" "\<not> canceled ready"
    by code_simp+
  from t sane have d: "new_calls quiet (snd (snd (run cfg3 numberers steady (- 1) ready quiet))) =
     concat (map (attempt_calls cfg3 numberers steady (- 1))
       (iterations cfg3 numberers steady (- 1) 0 (start ready quiet)))"
    by blast
  have n: "new_calls quiet (snd (snd numbered_run)) =
     [Pre_run 0, Perform 0 CURLE_OK, Should_retry 0 True,
      Pre_run 1, Perform 1 CURLE_OK, Should_retry 1 True,
      Pre_run 2, Perform 2 CURLE_OK, Should_retry 2 False]"
    by code_simp
  have len: "length (iterations cfg3 numberers steady (- 1) 0 (start ready quiet)) = 3"
    by code_simp
  from t have "map fst (iterations cfg3 numberers steady (- 1) 0 (start ready quiet)) =
     map int [0 ..< length (iterations cfg3 numberers steady (- 1) 0 (start ready quiet))]"
    by blast
  with len have ix: "map fst (iterations cfg3 numberers steady (- 1) 0 (start ready quiet)) =
      [0, 1, 2]"
    by (simp add: upt_rec)
  have fin: "headers (fst (snd numbered_run)) = [(''Attempt'', ''II'')]"
    by code_simp
  have h3: "hook (this (start ready quiet)) = Some 0" and hd3: "headers (this (start ready quiet)) = []"
    by code_simp+
  have pre: "headers (pre_run (numberers 0) ?z 2) = [(''Attempt'', ''II'')]"
    by code_simp
  have live: "\<not> canceled ?p" and ok: "result (steady 2) = CURLE_OK"
    and hp: "headers ?p = [(''Attempt'', ''II'')]"
    and cp: "opt_httpheader (curl ?p) = [''Attempt: II'']"
    and kp: "hook ?p = Some 0"
    by code_simp+
  from t have "this ?fr' =
         (if \<not> canceled ?p \<and> result (steady 2) = CURLE_OK
          then ?p\<lparr>timeout := 0, response_code := info_response_code (steady 2),
                 last_modified := info_filetime (steady 2)\<rparr>
          else ?p\<lparr>timeout := 0\<rparr>)"
    by blast
  with live ok have th: "this ?fr' = ?p\<lparr>timeout := 0,
      response_code := info_response_code (steady 2),
      last_modified := info_filetime (steady 2)\<rparr>"
    by simp
  from th hp have s1: "headers (this ?fr') = [(''Attempt'', ''II'')]"
    by simp
  from th cp have s2: "opt_httpheader (curl (this ?fr')) = [''Attempt: II'']"
    by simp
  from th kp have s3: "hook (this ?fr') = Some 0"
    by simp
  from th live have s4: "\<not> canceled (this ?fr')"
    by simp
  from t have "attempt_calls cfg3 numberers steady (- 1) (2, (start ready quiet)) =
         pre_calls (hook (this (start ready quiet)) \<noteq> None) 2 @ Perform 2 (result (steady 2)) #
           (if \<not> canceled (this ?fr') \<and> result (steady 2) = CURLE_OK \<and> hook (this ?fr') \<noteq> None
            then [Should_retry 2 ?ask] else [])"
    by blast
  with h3 s3 s4 ok have ac: "attempt_calls cfg3 numberers steady (- 1) (2, (start ready quiet)) =
     [Pre_run 2, Perform 2 CURLE_OK,
      Should_retry 2 (should_retry (numberers 0) (this ?fr') 2)]"
    by (simp add: pre_calls_def)
  have no: "\<not> should_retry (numberers 0) (this ?fr') 2"
    by (simp add: numberers_def numberer_def)
  have nr: "\<not> retryable (result (steady 2))"
    by code_simp
  from t have "run_attempt cfg3 numberers steady (- 1) 2 (start ready quiet) =
         (if canceled (this ?fr') then Throw timed_out ?fr'
          else if retryable (result (steady 2)) \<or> result (steady 2) = CURLE_OK \<and> ?ask
          then Continue ?fr' else Break ?fr')"
    by blast
  with s3 s4 no nr have fl: "run_attempt cfg3 numberers steady (- 1) 2 (start ready quiet) = Break ?fr'"
    by simp
  from d have d': "new_calls quiet (snd (snd numbered_run)) =
     concat (map (attempt_calls cfg3 numberers steady (- 1))
       (iterations cfg3 numberers steady (- 1) 0 (start ready quiet)))"
    by (simp add: numbered_run_def)
  from hk c old sane d' n ix fin h3 hd3 pre s1 s2 ac no fl show ?thesis
    by blast
qed

subsection \<open>Facts about the end of run\<close>

lemma run_finish_abort:
  "r_code f \<noteq> CURLE_OK \<Longrightarrow>
     run_finish it f =
       (Inl (Runtime_error (curl_error (this f))), this f,
        (globals f)\<lparr>s_aborts := s_aborts (globals f) + 1\<rparr>)"
  by (simp add: run_finish_def Let_def)

lemma run_finish_ok:
  assumes "r_code f = CURLE_OK"
  shows "fst (run_finish it f) = Inr () \<and>
     response_code (fst (snd (run_finish it f))) = response_code (this f) \<and>
     canceled (fst (snd (run_finish it f))) = canceled (this f) \<and>
     output_buffer (fst (snd (run_finish it f))) = output_buffer (this f) \<and>
     response_headers (fst (snd (run_finish it f))) = response_headers (this f) \<and>
     request_method (fst (snd (run_finish it f))) = request_method (this f) \<and>
     url (fst (snd (run_finish it f))) = url (this f) \<and>
     (if 300 \<le> response_code (this f) \<and> response_code (this f) \<noteq> 404 then
        snd (snd (run_finish it f)) =
          (globals f)\<lparr>s_request_failures := s_request_failures (globals f) + 1,
            logged := logged (globals f) @
              [Request_failed (request_method (this f)) (url (this f))
                 (response_code (this f)) (output_buffer (this f))]\<rparr>
      else snd (snd (run_finish it f)) = globals f)"
  using assms
  by (simp add: run_finish_def Let_def HTTP_SC_MULTIPLE_CHOICES_def HTTP_SC_NOT_FOUND_def)

lemma run_finish_canceled:
  "canceled (fst (snd (run_finish it f))) = canceled (this f)"
  by (simp add: run_finish_def Let_def)

lemma run_finish_response:
  "output_buffer (fst (snd (run_finish it f))) = output_buffer (this f) \<and>
   response_headers (fst (snd (run_finish it f))) = response_headers (this f)"
  by (simp add: run_finish_def Let_def)

lemma new_calls_cong: "calls a = calls b \<Longrightarrow> new_calls w a = new_calls w b"
  by (simp add: new_calls_def)

lemma run_last_attempt:
  assumes "last_attempt (new_calls w (snd (snd (run cfg hooks env t req w)))) = Some j"
  shows "0 \<le> j \<and> j < max_transfer_retries cfg \<and>
     (\<exists>f. f = end_frame (run_loop cfg hooks env t 0 (start req w)) \<and>
      r_code f = result (env j) \<and> curl_error (this f) = error_text (env j) \<and>
      (\<not> canceled (this f) \<and> result (env j) = CURLE_OK \<longrightarrow>
         response_code (this f) = info_response_code (env j) \<and>
         last_modified (this f) = info_filetime (env j)) \<and>
      (hook_keeps output_buffer hooks \<and> hook_keeps response_headers hooks \<and>
       \<not> canceled (this f) \<longrightarrow>
         output_buffer (this f) = body_of (callbacks (env j)) \<and>
         response_headers (this f) =
           map_of (rev (parsed_headers (header_lines (callbacks (env j)))))) \<and>
      (canceled (this f) \<and> run cfg hooks env t req w = (Inl timed_out, this f, globals f) \<or>
       \<not> canceled (this f) \<and> (\<exists>it. run cfg hooks env t req w = run_finish it f)))"
proof -
  from run_summary [of w cfg hooks env t req] assms
  obtain k f where k: "0 \<le> k" "k < max_transfer_retries cfg"
    and f: "f = end_frame (run_loop cfg hooks env t 0 (start req w))"
    and la: "last_attempt (new_calls w (globals f)) = Some k"
    and facts: "r_code f = result (env k)" "curl_error (this f) = error_text (env k)"
      "\<not> canceled (this f) \<and> result (env k) = CURLE_OK \<longrightarrow>
         response_code (this f) = info_response_code (env k) \<and>
         last_modified (this f) = info_filetime (env k)"
      "hook_keeps output_buffer hooks \<and> hook_keeps response_headers hooks \<and>
       \<not> canceled (this f) \<longrightarrow>
         output_buffer (this f) = body_of (callbacks (env k)) \<and>
         response_headers (this f) =
           map_of (rev (parsed_headers (header_lines (callbacks (env k)))))"
    and r: "canceled (this f) \<and> run cfg hooks env t req w = (Inl timed_out, this f, globals f) \<or>
       \<not> canceled (this f) \<and> (\<exists>it. run cfg hooks env t req w = run_finish it f)"
    by auto
  from r have "calls (snd (snd (run cfg hooks env t req w))) = calls (globals f)"
    by (auto simp: run_finish_calls)
  then have "new_calls w (snd (snd (run cfg hooks env t req w))) = new_calls w (globals f)"
    by (rule new_calls_cong)
  with assms la have "k = j" by simp
  with k f facts r show ?thesis by blast
qed

lemma run_ends:
  "(\<exists>e. run cfg hooks env t req w = (Inl e, req, w)) \<or>
   run cfg hooks env t req w = run_finish 0 (start req w) \<or>
   (\<exists>f. f = end_frame (run_loop cfg hooks env t 0 (start req w)) \<and> canceled (this f) \<and>
      run cfg hooks env t req w = (Inl timed_out, this f, globals f)) \<or>
   (\<exists>f it. \<not> canceled (this f) \<and> run cfg hooks env t req w = run_finish it f)"
  using run_summary [of w cfg hooks env t req]
  apply (elim disjE exE conjE)
     apply (rule disjI1, rule exI, assumption)
    apply (rule disjI2, rule disjI1, assumption)
   apply (rule disjI2, rule disjI2, rule disjI1, rule exI, intro conjI, assumption,
      assumption, assumption)
  apply (rule disjI2, rule disjI2, rule disjI2, rule exI, rule exI, rule conjI, assumption,
      assumption)
  done

subsection \<open>After the retry loop\<close>

text \<open>
  C2. Let \<open>j\<close> be the last attempt a \<^verbatim>\<open>run\<close> made. If its transfer returned a code
  other than \<^verbatim>\<open>CURLE_OK\<close>, among them the transport-class failures, \<^verbatim>\<open>run\<close> fails
  with an error: with the timeout error if the attempt was canceled, and otherwise with
  the text libcurl left in the error buffer, counting one abort. If the transfer
  succeeded, \<^verbatim>\<open>run\<close> returns normally and the response code of that transfer can be
  read from the executor; when that code is at least 300 and not 404, the return is
  still normal, one request failure is counted and a warning with the method, the URL,
  the code and the response body is logged last.
\<close>

theorem run_outcome:
  "run cfg hooks env t req w = (res, req', w') \<and> last_attempt (new_calls w w') = Some j \<longrightarrow>
     (result (env j) \<noteq> CURLE_OK \<longrightarrow>
        (\<exists>e. res = Inl e) \<and>
        (\<not> canceled req' \<longrightarrow>
           res = Inl (Runtime_error (error_text (env j))) \<and>
           s_aborts w' = s_aborts w + 1)) \<and>
     (result (env j) = CURLE_OK \<and> \<not> canceled req' \<longrightarrow>
        res = Inr () \<and> response_code req' = info_response_code (env j) \<and>
        s_aborts w' = s_aborts w \<and>
        (300 \<le> info_response_code (env j) \<and> info_response_code (env j) \<noteq> 404 \<longrightarrow>
           s_request_failures w' = s_request_failures w + 1 \<and>
           (\<exists>old. logged w' = old @
              [Request_failed (request_method req') (url req')
                 (info_response_code (env j)) (output_buffer req')])) \<and>
        (\<not> (300 \<le> info_response_code (env j) \<and> info_response_code (env j) \<noteq> 404) \<longrightarrow>
           s_request_failures w' = s_request_failures w))"
proof (intro impI)
  assume a: "run cfg hooks env t req w = (res, req', w') \<and>
    last_attempt (new_calls w w') = Some j"
  then have run: "run cfg hooks env t req w = (res, req', w')" by simp
  from a have "last_attempt (new_calls w (snd (snd (run cfg hooks env t req w)))) = Some j"
    by simp
  from run_last_attempt [OF this]
  obtain f where f: "f = end_frame (run_loop cfg hooks env t 0 (start req w))"
    and rc: "r_code f = result (env j)" and ce: "curl_error (this f) = error_text (env j)"
    and ok: "\<not> canceled (this f) \<and> result (env j) = CURLE_OK \<longrightarrow>
         response_code (this f) = info_response_code (env j)"
    and r: "canceled (this f) \<and> run cfg hooks env t req w = (Inl timed_out, this f, globals f) \<or>
       \<not> canceled (this f) \<and> (\<exists>it. run cfg hooks env t req w = run_finish it f)"
    by blast
  from run_loop_world [of cfg hooks env t 0 "start req w"] f
  have wf: "s_aborts (globals f) = s_aborts w"
    "s_request_failures (globals f) = s_request_failures w"
    by (simp_all add: start_def)
  from r show "(result (env j) \<noteq> CURLE_OK \<longrightarrow>
        (\<exists>e. res = Inl e) \<and>
        (\<not> canceled req' \<longrightarrow>
           res = Inl (Runtime_error (error_text (env j))) \<and>
           s_aborts w' = s_aborts w + 1)) \<and>
     (result (env j) = CURLE_OK \<and> \<not> canceled req' \<longrightarrow>
        res = Inr () \<and> response_code req' = info_response_code (env j) \<and>
        s_aborts w' = s_aborts w \<and>
        (300 \<le> info_response_code (env j) \<and> info_response_code (env j) \<noteq> 404 \<longrightarrow>
           s_request_failures w' = s_request_failures w + 1 \<and>
           (\<exists>old. logged w' = old @
              [Request_failed (request_method req') (url req')
                 (info_response_code (env j)) (output_buffer req')])) \<and>
        (\<not> (300 \<le> info_response_code (env j) \<and> info_response_code (env j) \<noteq> 404) \<longrightarrow>
           s_request_failures w' = s_request_failures w))"
  proof
    assume "canceled (this f) \<and> run cfg hooks env t req w = (Inl timed_out, this f, globals f)"
    with run show ?thesis by auto
  next
    assume "\<not> canceled (this f) \<and> (\<exists>it. run cfg hooks env t req w = run_finish it f)"
    then obtain it where live: "\<not> canceled (this f)"
      and fin: "run_finish it f = (res, req', w')"
      using run by auto
    show ?thesis
    proof (cases "result (env j) = CURLE_OK")
      case False
      with rc have "r_code f \<noteq> CURLE_OK" by simp
      from run_finish_abort [OF this, of it] fin ce wf False show ?thesis by auto
    next
      case True
      with rc have "r_code f = CURLE_OK" by simp
      from run_finish_ok [OF this, of it] fin ok live True wf show ?thesis
        by (auto split: if_splits)
    qed
  qed
qed

theorem run_outcome_witness:
  "run cfg3 signers (\<lambda>i. answer 403 ''denied'') (- 1) plain quiet =
     (fst refused_run, fst (snd refused_run), snd (snd refused_run)) \<and>
   last_attempt (new_calls quiet (snd (snd refused_run))) = Some 0 \<and>
   result (answer 403 ''denied'') = CURLE_OK \<and> \<not> canceled (fst (snd refused_run)) \<and>
   info_response_code (answer 403 ''denied'') = 403 \<and>
   fst refused_run = Inr () \<and> response_code (fst (snd refused_run)) = 403 \<and>
   s_request_failures (snd (snd refused_run)) = s_request_failures quiet + 1 \<and>
   logged (snd (snd refused_run)) =
     [] @ [Request_failed ''GET'' ''http://host/key'' 403 ''denied''] \<and>
   run cfg3 signers (\<lambda>i. dropped) (- 1) plain quiet =
     (fst dropped_run, fst (snd dropped_run), snd (snd dropped_run)) \<and>
   last_attempt (new_calls quiet (snd (snd dropped_run))) = Some 2 \<and>
   result dropped \<noteq> CURLE_OK \<and> \<not> canceled (fst (snd dropped_run)) \<and>
   fst dropped_run = Inl (Runtime_error (error_text dropped)) \<and>
   s_aborts (snd (snd dropped_run)) = s_aborts quiet + 1"
proof -
  have r1: "run cfg3 signers (\<lambda>i. answer 403 ''denied'') (- 1) plain quiet =
     (fst refused_run, fst (snd refused_run), snd (snd refused_run))"
    by (simp add: refused_run_def)
  have l1: "last_attempt (new_calls quiet (snd (snd refused_run))) = Some 0"
    by code_simp
  have k1: "result (answer 403 ''denied'') = CURLE_OK"
    and c1: "info_response_code (answer 403 ''denied'') = 403"
    by (simp_all add: answer_def)
  have v1: "\<not> canceled (fst (snd refused_run))"
    by code_simp
  have g1: "logged (snd (snd refused_run)) =
     [] @ [Request_failed ''GET'' ''http://host/key'' 403 ''denied'']"
    by code_simp
  note t1 = run_outcome [where cfg = cfg3 and hooks = signers
      and env = "\<lambda>i. answer 403 ''denied''" and t = "- 1" and req = plain and w = quiet
      and res = "fst refused_run" and req' = "fst (snd refused_run)"
      and w' = "snd (snd refused_run)" and j = 0]
  from t1 r1 l1 k1 c1 v1
  have a1: "fst refused_run = Inr ()" "response_code (fst (snd refused_run)) = 403"
    "s_request_failures (snd (snd refused_run)) = s_request_failures quiet + 1"
    by simp_all
  have r2: "run cfg3 signers (\<lambda>i. dropped) (- 1) plain quiet =
     (fst dropped_run, fst (snd dropped_run), snd (snd dropped_run))"
    by (simp add: dropped_run_def)
  have l2: "last_attempt (new_calls quiet (snd (snd dropped_run))) = Some 2"
    by code_simp
  have k2: "result dropped \<noteq> CURLE_OK"
    by (simp add: dropped_def)
  have v2: "\<not> canceled (fst (snd dropped_run))"
    by code_simp
  note t2 = run_outcome [where cfg = cfg3 and hooks = signers
      and env = "\<lambda>i. dropped" and t = "- 1" and req = plain and w = quiet
      and res = "fst dropped_run" and req' = "fst (snd dropped_run)"
      and w' = "snd (snd dropped_run)" and j = 2]
  from t2 r2 l2 k2 v2
  have a2: "fst dropped_run = Inl (Runtime_error (error_text dropped))"
    "s_aborts (snd (snd dropped_run)) = s_aborts quiet + 1"
    by simp_all
  from r1 l1 k1 c1 v1 g1 a1 r2 l2 k2 v2 a2 show ?thesis by blast
qed

subsection \<open>The response of the final attempt\<close>

text \<open>
  C8. In every attempt the output buffer and the response-header mapping are empty when
  the transfer starts: \<^verbatim>\<open>run\<close> clears them first, and the hook is taken to leave them
  alone. So when \<^verbatim>\<open>run\<close> has made an attempt and the executor is not canceled
  afterwards, which is so whenever \<^verbatim>\<open>run\<close> returns normally, the output buffer is the
  body delivered in the last attempt and the response headers are those parsed from the
  header lines of the last attempt, with nothing left from an earlier attempt or an
  earlier transaction.
\<close>

theorem run_keeps_final_response:
  "hook_keeps output_buffer hooks \<and> hook_keeps response_headers hooks \<longrightarrow>
     output_buffer (fst (snd (attempt_prepare hooks i req w))) = [] \<and>
     response_headers (fst (snd (attempt_prepare hooks i req w))) = Map.empty \<and>
     (run cfg hooks env t req w = (res, req', w') \<and>
      last_attempt (new_calls w w') = Some j \<and> \<not> canceled req' \<longrightarrow>
        output_buffer req' = body_of (callbacks (env j)) \<and>
        response_headers req' =
          map_of (rev (parsed_headers (header_lines (callbacks (env j)))))) \<and>
     (run cfg hooks env t req w = (Inr (), req', w') \<longrightarrow> \<not> canceled req')"
proof (intro impI conjI)
  assume hk: "hook_keeps output_buffer hooks \<and> hook_keeps response_headers hooks"
  show "output_buffer (fst (snd (attempt_prepare hooks i req w))) = []"
    using prepare_keeps [of output_buffer hooks i req w] hk by simp
  show "response_headers (fst (snd (attempt_prepare hooks i req w))) = Map.empty"
    using prepare_keeps [of response_headers hooks i req w] hk by simp
  {
    assume a: "run cfg hooks env t req w = (res, req', w') \<and>
      last_attempt (new_calls w w') = Some j \<and> \<not> canceled req'"
    then have run: "run cfg hooks env t req w = (res, req', w')" by simp
    from a have "last_attempt (new_calls w (snd (snd (run cfg hooks env t req w)))) = Some j"
      by simp
    from run_last_attempt [OF this] hk
    obtain f where
      o: "\<not> canceled (this f) \<longrightarrow>
         output_buffer (this f) = body_of (callbacks (env j)) \<and>
         response_headers (this f) =
           map_of (rev (parsed_headers (header_lines (callbacks (env j)))))"
      and r: "canceled (this f) \<and> run cfg hooks env t req w = (Inl timed_out, this f, globals f) \<or>
       \<not> canceled (this f) \<and> (\<exists>it. run cfg hooks env t req w = run_finish it f)"
      by blast
    from r a run obtain it where live: "\<not> canceled (this f)"
      and fin: "run_finish it f = (res, req', w')"
      by auto
    from run_finish_response [of it f] fin o live
    have "output_buffer req' = body_of (callbacks (env j)) \<and>
        response_headers req' =
          map_of (rev (parsed_headers (header_lines (callbacks (env j)))))"
      by simp
  }
  then show "output_buffer req' = body_of (callbacks (env j))"
    and "response_headers req' =
          map_of (rev (parsed_headers (header_lines (callbacks (env j)))))"
    if "run cfg hooks env t req w = (res, req', w') \<and>
      last_attempt (new_calls w w') = Some j \<and> \<not> canceled req'"
    using that by blast+
  show "\<not> canceled req'" if "run cfg hooks env t req w = (Inr (), req', w')"
  proof -
    from that have sane: "\<not> canceled req"
      by (auto simp: run_unfold split: if_splits)
    from run_ends [of cfg hooks env t req w]
    consider e where "run cfg hooks env t req w = (Inl e, req, w)"
      | "run cfg hooks env t req w = run_finish 0 (start req w)"
      | f where "f = end_frame (run_loop cfg hooks env t 0 (start req w))" "canceled (this f)"
          "run cfg hooks env t req w = (Inl timed_out, this f, globals f)"
      | f it where "\<not> canceled (this f)" "run cfg hooks env t req w = run_finish it f"
      by blast
    then show ?thesis
    proof cases
      case 1
      with that show ?thesis by simp
    next
      case 2
      with that run_finish_canceled [of 0 "start req w"] sane show ?thesis
        by (simp add: start_def)
    next
      case 3
      with that show ?thesis by simp
    next
      case 4
      with that run_finish_canceled [of it f] show ?thesis by simp
    qed
  qed
qed

theorem run_keeps_final_response_witness:
  "hook_keeps output_buffer signers \<and> hook_keeps response_headers signers \<and>
   run cfg3 signers flaky (- 1) ready quiet =
     (Inr (), fst (snd flaky_run), snd (snd flaky_run)) \<and>
   last_attempt (new_calls quiet (snd (snd flaky_run))) = Some 2 \<and>
   \<not> canceled (fst (snd flaky_run)) \<and>
   body_of (callbacks (flaky 0)) = ''par'' \<and> body_of (callbacks (flaky 1)) = ''busy'' \<and>
   body_of (callbacks (flaky 2)) = ''hello'' \<and>
   output_buffer (fst (snd flaky_run)) = body_of (callbacks (flaky 2)) \<and>
   response_headers (fst (snd flaky_run)) =
     map_of (rev (parsed_headers (header_lines (callbacks (flaky 2))))) \<and>
   output_buffer (fst (snd (attempt_prepare signers 1
     (ready\<lparr>output_buffer := ''par''\<rparr>) quiet))) = []"
proof -
  have h1: "hook_keeps output_buffer signers" and h2: "hook_keeps response_headers signers"
    by (simp_all add: hook_keeps_def signers_def signer_def)
  have f: "fst flaky_run = Inr ()"
    by code_simp
  then have r: "run cfg3 signers flaky (- 1) ready quiet =
     (Inr (), fst (snd flaky_run), snd (snd flaky_run))"
    by (simp add: flaky_run_def prod_eq_iff)
  have l: "last_attempt (new_calls quiet (snd (snd flaky_run))) = Some 2"
    by code_simp
  have b: "body_of (callbacks (flaky 0)) = ''par''" "body_of (callbacks (flaky 1)) = ''busy''"
    "body_of (callbacks (flaky 2)) = ''hello''"
    by code_simp+
  note t = run_keeps_final_response [where hooks = signers and cfg = cfg3 and env = flaky
      and t = "- 1" and req = ready and w = quiet and res = "Inr ()"
      and req' = "fst (snd flaky_run)" and w' = "snd (snd flaky_run)" and j = 2]
  from t h1 h2 r have v: "\<not> canceled (fst (snd flaky_run))"
    by blast
  from t h1 h2 r l v
  have o: "output_buffer (fst (snd flaky_run)) = body_of (callbacks (flaky 2))"
    "response_headers (fst (snd flaky_run)) =
       map_of (rev (parsed_headers (header_lines (callbacks (flaky 2)))))"
    by blast+
  from run_keeps_final_response [where hooks = signers and i = 1
      and req = "ready\<lparr>output_buffer := ''par''\<rparr>" and w = quiet] h1 h2
  have p: "output_buffer (fst (snd (attempt_prepare signers 1
     (ready\<lparr>output_buffer := ''par''\<rparr>) quiet))) = []"
    by blast
  from h1 h2 r l v b o p show ?thesis by blast
qed

subsection \<open>Facts about the deadline\<close>

lemma watchdog_times_iff:
  "now \<in> set (watchdog_times cbs) \<longleftrightarrow> Watchdog now \<in> set cbs"
  by (induction cbs) (auto simp: watchdog_times_def split: callback.splits)

lemma run_attempt_expired:
  assumes "expired cfg t (env i)"
  shows "canceled (this (frame_of (run_attempt cfg hooks env t i fr)))"
proof -
  from assms obtain now where "Watchdog now \<in> set (callbacks (env i))"
    and "deadline cfg t (env i) \<noteq> 0" and "deadline cfg t (env i) < now"
    by (auto simp: expired_def watchdog_times_iff)
  then have "canceled (fst (snd (attempt_perform cfg (env i) t i
      (fst (snd (attempt_prepare hooks i (this fr) (globals fr))))
      (snd (snd (attempt_prepare hooks i (this fr) (globals fr)))))))"
    by (intro perform_watchdog [of now]) (simp_all add: deadline_def)
  then show ?thesis by (simp add: run_attempt_this Let_def)
qed

lemma run_attempt_performs:
  "\<exists>cs. calls (globals (frame_of (run_attempt cfg hooks env t i fr))) =
          calls (globals fr) @ cs \<and> (\<forall>j r. Perform j r \<in> set cs \<longrightarrow> j = i)"
proof -
  let ?p = "attempt_prepare hooks i (this fr) (globals fr)"
  let ?q = "attempt_perform cfg (env i) t i (fst (snd ?p)) (snd (snd ?p))"
  have cq: "calls (snd (snd ?q)) =
      calls (globals fr) @ pre_calls (hook (this fr) \<noteq> None) i @ [Perform i (result (env i))]"
    using perform_world [of cfg "env i" t i "fst (snd ?p)" "snd (snd ?p)"]
    by (simp add: prepare_world)
  have "\<exists>tl. calls (globals (frame_of (run_attempt cfg hooks env t i fr))) =
      calls (snd (snd ?q)) @ tl \<and> (tl = [] \<or> (\<exists>b. tl = [Should_retry i b]))"
    unfolding run_attempt_eq by (rule conclude_calls)
  then obtain tl where "calls (globals (frame_of (run_attempt cfg hooks env t i fr))) =
      calls (globals fr) @ (pre_calls (hook (this fr) \<noteq> None) i @
        Perform i (result (env i)) # tl)"
    and "tl = [] \<or> (\<exists>b. tl = [Should_retry i b])"
    using cq by auto
  moreover from this(2)
  have "\<forall>j r. Perform j r \<in> set (pre_calls (hook (this fr) \<noteq> None) i @
        Perform i (result (env i)) # tl) \<longrightarrow> j = i"
    by (auto simp: pre_calls_def)
  ultimately show ?thesis by blast
qed

lemma run_loop_expired:
  "\<exists>cs. calls (globals (end_frame (run_loop cfg hooks env t i fr))) = calls (globals fr) @ cs \<and>
     ((\<exists>j r. Perform j r \<in> set cs \<and> expired cfg t (env j)) \<longrightarrow>
      (\<exists>f. run_loop cfg hooks env t i fr = Loop_threw timed_out f \<and> canceled (this f)))"
proof (induction cfg hooks env t i fr rule: run_loop.induct)
  case (1 cfg hooks env t i fr)
  show ?case
  proof (cases "i < max_transfer_retries cfg")
    case False
    then have "run_loop cfg hooks env t i fr = Loop_exit i fr"
      by (simp add: run_loop.simps)
    then show ?thesis by simp
  next
    case True
    from run_attempt_performs [of cfg hooks env t i fr]
    obtain as where as: "calls (globals (frame_of (run_attempt cfg hooks env t i fr))) =
          calls (globals fr) @ as" and only: "\<forall>j r. Perform j r \<in> set as \<longrightarrow> j = i"
      by blast
    note flow = run_attempt_flow [of cfg hooks env t i fr]
    note ex = run_attempt_expired [where cfg = cfg and t = t and env = env and i = i
        and hooks = hooks and fr = fr]
    show ?thesis
    proof (cases "run_attempt cfg hooks env t i fr")
      case (Throw e fr')
      with True flow have "run_loop cfg hooks env t i fr = Loop_threw timed_out fr'"
        and "canceled (this fr')"
        by (simp_all add: run_loop.simps)
      with as Throw show ?thesis by (intro exI [of _ as]) simp
    next
      case (Break fr')
      with True have e: "run_loop cfg hooks env t i fr = Loop_exit i fr'"
        by (simp add: run_loop.simps)
      from Break flow have live: "\<not> canceled (this fr')" by simp
      have "\<not> (\<exists>j r. Perform j r \<in> set as \<and> expired cfg t (env j))"
        using only ex Break live by auto
      with as Break e show ?thesis by (intro exI [of _ as]) simp
    next
      case (Continue fr')
      with True have e: "run_loop cfg hooks env t i fr = run_loop cfg hooks env t (i + 1) fr'"
        by (simp add: run_loop.simps)
      from Continue flow have live: "\<not> canceled (this fr')" by simp
      have no: "\<not> (\<exists>j r. Perform j r \<in> set as \<and> expired cfg t (env j))"
        using only ex Continue live by auto
      from "1.IH" [OF True Continue]
      obtain cs where cs: "calls (globals (end_frame (run_loop cfg hooks env t (i + 1) fr'))) =
          calls (globals fr') @ cs"
        and p: "(\<exists>j r. Perform j r \<in> set cs \<and> expired cfg t (env j)) \<longrightarrow>
          (\<exists>f. run_loop cfg hooks env t (i + 1) fr' = Loop_threw timed_out f \<and>
             canceled (this f))"
        by blast
      from as Continue have "calls (globals fr') = calls (globals fr) @ as" by simp
      with cs have "calls (globals (end_frame (run_loop cfg hooks env t i fr))) =
          calls (globals fr) @ (as @ cs)"
        by (simp add: e)
      moreover have "(\<exists>j r. Perform j r \<in> set (as @ cs) \<and> expired cfg t (env j)) \<longrightarrow>
          (\<exists>f. run_loop cfg hooks env t i fr = Loop_threw timed_out f \<and> canceled (this f))"
        using no p e by auto
      ultimately show ?thesis by blast
    qed
  qed
qed

lemma operate_keeps_canceled:
  "canceled (fst s) \<Longrightarrow> canceled (fst (operate cfg hooks op s))"
proof (cases s)
  case (Pair req w)
  assume "canceled (fst s)"
  with Pair have c: "canceled req" by simp
  show ?thesis
  proof (cases op)
    case (Deliver cb)
    with Pair c deliver_keeps [of cb "(req, w)"] show ?thesis by simp
  next
    case (Run timeout_in_s env)
    with Pair c show ?thesis by (simp add: run_unfold)
  qed (simp_all add: Pair c init_canceled set_url_def set_input_buffer_def
      use_fresh_connection_def check_timeout_def Let_def)
qed

lemma operations_keep_canceled:
  "canceled (fst s) \<Longrightarrow> canceled (fst (fold (operate cfg hooks) ops s))"
  by (induction ops arbitrary: s) (simp_all add: operate_keeps_canceled)

lemma run_first_attempt_expired:
  assumes "url req \<noteq> []" and "request_method req \<noteq> []" and "\<not> canceled req"
    and "0 < max_transfer_retries cfg" and "expired cfg t (env 0)"
  shows "fst (run cfg hooks env t req w) = Inl timed_out \<and>
     canceled (fst (snd (run cfg hooks env t req w)))"
proof -
  note flow = run_attempt_flow [of cfg hooks env t 0 "start req w"]
  note ex = run_attempt_expired [where cfg = cfg and t = t and env = env and i = 0
      and hooks = hooks and fr = "start req w", OF assms(5)]
  from flow ex obtain f where "run_attempt cfg hooks env t 0 (start req w) = Throw timed_out f"
    and "canceled (this f)"
    by (cases "run_attempt cfg hooks env t 0 (start req w)") simp_all
  with assms(1-4) show ?thesis
    by (simp add: run_unfold run_loop.simps)
qed

lemma check_timeout_fires:
  "timeout req \<noteq> 0 \<and> timeout req < now \<Longrightarrow>
     check_timeout now req w =
       (True, req\<lparr>canceled := True\<rparr>,
        w\<lparr>logged := logged w @ [Timed_out_on (request_method req) (url req)]\<rparr>)"
  by (simp add: check_timeout_def)

lemma run_expired:
  assumes run: "run cfg hooks env t req w = (res, req', w')"
    and p: "Perform j r \<in> set (new_calls w w')" and x: "expired cfg t (env j)"
  shows "res = Inl timed_out \<and> canceled req'"
proof (cases "url req = [] \<or> request_method req = [] \<or> canceled req")
  case True
  with run have "w' = w" by (auto simp: run_unfold split: if_splits)
  with p show ?thesis by (simp add: new_calls_def)
next
  case False
  let ?E = "run_loop cfg hooks env t 0 (start req w)"
  from False run have r: "(case ?E of
          Loop_threw e fr \<Rightarrow> (Inl e, this fr, globals fr)
        | Loop_exit iter fr \<Rightarrow> run_finish iter fr) = (res, req', w')"
    by (simp add: run_unfold)
  then have "calls w' = calls (globals (end_frame ?E))"
    using run_finish_calls by (cases ?E) (auto simp: prod_eq_iff)
  moreover from run_loop_expired [of cfg hooks env t 0 "start req w"]
  obtain cs where "calls (globals (end_frame ?E)) = calls w @ cs"
    and e: "(\<exists>j r. Perform j r \<in> set cs \<and> expired cfg t (env j)) \<longrightarrow>
      (\<exists>f. ?E = Loop_threw timed_out f \<and> canceled (this f))"
    by (auto simp: start_def)
  ultimately have "new_calls w w' = cs"
    by (simp add: new_calls_append)
  with p x e obtain f where "?E = Loop_threw timed_out f" "canceled (this f)"
    by blast
  with r show ?thesis by auto
qed


subsection \<open>Cancellation\<close>

text \<open>C3. Cancellation is set once and is terminal. When the deadline of an attempt
  is set and has passed, \<^verbatim>\<open>check_timeout\<close> sets \<^verbatim>\<open>_canceled\<close> and says so. On a canceled object
  the three transfer callbacks return zero and change nothing, which aborts the
  attempt. A \<^verbatim>\<open>run\<close> during which an attempt was performed whose transfer looked at the
  clock after its deadline throws \<^verbatim>\<open>request timed out.\<close> and leaves the object canceled;
  for the first attempt of a well-prepared object this needs no look at the trace. Once
  canceled, the object stays canceled through every sequence of public operations and
  callbacks, \<^verbatim>\<open>init\<close> throws \<^verbatim>\<open>cannot reuse a canceled request.\<close> and \<^verbatim>\<open>run\<close> throws, both
  leaving object and process-wide variables as they were.\<close>

theorem cancellation_is_terminal:
  "(timeout req \<noteq> 0 \<and> timeout req < now \<longrightarrow>
      check_timeout now req w =
        (True, req\<lparr>canceled := True\<rparr>,
         w\<lparr>logged := logged w @ [Timed_out_on (request_method req) (url req)]\<rparr>)) \<and>
   (canceled req \<longrightarrow>
      process_output data req = (0, req) \<and>
      process_input sz items req = ((0, []), req) \<and>
      process_header line c req = (0, req)) \<and>
   (run cfg hooks env t req w = (res, req', w') \<and> Perform j r \<in> set (new_calls w w') \<and>
    expired cfg t (env j) \<longrightarrow>
      res = Inl timed_out \<and> canceled req') \<and>
   (url req \<noteq> [] \<and> request_method req \<noteq> [] \<and> \<not> canceled req \<and>
    0 < max_transfer_retries cfg \<and> expired cfg t (env 0) \<longrightarrow>
      fst (run cfg hooks env t req w) = Inl timed_out \<and>
      canceled (fst (snd (run cfg hooks env t req w)))) \<and>
   (canceled req \<longrightarrow>
      canceled (fst (fold (operate cfg hooks) ops (req, w))) \<and>
      init m (fst (fold (operate cfg hooks) ops (req, w))) =
        (Inl (Runtime_error ''cannot reuse a canceled request.''),
         fst (fold (operate cfg hooks) ops (req, w))) \<and>
      (\<exists>e. run cfg hooks env t (fst (fold (operate cfg hooks) ops (req, w)))
              (snd (fold (operate cfg hooks) ops (req, w))) =
            (Inl e, fold (operate cfg hooks) ops (req, w))))"
proof (intro conjI impI)
  show "check_timeout now req w =
        (True, req\<lparr>canceled := True\<rparr>,
         w\<lparr>logged := logged w @ [Timed_out_on (request_method req) (url req)]\<rparr>)"
    if "timeout req \<noteq> 0 \<and> timeout req < now"
    using that by (rule check_timeout_fires)
  show "process_output data req = (0, req)" if "canceled req"
    using that by (simp add: process_output_def)
  show "process_input sz items req = ((0, []), req)" if "canceled req"
    using that by (rule process_input_canceled)
  show "process_header line c req = (0, req)" if "canceled req"
    using that by (rule process_header_canceled)
  show "res = Inl timed_out" and "canceled req'"
    if "run cfg hooks env t req w = (res, req', w') \<and> Perform j r \<in> set (new_calls w w') \<and>
      expired cfg t (env j)"
    using that run_expired [of cfg hooks env t req w res req' w' j r] by blast+
  show "fst (run cfg hooks env t req w) = Inl timed_out"
    and "canceled (fst (snd (run cfg hooks env t req w)))"
    if "url req \<noteq> [] \<and> request_method req \<noteq> [] \<and> \<not> canceled req \<and>
      0 < max_transfer_retries cfg \<and> expired cfg t (env 0)"
    using that run_first_attempt_expired [of req cfg t env hooks w] by blast+
next
  assume c: "canceled req"
  let ?s = "fold (operate cfg hooks) ops (req, w)"
  from c operations_keep_canceled [of "(req, w)" cfg hooks ops]
  show k: "canceled (fst ?s)" by simp
  then show "init m (fst ?s) =
      (Inl (Runtime_error ''cannot reuse a canceled request.''), fst ?s)"
    by (rule init_canceled)
  from k show "\<exists>e. run cfg hooks env t (fst ?s) (snd ?s) = (Inl e, ?s)"
    by (simp add: run_unfold prod_eq_iff)
qed

theorem cancellation_is_terminal_witness:
  "timeout waiting \<noteq> 0 \<and> timeout waiting < 1031 \<and>
   fst (check_timeout 1031 waiting quiet) \<and>
   canceled (fst (snd (check_timeout 1031 waiting quiet))) \<and>
   expired cfg3 (- 1) stalled \<and> Perform 0 (CURLE_OTHER 23) \<in> set (new_calls quiet (snd (snd stalled_run))) \<and>
   fst stalled_run = Inl timed_out \<and> canceled (fst (snd stalled_run)) \<and>
   output_buffer (fst (snd stalled_run)) = ''he'' \<and>
   process_output ''llo'' (fst (snd stalled_run)) = (0, fst (snd stalled_run)) \<and>
   url plain \<noteq> [] \<and> request_method plain \<noteq> [] \<and> \<not> canceled plain \<and>
   0 < max_transfer_retries cfg3 \<and>
   fst (run cfg3 signers (\<lambda>i. stalled) (- 1) plain quiet) = Inl timed_out \<and>
   canceled (fst (fold (operate cfg3 signers)
       [Set_url ''http://host/other'' [], Init HTTP_GET, Run (- 1) (\<lambda>i. answer 200 ''hello'')]
       (fst (snd stalled_run), snd (snd stalled_run)))) \<and>
   fst (init HTTP_GET (fst (snd stalled_run))) =
     Inl (Runtime_error ''cannot reuse a canceled request.'')"
proof -
  have h1: "timeout waiting \<noteq> 0 \<and> timeout waiting < 1031"
    by code_simp
  note t1 = cancellation_is_terminal [where req = waiting and now = 1031 and w = quiet]
  from t1 h1 have a1: "fst (check_timeout 1031 waiting quiet)"
    "canceled (fst (snd (check_timeout 1031 waiting quiet)))"
    by simp_all
  have x: "expired cfg3 (- 1) stalled"
    by code_simp
  have r: "run cfg3 signers (\<lambda>i. stalled) (- 1) plain quiet =
      (fst stalled_run, fst (snd stalled_run), snd (snd stalled_run))"
    by (simp add: stalled_run_def)
  have p: "Perform 0 (CURLE_OTHER 23) \<in> set (new_calls quiet (snd (snd stalled_run)))"
    by code_simp
  have o: "output_buffer (fst (snd stalled_run)) = ''he''"
    by code_simp
  note t2 = cancellation_is_terminal [where cfg = cfg3 and hooks = signers
      and env = "\<lambda>i. stalled" and t = "- 1" and req = plain and w = quiet
      and res = "fst stalled_run" and req' = "fst (snd stalled_run)"
      and w' = "snd (snd stalled_run)" and j = 0 and r = "CURLE_OTHER 23"]
  from t2 r p x have a2: "fst stalled_run = Inl timed_out" "canceled (fst (snd stalled_run))"
    by blast+
  have h3: "url plain \<noteq> []" "request_method plain \<noteq> []" "\<not> canceled plain"
    "0 < max_transfer_retries cfg3"
    by code_simp+
  from t2 h3 x have a3: "fst (run cfg3 signers (\<lambda>i. stalled) (- 1) plain quiet) = Inl timed_out"
    by blast
  note t3 = cancellation_is_terminal [where req = "fst (snd stalled_run)"
      and w = "snd (snd stalled_run)" and cfg = cfg3 and hooks = signers and m = HTTP_GET
      and data = "''llo''"
      and ops = "[Set_url ''http://host/other'' [], Init HTTP_GET,
                  Run (- 1) (\<lambda>i. answer 200 ''hello'')]"]
  from t3 a2(2) have a4: "process_output ''llo'' (fst (snd stalled_run)) =
      (0, fst (snd stalled_run))"
    by blast
  from t3 a2(2) have a5: "canceled (fst (fold (operate cfg3 signers)
       [Set_url ''http://host/other'' [], Init HTTP_GET, Run (- 1) (\<lambda>i. answer 200 ''hello'')]
       (fst (snd stalled_run), snd (snd stalled_run))))"
    by blast
  note t4 = cancellation_is_terminal [where req = "fst (snd stalled_run)"
      and w = "snd (snd stalled_run)" and cfg = cfg3 and hooks = signers and m = HTTP_GET
      and ops = "[]"]
  from t4 a2(2) have a6: "fst (init HTTP_GET (fst (snd stalled_run))) =
     Inl (Runtime_error ''cannot reuse a canceled request.'')"
    by simp
  from h1 a1 x p a2 o a4 h3 a3 a5 a6 show ?thesis
    by blast
qed

subsection \<open>Facts about the sums of a run\<close>












subsection \<open>Statistics\<close>




end
